(* ===== verification/Prelude.thy ===== *)
theory Prelude
  imports Main "HOL-Library.Word" "HOL-Library.Multiset" "HOL-Library.List_Lexorder" "HOL-Library.Char_ord"
begin

text \<open>
  Shared vocabulary of the development of the VerAI daemon (\<^verbatim>\<open>src/Daemon\<close>).

  \<^item> machine integers: \<^verbatim>\<open>uint\<close> and \<^verbatim>\<open>unsigned int\<close> are 32-bit words, file modes are
    16-bit words;
  \<^item> C++ exceptions are values of one \<^theory_text>\<open>datatype\<close>, and an operation that may throw returns
    \<open>exn + 'a\<close> beside its new state, so the state at the throw is kept;
  \<^item> the \<^verbatim>\<open>std::string\<close> searches the code uses (\<^verbatim>\<open>find_last_of\<close>, \<^verbatim>\<open>find\<close>) with the facts the
    path functions need;
  \<^item> the theorem collections \<open>model_simps\<close> (equations that unfold one operation of the model)
    and \<open>inv_intros\<close> (preservation of the invariants).
\<close>

named_theorems model_simps
named_theorems inv_intros

type_synonym u32 = "32 word"
type_synonym mode_t = "16 word"

datatype exn =
    Ios_Failure string
  | Runtime_Error string
  | Invalid_Argument string
  | Bad_Lexical_Cast
  | Regex_Error

type_synonym 'a result = "exn + 'a"

text \<open>
  How a member function of the engine ends: it returns, it lets an exception out, or it does what C++
  leaves undefined (here always a null pointer dereferenced).
\<close>

datatype 'a outcome = Ret 'a | Throw exn | Undefined

text \<open>One call after another: an exception, or undefined behaviour, ends the sequence.\<close>

definition and_then :: "'a outcome \<times> 's \<Rightarrow> ('a \<Rightarrow> 's \<Rightarrow> 'b outcome \<times> 's) \<Rightarrow> 'b outcome \<times> 's" where
  "and_then r f =
     (case r of
        (Ret x, s) \<Rightarrow> f x s
      | (Throw e, s) \<Rightarrow> (Throw e, s)
      | (Undefined, s) \<Rightarrow> (Undefined, s))"

lemma and_then_simps [simp]:
  "and_then (Ret x, s) f = f x s" "and_then (Throw e, s) f = (Throw e, s)"
  "and_then (Undefined, s) f = (Undefined, s)"
  by (simp_all add: and_then_def)

fun for_each :: "('a \<Rightarrow> 's \<Rightarrow> unit outcome \<times> 's) \<Rightarrow> 'a list \<Rightarrow> 's \<Rightarrow> unit outcome \<times> 's" where
  "for_each f [] s = (Ret (), s)"
| "for_each f (x # xs) s = and_then (f x s) (\<lambda>_. for_each f xs)"

lemma and_then_inv:
  assumes "P (snd r)" and "\<And>x s. P s \<Longrightarrow> P (snd (f x s))"
  shows "P (snd (and_then r f))"
  using assms by (cases r; cases "fst r") auto

lemma for_each_inv:
  assumes "P s" and "\<And>x s. x \<in> set xs \<Longrightarrow> P s \<Longrightarrow> P (snd (f x s))"
  shows "P (snd (for_each f xs s))"
  using assms
proof (induction xs arbitrary: s)
  case (Cons x xs)
  have "P (snd (for_each f xs s'))" if "P s'" for s' using Cons that by simp
  then show ?case using Cons.prems by (simp add: and_then_inv)
qed simp

section \<open>Positions in strings\<close>

text \<open>\<^verbatim>\<open>std::string::find_last_of(char)\<close>: the last position, \<open>None\<close> for \<^verbatim>\<open>npos\<close>.\<close>

fun find_last_of :: "char \<Rightarrow> string \<Rightarrow> nat option" where
  "find_last_of c [] = None"
| "find_last_of c (x # xs) =
     (case find_last_of c xs of
        Some p \<Rightarrow> Some (Suc p)
      | None \<Rightarrow> if x = c then Some 0 else None)"

text \<open>\<^verbatim>\<open>std::string::find\<close> for a one-character pattern.\<close>

fun find_first :: "char \<Rightarrow> string \<Rightarrow> nat option" where
  "find_first c [] = None"
| "find_first c (x # xs) = (if x = c then Some 0 else map_option Suc (find_first c xs))"

lemma find_last_of_None: "find_last_of c s = None \<longleftrightarrow> c \<notin> set s"
  by (induction s) (auto split: option.splits if_splits)

lemma find_last_of_append:
  assumes "c \<notin> set n"
  shows "find_last_of c (d @ c # n) = Some (length d)"
proof (induction d)
  case Nil
  from assms have "find_last_of c n = None" by (simp add: find_last_of_None)
  then show ?case by simp
qed simp

lemma find_last_of_Some:
  assumes "find_last_of c s = Some p"
  shows "p < length s \<and> s = take p s @ c # drop (Suc p) s \<and> c \<notin> set (drop (Suc p) s)"
  using assms
proof (induction s arbitrary: p)
  case (Cons x xs)
  show ?case
  proof (cases "find_last_of c xs")
    case None
    with Cons.prems have "x = c" "p = 0" by (auto split: if_splits)
    moreover from None have "c \<notin> set xs" by (simp add: find_last_of_None)
    ultimately show ?thesis by simp
  next
    case (Some q)
    with Cons.prems have "p = Suc q" by simp
    with Cons.IH [OF Some] show ?thesis by simp
  qed
qed simp

lemma find_first_None: "find_first c s = None \<longleftrightarrow> c \<notin> set s"
  by (induction s) auto

lemma find_first_Some:
  assumes "find_first c s = Some p"
  shows "p < length s \<and> s = take p s @ c # drop (Suc p) s \<and> c \<notin> set (take p s)"
  using assms
  by (induction s arbitrary: p) (auto split: if_splits)

section \<open>Cutting a string at a separator\<close>

fun split_on :: "char \<Rightarrow> string \<Rightarrow> string list" where
  "split_on c [] = [[]]"
| "split_on c (x # s) =
     (if x = c then [] # split_on c s
      else (case split_on c s of [] \<Rightarrow> [[x]] | w # ws \<Rightarrow> (x # w) # ws))"

lemma split_on_not_Nil [simp]: "split_on c s \<noteq> []"
  by (induction s) (auto split: list.splits)

lemma split_on_append: "split_on c (a @ c # b) = split_on c a @ split_on c b"
  by (induction a) (auto split: list.splits)

lemma split_on_plain: "c \<notin> set w \<Longrightarrow> split_on c w = [w]"
  by (induction w) auto

text \<open>The inverse: joining with the separator. Splitting loses nothing.\<close>

fun join_with :: "char \<Rightarrow> string list \<Rightarrow> string" where
  "join_with c [] = ''''"
| "join_with c [w] = w"
| "join_with c (w # v # ws) = w @ c # join_with c (v # ws)"

lemma join_with_Cons: "ws \<noteq> [] \<Longrightarrow> join_with c (w # ws) = w @ c # join_with c ws"
  by (cases ws) auto

lemma join_with_Cons_Cons: "join_with c ((x # w) # ws) = x # join_with c (w # ws)"
  by (cases ws) auto

lemma join_split_on [simp]: "join_with c (split_on c s) = s"
proof (induction s)
  case (Cons x s)
  obtain w ws where sp: "split_on c s = w # ws" by (cases "split_on c s") auto
  with Cons show ?case by (simp add: join_with_Cons join_with_Cons_Cons)
qed simp

lemma split_on_inj: "split_on c s = split_on c t \<longleftrightarrow> s = t"
  by (metis join_split_on)

lemma join_with_append:
  "xs \<noteq> [] \<Longrightarrow> ys \<noteq> [] \<Longrightarrow> join_with c (xs @ ys) = join_with c xs @ c # join_with c ys"
  by (induction c xs rule: join_with.induct) (auto simp: join_with_Cons)

text \<open>A proper prefix of the parts is a prefix of the string that ends at a separator.\<close>

lemma split_on_prefix:
  assumes "split_on c t = split_on c s @ ys" and "ys \<noteq> []"
  shows "t = s @ c # join_with c ys"
  by (metis assms join_split_on join_with_append split_on_not_Nil)

section \<open>Decimal numbers\<close>

definition digit_char :: "nat \<Rightarrow> char" where
  "digit_char d = char_of (48 + d mod 10)"

fun show_nat :: "nat \<Rightarrow> string" where
  "show_nat n = (if n < 10 then [digit_char n] else show_nat (n div 10) @ [digit_char n])"

declare show_nat.simps [simp del]

text \<open>\<^verbatim>\<open>std::to_string(int)\<close>\<close>

definition show_int :: "int \<Rightarrow> string" where
  "show_int n = (if n < 0 then ''-'' @ show_nat (nat (- n)) else show_nat (nat n))"

text \<open>The value of a string of digits: the printed form determines the number.\<close>

definition digits_value :: "string \<Rightarrow> nat" where
  "digits_value s = foldl (\<lambda>a c. 10 * a + (of_char c - 48)) 0 s"

lemma of_digit_char: "of_char (digit_char d) = (48 + d mod 10 :: nat)"
proof -
  have "48 + d mod 10 < 256" by (rule order.strict_trans1 [of _ "57"]) (use mod_less_divisor [of 10 d] in auto)
  then show ?thesis by (simp add: digit_char_def)
qed

lemma digits_value_show: "digits_value (show_nat n) = n"
proof (induction n rule: show_nat.induct)
  case (1 n)
  show ?case
  proof (cases "n < 10")
    case True
    then show ?thesis by (simp add: show_nat.simps [of n] digits_value_def of_digit_char)
  next
    case False
    with 1 show ?thesis by (simp add: show_nat.simps [of n] digits_value_def of_digit_char)
  qed
qed

lemma show_nat_digits:
  "show_nat n \<noteq> '''' \<and> list_all (\<lambda>c. 48 \<le> (of_char c :: nat) \<and> (of_char c :: nat) \<le> 57) (show_nat n)"
proof (induction n rule: show_nat.induct)
  case (1 n)
  have "(d::nat) mod 10 \<le> 9" for d using mod_less_divisor [of 10 d] by linarith
  with 1 show ?case by (cases "n < 10") (simp_all add: show_nat.simps [of n] of_digit_char)
qed

lemma show_nat_inj [simp]: "show_nat m = show_nat n \<longleftrightarrow> m = n"
  by (metis digits_value_show)

lemma show_nat_free: "c \<in> set (show_nat n) \<Longrightarrow> 48 \<le> (of_char c :: nat) \<and> (of_char c :: nat) \<le> 57"
  using show_nat_digits [of n] by (simp add: list_all_iff)

section \<open>Lists and multisets\<close>

lemma filter_mset_partition: "mset (filter P xs) + mset (filter (\<lambda>x. \<not> P x) xs) = mset xs"
  by (induction xs) auto

lemma sum_list_append_count: "count_list (xs @ ys) x = count_list xs x + count_list ys x"
  by (induction xs) auto

section \<open>Lookups through an optional key\<close>

lemma case_option_same [simp]: "(case x of None \<Rightarrow> y | Some _ \<Rightarrow> y) = y"
  by (cases x) auto

end
