(* ===== verification/Message_Queue.thy ===== *)
theory Message_Queue
  imports Prelude
begin

text \<open>
  \<^verbatim>\<open>Daemon/common/message_queue.h\<close>: the blocking queue. Every member function holds the queue's mutex,
  so it is one atomic operation on the deque. A wait releases the mutex: what the other threads do
  during one wait, before the waiter looks at the deque again, is one entry of a schedule
  (a list of \<open>qop\<close>). A wait that merely times out is the empty entry. The waiting loop has returned
  (\<open>Some\<close>) or is still waiting when the schedule ends (\<open>None\<close>).
\<close>

record 'a mqueue =
  queueMessages :: "'a list"

definition mq_empty :: "'a mqueue" where
  "mq_empty = \<lparr>queueMessages = []\<rparr>"

definition Push :: "'a \<Rightarrow> 'a mqueue \<Rightarrow> 'a mqueue" where
  "Push item q = q\<lparr>queueMessages := queueMessages q @ [item]\<rparr>"

definition PushFront :: "'a \<Rightarrow> 'a mqueue \<Rightarrow> 'a mqueue" where
  "PushFront item q = q\<lparr>queueMessages := item # queueMessages q\<rparr>"

definition IsEmpty :: "'a mqueue \<Rightarrow> bool" where
  "IsEmpty q \<longleftrightarrow> queueMessages q = []"

definition null_argument :: exn where
  "null_argument = Invalid_Argument ''Argument can't be NULL''"

text \<open>The first argument tells whether the caller passed a null pointer for the result.\<close>

definition Pop :: "bool \<Rightarrow> 'a mqueue \<Rightarrow> 'a result \<times> 'a mqueue" where
  "Pop is_null q =
     (if is_null then (Inl null_argument, q)
      else (case queueMessages q of
              x # xs \<Rightarrow> (Inr x, q\<lparr>queueMessages := xs\<rparr>)
            | [] \<Rightarrow> (Inl (Runtime_Error ''Can't pop queue''), q)))"

definition Clear :: "'a mqueue \<Rightarrow> 'a mqueue" where
  "Clear q = q\<lparr>queueMessages := []\<rparr>"

datatype 'a qop = OpPush 'a | OpPushFront 'a | OpClear | OpPop

fun apply_op :: "'a qop \<Rightarrow> 'a mqueue \<Rightarrow> 'a mqueue" where
  "apply_op (OpPush x) q = Push x q"
| "apply_op (OpPushFront x) q = PushFront x q"
| "apply_op OpClear q = Clear q"
| "apply_op OpPop q = snd (Pop False q)"

text \<open>\<^verbatim>\<open>while(queueMessages.empty()) condVar.wait(...)\<close>\<close>

fun wait_nonempty :: "'a qop list list \<Rightarrow> 'a mqueue \<Rightarrow> ('a mqueue \<times> 'a qop list list) option" where
  "wait_nonempty ws q =
     (if \<not> IsEmpty q then Some (q, ws)
      else (case ws of
              [] \<Rightarrow> None
            | w # ws' \<Rightarrow> wait_nonempty ws' (fold apply_op w q)))"

declare wait_nonempty.simps [simp del]

definition Wait :: "bool \<Rightarrow> 'a qop list list \<Rightarrow> 'a mqueue \<Rightarrow> ('a result \<times> 'a mqueue) option" where
  "Wait is_null ws q =
     (if is_null then Some (Inl null_argument, q)
      else (case wait_nonempty ws q of
              None \<Rightarrow> None
            | Some (q1, _) \<Rightarrow>
                (case queueMessages q1 of
                   [] \<Rightarrow> None
                 | x # xs \<Rightarrow> Some (Inr x, q1\<lparr>queueMessages := xs\<rparr>))))"

definition WaitAndReturnAll :: "bool \<Rightarrow> 'a qop list list \<Rightarrow> 'a mqueue \<Rightarrow> ('a list result \<times> 'a mqueue) option" where
  "WaitAndReturnAll is_null ws q =
     (if is_null then Some (Inl null_argument, q)
      else (case wait_nonempty ws q of
              None \<Rightarrow> None
            | Some (q1, _) \<Rightarrow> Some (Inr (queueMessages q1), q1\<lparr>queueMessages := []\<rparr>)))"

section \<open>The contract of the queue\<close>

text \<open>
  \<open>pushable\<close> is the abstract class \<^verbatim>\<open>IPushable\<close>; \<open>task_queue\<close> adds the consumer's side. \<open>items\<close> is the
  sequence of queued items, oldest first.
\<close>

locale pushable =
  fixes push :: "'a \<Rightarrow> 'q \<Rightarrow> 'q"
    and push_front :: "'a \<Rightarrow> 'q \<Rightarrow> 'q"
    and items :: "'q \<Rightarrow> 'a list"
  assumes items_push: "items (push x q) = items q @ [x]"
    and items_push_front: "items (push_front x q) = x # items q"
begin

lemma items_fold_push: "items (fold push xs q) = items q @ xs"
  by (induction xs arbitrary: q) (simp_all add: items_push)

lemma items_fold_push_front: "items (fold push_front xs q) = rev xs @ items q"
  by (induction xs arbitrary: q) (simp_all add: items_push_front)

end

locale task_queue = pushable push push_front items
  for push :: "'a \<Rightarrow> 'q \<Rightarrow> 'q" and push_front :: "'a \<Rightarrow> 'q \<Rightarrow> 'q" and items :: "'q \<Rightarrow> 'a list" +
  fixes pop :: "'q \<Rightarrow> 'a result \<times> 'q"
    and clear :: "'q \<Rightarrow> 'q"
    and is_empty :: "'q \<Rightarrow> bool"
  assumes pop_some: "items q = x # xs \<Longrightarrow> fst (pop q) = Inr x \<and> items (snd (pop q)) = xs"
    and pop_empty: "items q = [] \<Longrightarrow> (\<exists>e. fst (pop q) = Inl e) \<and> snd (pop q) = q"
    and items_clear: "items (clear q) = []"
    and is_empty_iff: "is_empty q \<longleftrightarrow> items q = []"
begin

text \<open>First in, first out: pushing onto an empty queue and popping gives the items back in order.\<close>

lemma pop_after_pushes:
  assumes "items q = []"
  shows "fst (pop (fold push (x # xs) q)) = Inr x \<and> items (snd (pop (fold push (x # xs) q))) = xs"
proof -
  have "items (fold push (x # xs) q) = x # xs" using assms by (simp only: items_fold_push) simp
  then show ?thesis by (rule pop_some)
qed

lemma pop_push_front: "fst (pop (push_front x q)) = Inr x \<and> items (snd (pop (push_front x q))) = items q"
  by (rule pop_some) (rule items_push_front)

end

interpretation mq: task_queue Push PushFront queueMessages "Pop False" Clear IsEmpty
  by unfold_locales (simp_all add: Push_def PushFront_def Pop_def Clear_def IsEmpty_def)

section \<open>Waiting\<close>

lemma wait_nonempty_now: "queueMessages q \<noteq> [] \<Longrightarrow> wait_nonempty ws q = Some (q, ws)"
  by (subst wait_nonempty.simps) (simp add: IsEmpty_def)

lemma wait_nonempty_result: "wait_nonempty ws q = Some (q1, ws1) \<Longrightarrow> queueMessages q1 \<noteq> []"
  by (induction ws q rule: wait_nonempty.induct)
    (force simp: wait_nonempty.simps IsEmpty_def split: if_splits list.splits)

text \<open>Waits that time out do not end the loop.\<close>

lemma wait_nonempty_timeouts:
  "queueMessages q = [] \<Longrightarrow> wait_nonempty (replicate n [] @ ws) q = wait_nonempty ws q"
  by (induction n) (simp_all add: wait_nonempty.simps [of "[] # _" q] IsEmpty_def)

text \<open>The first wait that leaves something in the deque ends it.\<close>

lemma wait_nonempty_first:
  assumes "queueMessages q = []" and "queueMessages (fold apply_op w q) \<noteq> []"
  shows "wait_nonempty (w # ws) q = Some (fold apply_op w q, ws)"
  using assms by (subst wait_nonempty.simps) (simp add: IsEmpty_def wait_nonempty_now)

section \<open>What the queue promises\<close>

text \<open>First in, first out: items pushed onto the queue are taken by \<open>WaitAndReturnAll\<close> in the order in
  which they were pushed, after what was queued before, leaving it empty; \<open>Pop\<close> takes the oldest item, and
  an item pushed to the front comes before all others.\<close>

lemma queue_fifo:
  assumes "queueMessages q = y # ys"
  shows "WaitAndReturnAll False ws (fold Push xs q) = Some (Inr (y # ys @ xs), Clear q)
    \<and> Pop False (fold Push xs q) = (Inr y, q\<lparr>queueMessages := ys @ xs\<rparr>)
    \<and> Wait False ws (PushFront x q) = Some (Inr x, q)"
proof -
  have items: "queueMessages (fold Push xs q) = y # ys @ xs"
    using assms mq.items_fold_push [of xs q] by simp
  have same: "(fold Push xs q)\<lparr>queueMessages := zs\<rparr> = q\<lparr>queueMessages := zs\<rparr>" for zs
    by simp
  have "Pop False (fold Push xs q) = (Inr y, q\<lparr>queueMessages := ys @ xs\<rparr>)"
    unfolding Pop_def items by (simp add: same)
  moreover have "WaitAndReturnAll False ws (fold Push xs q) = Some (Inr (y # ys @ xs), Clear q)"
    by (simp add: WaitAndReturnAll_def wait_nonempty_now items Clear_def same)
  moreover have "Wait False ws (PushFront x q) = Some (Inr x, q)"
    by (simp add: Wait_def wait_nonempty_now PushFront_def)
  ultimately show ?thesis by blast
qed

text \<open>\<open>Wait\<close> on an empty queue does not return when its timeout expires, however often that happens, but
  only when an item has arrived, and then it hands out the item at the front.\<close>

lemma Wait_ignores_timeouts:
  assumes "queueMessages q = []"
  shows "Wait False (replicate n []) q = None
    \<and> Wait False (replicate n [] @ [OpPush x, OpPush y] # ws) q = Some (Inr x, Push y q)"
proof -
  have "wait_nonempty (replicate n [] @ []) q = None"
    using assms by (simp add: wait_nonempty_timeouts del: append_Nil2) (simp add: wait_nonempty.simps IsEmpty_def)
  moreover have "wait_nonempty (replicate n [] @ [OpPush x, OpPush y] # ws) q = Some (Push y (Push x q), ws)"
    using assms wait_nonempty_first [of q "[OpPush x, OpPush y]" ws]
    by (simp add: wait_nonempty_timeouts) (simp add: Push_def)
  ultimately show ?thesis using assms by (simp add: Wait_def Push_def)
qed

end
