(* ===== verification/Deferred_Tasks.thy ===== *)
theory Deferred_Tasks
  imports Prelude
begin

text \<open>
  \<^verbatim>\<open>Daemon/common/working_thread.{h,cpp}\<close>: tasks to be enqueued after a delay. \<open>deferred_round\<close> is one
  turn of the loop in \<open>DefferedTasksHandler\<close>: what happens after a wait of \<open>curWait\<close> milliseconds.

  \<^verbatim>\<open>std::qsort\<close> is the argument \<open>srt\<close>; \<open>qsort_spec\<close> says what C promises of it: a permutation, in
  ascending order when the comparison is a consistent ordering of the elements. The comparison
  subtracts unsigned delays and converts to \<^verbatim>\<open>int\<close>.
\<close>

record 'a deferred =
  taskToRun :: 'a
  ms :: u32

definition updateDefferedTasksMS :: u32 where
  "updateDefferedTasksMS = 500"

definition ms_compare :: "'a deferred \<Rightarrow> 'a deferred \<Rightarrow> int" where
  "ms_compare a b = sint (ms a - ms b)"

definition consistent :: "('b \<Rightarrow> 'b \<Rightarrow> int) \<Rightarrow> 'b list \<Rightarrow> bool" where
  "consistent cmp xs \<longleftrightarrow>
     (\<forall>a \<in> set xs. \<forall>b \<in> set xs. (cmp a b \<le> 0 \<or> cmp b a \<le> 0) \<and>
        (\<forall>c \<in> set xs. cmp a b \<le> 0 \<longrightarrow> cmp b c \<le> 0 \<longrightarrow> cmp a c \<le> 0))"

definition qsort_spec :: "('a deferred list \<Rightarrow> 'a deferred list) \<Rightarrow> bool" where
  "qsort_spec srt \<longleftrightarrow> (\<forall>xs. mset (srt xs) = mset xs \<and>
     (consistent ms_compare xs \<longrightarrow> sorted_wrt (\<lambda>a b. ms_compare a b \<le> 0) (srt xs)))"

text \<open>
  The inner \<^verbatim>\<open>while\<close>: a task whose delay has passed is enqueued and erased, the others have the time
  waited taken off. \<^verbatim>\<open>ms - curWait.count()\<close> is computed in a 64-bit signed type, so it is exact.
\<close>

fun fire :: "int \<Rightarrow> 'a deferred list \<Rightarrow> 'a deferred list \<times> 'a list" where
  "fire curWait [] = ([], [])"
| "fire curWait (d # ds) =
     (let (rest, fired) = fire curWait ds
      in if uint (ms d) - curWait \<le> 0 then (rest, taskToRun d # fired)
         else (d\<lparr>ms := word_of_int (uint (ms d) - curWait)\<rparr> # rest, fired))"

record 'a handler =
  h_list :: "'a deferred list"
  h_nextWait :: u32
  h_first :: bool

definition handler_init :: "'a handler" where
  "handler_init = \<lparr>h_list = [], h_nextWait = updateDefferedTasksMS, h_first = True\<rparr>"

text \<open>\<open>EnqueueTaskAfterTimeOut\<close>: append, and wake the handler.\<close>

definition add_deferred :: "'a \<Rightarrow> u32 \<Rightarrow> 'a handler \<Rightarrow> 'a handler" where
  "add_deferred task millisec h = h\<lparr>h_list := h_list h @ [\<lparr>taskToRun = task, ms = millisec\<rparr>]\<rparr>"

definition deferred_round ::
  "('a deferred list \<Rightarrow> 'a deferred list) \<Rightarrow> int \<Rightarrow> 'a handler \<Rightarrow> 'a handler \<times> 'a list" where
  "deferred_round srt curWait h =
     (if h_list h = [] then (h, [])
      else
        let l1 = srt (h_list h);
            (l2, fired) = (if h_first h then (l1, []) else fire curWait l1)
        in if l2 \<noteq> []
           then (h\<lparr>h_list := l2, h_first := False, h_nextWait := ms (l2 ! 0)\<rparr>, fired)
           else (h\<lparr>h_list := l2, h_first := True, h_nextWait := updateDefferedTasksMS\<rparr>, fired))"

section \<open>One pass over the list\<close>

lemma fire_eq:
  "fire w ds =
     (map (\<lambda>d. d\<lparr>ms := word_of_int (uint (ms d) - w)\<rparr>) (filter (\<lambda>d. w < uint (ms d)) ds),
      map taskToRun (filter (\<lambda>d. \<not> w < uint (ms d)) ds))"
  by (induction w ds rule: fire.induct) (auto simp: split_def Let_def)

text \<open>No task is lost and none is duplicated.\<close>

lemma fire_tasks:
  "mset (map taskToRun (fst (fire w ds))) + mset (snd (fire w ds)) = mset (map taskToRun ds)"
  by (induction ds) (auto simp: split_def Let_def)

text \<open>The remaining delay is the exact difference: the subtraction does not wrap.\<close>

lemma remaining_exact:
  assumes "0 \<le> w" and "w < uint (m :: u32)"
  shows "uint (word_of_int (uint m - w) :: u32) = uint m - w"
proof -
  have "uint m < 2 ^ 32" using uint_lt2p [of m] by simp
  then have "take_bit 32 (uint m - w) = uint m - w"
    using assms by (intro take_bit_int_eq_self) auto
  moreover have "uint (word_of_int (uint m - w) :: u32) = take_bit LENGTH(32) (uint m - w)"
    by (rule uint_word_of_int_eq)
  ultimately show ?thesis by simp
qed

section \<open>The comparison\<close>

text \<open>For delays below \<^verbatim>\<open>2^31\<close> ms the comparison is the order of the delays.\<close>

definition short_delay :: "'a deferred \<Rightarrow> bool" where
  "short_delay d \<longleftrightarrow> uint (ms d) < 2 ^ 31"

lemma consistent_total:
  "consistent cmp xs \<Longrightarrow> a \<in> set xs \<Longrightarrow> b \<in> set xs \<Longrightarrow> cmp a b \<le> 0 \<or> cmp b a \<le> 0"
  unfolding consistent_def by blast

lemma consistent_trans:
  "consistent cmp xs \<Longrightarrow> a \<in> set xs \<Longrightarrow> b \<in> set xs \<Longrightarrow> c \<in> set xs \<Longrightarrow>
   cmp a b \<le> 0 \<Longrightarrow> cmp b c \<le> 0 \<Longrightarrow> cmp a c \<le> 0"
  unfolding consistent_def by blast

lemma consistent_subset: "consistent cmp xs \<Longrightarrow> set ys \<subseteq> set xs \<Longrightarrow> consistent cmp ys"
  unfolding consistent_def by blast

lemma ms_compare_short:
  assumes "short_delay a" and "short_delay b"
  shows "ms_compare a b = uint (ms a) - uint (ms b)"
proof -
  have bounds: "0 \<le> uint (ms a)" "0 \<le> uint (ms b)" "uint (ms a) < 2 ^ 31" "uint (ms b) < 2 ^ 31"
    using assms by (simp_all add: short_delay_def)
  have wrap: "uint (ms a - ms b) = take_bit 32 (uint (ms a) - uint (ms b))"
    by (simp add: take_bit_eq_mod uint_word_ariths)
  have "ms_compare a b = signed_take_bit 31 (uint (ms a) - uint (ms b))"
    unfolding ms_compare_def sint_uint wrap by (simp add: signed_take_bit_take_bit)
  also have "\<dots> = uint (ms a) - uint (ms b)"
    using bounds unfolding signed_take_bit_int_eq_self_iff by linarith
  finally show ?thesis .
qed

lemma ms_compare_consistent:
  assumes "list_all short_delay xs"
  shows "consistent ms_compare xs"
proof -
  have short: "short_delay a" if "a \<in> set xs" for a using assms that by (simp add: list_all_iff)
  show ?thesis by (auto simp: consistent_def ms_compare_short short)
qed

lemma qsort_sorted:
  assumes "qsort_spec srt" and "list_all short_delay xs"
  shows "sorted (map (uint \<circ> ms) (srt xs)) \<and> mset (srt xs) = mset xs"
proof -
  have perm: "mset (srt xs) = mset xs"
    and sorted: "sorted_wrt (\<lambda>a b. ms_compare a b \<le> 0) (srt xs)"
    using assms ms_compare_consistent [OF assms(2)] by (auto simp: qsort_spec_def)
  have short: "short_delay a" if "a \<in> set (srt xs)" for a
    using assms(2) that perm by (metis list_all_iff set_mset_mset)
  have "sorted_wrt (\<lambda>a b. uint (ms a) \<le> uint (ms b)) (srt xs)"
    by (rule sorted_wrt_mono_rel [OF _ sorted]) (simp add: ms_compare_short short)
  with perm show ?thesis by (simp add: sorted_map)
qed

text \<open>A sort that meets the contract: insertion by the comparison.\<close>

fun ins_by :: "('b \<Rightarrow> 'b \<Rightarrow> int) \<Rightarrow> 'b \<Rightarrow> 'b list \<Rightarrow> 'b list" where
  "ins_by cmp x [] = [x]"
| "ins_by cmp x (y # ys) = (if cmp x y \<le> 0 then x # y # ys else y # ins_by cmp x ys)"

definition sort_by :: "('b \<Rightarrow> 'b \<Rightarrow> int) \<Rightarrow> 'b list \<Rightarrow> 'b list" where
  "sort_by cmp xs = foldr (ins_by cmp) xs []"

lemma mset_ins_by: "mset (ins_by cmp x ys) = add_mset x (mset ys)"
  by (induction cmp x ys rule: ins_by.induct) auto

lemma mset_sort_by: "mset (sort_by cmp xs) = mset xs"
  by (induction xs) (simp_all add: sort_by_def mset_ins_by)

lemma set_ins_by: "set (ins_by cmp x ys) = insert x (set ys)"
  by (metis mset_ins_by set_mset_add_mset_insert set_mset_mset)

lemma sorted_ins_by:
  assumes "consistent cmp (x # ys)" and "sorted_wrt (\<lambda>a b. cmp a b \<le> 0) ys"
  shows "sorted_wrt (\<lambda>a b. cmp a b \<le> 0) (ins_by cmp x ys)"
  using assms
proof (induction cmp x ys rule: ins_by.induct)
  case (2 cmp x y ys)
  have tail: "consistent cmp (x # ys)" using "2.prems"(1) by (rule consistent_subset) auto
  have y: "cmp y z \<le> 0" if "z \<in> set ys" for z using "2.prems"(2) that by simp
  show ?case
  proof (cases "cmp x y \<le> 0")
    case True
    have "cmp x z \<le> 0" if "z \<in> set ys" for z
      using consistent_trans [OF "2.prems"(1), of x y z] True y that by simp
    with True "2.prems"(2) show ?thesis by simp
  next
    case False
    with consistent_total [OF "2.prems"(1), of x y] have "cmp y x \<le> 0" by simp
    with False "2.IH" [OF False tail] "2.prems"(2) y show ?thesis by (simp add: set_ins_by)
  qed
qed simp

lemma qsort_spec_sort_by: "qsort_spec (sort_by ms_compare)"
proof -
  have "sorted_wrt (\<lambda>a b. ms_compare a b \<le> 0) (sort_by ms_compare xs)"
    if "consistent ms_compare xs" for xs :: "'a deferred list"
    using that
  proof (induction xs)
    case (Cons x xs)
    have set: "set (sort_by ms_compare xs) = set xs" by (metis mset_sort_by set_mset_mset)
    have "consistent ms_compare (x # sort_by ms_compare xs)" and "consistent ms_compare xs"
      using Cons.prems set by (auto elim!: consistent_subset)
    with Cons.IH show ?case by (simp add: sort_by_def sorted_ins_by)
  qed (simp add: sort_by_def)
  then show ?thesis by (simp add: qsort_spec_def mset_sort_by)
qed

section \<open>What one round promises\<close>

lemma deferred_round_later:
  assumes "h_list h \<noteq> []" and "\<not> h_first h"
  shows "h_list (fst (deferred_round srt w h)) = fst (fire w (srt (h_list h)))"
    and "snd (deferred_round srt w h) = snd (fire w (srt (h_list h)))"
    and "h_nextWait (fst (deferred_round srt w h)) =
      (if fst (fire w (srt (h_list h))) = [] then updateDefferedTasksMS else ms (hd (fst (fire w (srt (h_list h))))))"
  using assms by (auto simp: deferred_round_def Let_def split_def hd_conv_nth)

text \<open>A round loses no task and duplicates none, whatever the wait and the delays were.\<close>

lemma deferred_round_sum:
  assumes "qsort_spec srt"
  shows "mset (map taskToRun (h_list (fst (deferred_round srt w h)))) + mset (snd (deferred_round srt w h))
    = mset (map taskToRun (h_list h))"
proof -
  have perm: "mset (srt xs) = mset xs" for xs using assms by (simp add: qsort_spec_def)
  have "mset (map taskToRun (srt xs)) = mset (map taskToRun xs)" for xs
    using perm [of xs] by (simp only: mset_map)
  then show ?thesis
    using fire_tasks [of w "srt (h_list h)"] by (auto simp: deferred_round_def Let_def split_def)
qed



text \<open>C34: a delay can be cut short: adding a task wakes the waiting thread, which then takes the whole time
  it has waited so far off the new task as well, so a task whose delay is at most that time is enqueued at
  once.\<close>

theorem deferred_fires_early:
  assumes "qsort_spec srt" and "\<not> h_first h" and "uint delay \<le> waited"
  shows "task \<in> set (snd (deferred_round srt waited (add_deferred task delay h)))"
proof -
  let ?d = "\<lparr>taskToRun = task, ms = delay\<rparr>" and ?l = "h_list (add_deferred task delay h)"
  have l: "?l = h_list h @ [?d]" by (simp add: add_deferred_def)
  then have "?d \<in> set ?l" by simp
  moreover have "mset (srt ?l) = mset ?l" using assms(1) by (simp add: qsort_spec_def)
  ultimately have "?d \<in> set (srt ?l)" by (metis set_mset_mset)
  moreover have "snd (deferred_round srt waited (add_deferred task delay h)) = snd (fire waited (srt ?l))"
    using l assms(2) by (intro deferred_round_later) (simp_all add: add_deferred_def)
  ultimately show ?thesis using assms(3) by (force simp: fire_eq)
qed

theorem deferred_fires_early_witness:
  "''new'' \<in> set (snd (deferred_round (sort_by ms_compare) 29000 (add_deferred ''new'' 30
     \<lparr>h_list = [\<lparr>taskToRun = ''old'', ms = 30000\<rparr>], h_nextWait = 30000, h_first = False\<rparr>)))"
  by (rule deferred_fires_early [OF qsort_spec_sort_by]) simp_all

text \<open>The comparison handed to \<open>qsort\<close> is the order of the delays as long as they stay below \<open>2^31\<close> ms;
  a delay beyond that compares as less than 0 ms, because the unsigned difference is converted to a signed
  one.\<close>

lemma ms_compare_order:
  "(short_delay a \<and> short_delay b \<longrightarrow> (ms_compare a b \<le> 0 \<longleftrightarrow> ms a \<le> ms b))
   \<and> (2 ^ 31 < uint (ms b) \<and> ms z = 0 \<longrightarrow> 0 < ms_compare z b \<and> ms z < ms b)"
proof -
  have "0 < ms_compare z b \<and> ms z < ms b" if b: "2 ^ 31 < uint (ms b)" and z: "ms z = 0"
  proof -
    have hi: "uint (ms b) < 2 ^ 32" using uint_lt2p [of "ms b"] by simp
    have "uint (ms z - ms b) = (- uint (ms b)) mod 2 ^ 32" by (simp add: z uint_word_ariths)
    also have "\<dots> = 2 ^ 32 - uint (ms b)"
      using b hi by (intro int_mod_pos_eq [of _ _ "- 1"]) auto
    finally have u: "uint (ms z - ms b) = 2 ^ 32 - uint (ms b)" .
    have "ms_compare z b = 2 ^ 32 - uint (ms b)"
      unfolding ms_compare_def sint_uint u using b hi by (simp add: signed_take_bit_int_eq_self_iff)
    moreover have "ms z < ms b" using b by (simp add: z word_less_def)
    ultimately show ?thesis using hi by simp
  qed
  then show ?thesis by (auto simp: ms_compare_short word_le_def)
qed

end
