(* ===== verification/Working_Thread.thy ===== *)
theory Working_Thread
  imports Message_Queue Deferred_Tasks
begin

text \<open>
  \<^verbatim>\<open>Daemon/common/working_thread.{h,cpp}\<close>: the worker with its two threads. \<open>w_pc\<close> and \<open>d_pc\<close> are the
  program counters of \<^verbatim>\<open>Work\<close> and \<^verbatim>\<open>DefferedTasksHandler\<close>; one step is the code between two accesses to
  shared state. A task is a value, a null \<^verbatim>\<open>shared_ptr\<close> is \<open>None\<close>, running a task appends it to \<open>w_log\<close>
  (what it enqueues is the step of a client). \<open>w_dead\<close>: \<^verbatim>\<open>std::terminate\<close> was called, by assigning to a
  joinable \<^verbatim>\<open>std::thread\<close> or by an exception that left \<^verbatim>\<open>Work\<close>.
\<close>

datatype wpc = WNone | WStart | WLoop | WWait | WRun | WDrain | WPop | WExit

datatype dpc = DNone | DCheck | DWait | DExit

record 'a wt =
  w_isRunning :: bool
  w_queue :: "'a option mqueue"
  w_pc :: wpc
  w_deq :: "'a option list"
  w_log :: "'a list"
  w_handler :: "'a option handler"
  d_pc :: dpc
  w_dead :: bool

definition wt_init :: "'a wt" where
  "wt_init =
     \<lparr>w_isRunning = False, w_queue = mq_empty, w_pc = WNone, w_deq = [], w_log = [],
      w_handler = handler_init, d_pc = DNone, w_dead = False\<rparr>"

definition wt_IsRunning :: "'a wt \<Rightarrow> bool" where
  "wt_IsRunning s = w_isRunning s"

definition TasksQueueEmpty :: "'a wt \<Rightarrow> bool" where
  "TasksQueueEmpty s = IsEmpty (w_queue s)"

definition EnqueueTask :: "'a option \<Rightarrow> 'a wt \<Rightarrow> 'a wt" where
  "EnqueueTask task s = s\<lparr>w_queue := Push task (w_queue s)\<rparr>"

definition EnqueueTaskFront :: "'a option \<Rightarrow> 'a wt \<Rightarrow> 'a wt" where
  "EnqueueTaskFront task s = s\<lparr>w_queue := PushFront task (w_queue s)\<rparr>"

definition EnqueueTaskAfterTimeOut :: "'a option \<Rightarrow> u32 \<Rightarrow> 'a wt \<Rightarrow> 'a wt" where
  "EnqueueTaskAfterTimeOut task millisec s = s\<lparr>w_handler := add_deferred task millisec (w_handler s)\<rparr>"

definition ClearQueueTasks :: "'a wt \<Rightarrow> 'a wt" where
  "ClearQueueTasks s = s\<lparr>w_queue := Clear (w_queue s)\<rparr>"

text \<open>A thread that has finished but was not joined is still joinable.\<close>

definition Run :: "'a wt \<Rightarrow> 'a wt" where
  "Run s =
     (if wt_IsRunning s then s
      else if w_pc s \<noteq> WNone \<or> d_pc s \<noteq> DNone then s\<lparr>w_dead := True\<rparr>
      else s\<lparr>w_pc := WStart, d_pc := DCheck\<rparr>)"

definition Stop :: "'a wt \<Rightarrow> 'a wt" where
  "Stop s =
     (let s1 = s\<lparr>w_isRunning := False, w_queue := Push None (w_queue s)\<rparr>
      in if d_pc s1 \<noteq> DNone then s1\<lparr>w_handler := (w_handler s1)\<lparr>h_list := []\<rparr>\<rparr> else s1)"

definition run_task :: "'a option \<Rightarrow> 'a wt \<Rightarrow> 'a wt" where
  "run_task current_task s =
     (case current_task of None \<Rightarrow> s | Some x \<Rightarrow> s\<lparr>w_log := w_log s @ [x]\<rparr>)"

text \<open>The thread \<^verbatim>\<open>Work\<close>; \<open>None\<close>: it is blocked or has ended.\<close>

definition Work_step :: "'a wt \<Rightarrow> 'a wt option" where
  "Work_step s =
     (case w_pc s of
        WNone \<Rightarrow> None
      | WStart \<Rightarrow> Some (s\<lparr>w_isRunning := True, w_pc := WLoop\<rparr>)
      | WLoop \<Rightarrow> Some (s\<lparr>w_pc := (if wt_IsRunning s then WWait else WDrain)\<rparr>)
      | WWait \<Rightarrow>
          (case WaitAndReturnAll False [] (w_queue s) of
             Some (Inr deq, q) \<Rightarrow> Some (s\<lparr>w_deq := deq, w_queue := q, w_pc := WRun\<rparr>)
           | _ \<Rightarrow> None)
      | WRun \<Rightarrow>
          (case w_deq s of
             [] \<Rightarrow> Some (s\<lparr>w_pc := WLoop\<rparr>)
           | current_task # deq \<Rightarrow> Some (run_task current_task (s\<lparr>w_deq := deq\<rparr>)))
      | WDrain \<Rightarrow>
          (if IsEmpty (w_queue s) then Some (s\<lparr>w_isRunning := False, w_pc := WExit\<rparr>)
           else Some (s\<lparr>w_pc := WPop\<rparr>))
      | WPop \<Rightarrow>
          (case Pop False (w_queue s) of
             (Inl e, q) \<Rightarrow> Some (s\<lparr>w_dead := True\<rparr>)
           | (Inr current_task, q) \<Rightarrow> Some (run_task current_task (s\<lparr>w_queue := q, w_pc := WDrain\<rparr>)))
      | WExit \<Rightarrow> None)"

text \<open>The thread \<^verbatim>\<open>DefferedTasksHandler\<close>; \<open>curWait\<close> is how long the wait took.\<close>

definition Handler_step ::
  "('a option deferred list \<Rightarrow> 'a option deferred list) \<Rightarrow> int \<Rightarrow> 'a wt \<Rightarrow> 'a wt option" where
  "Handler_step srt curWait s =
     (case d_pc s of
        DNone \<Rightarrow> None
      | DCheck \<Rightarrow> Some (s\<lparr>d_pc := (if wt_IsRunning s then DWait else DExit)\<rparr>)
      | DWait \<Rightarrow>
          (let (h, fired) = deferred_round srt curWait (w_handler s)
           in Some (s\<lparr>w_handler := h, w_queue := fold Push fired (w_queue s), d_pc := DCheck\<rparr>))
      | DExit \<Rightarrow> None)"

text \<open>
  The joins of \<^verbatim>\<open>~WorkingThread\<close>, after its \<open>Stop\<close>: joining a thread that was never started throws out of
  the destructor, and joining one that has not ended blocks (\<open>None\<close>).
\<close>

definition Join :: "'a wt \<Rightarrow> 'a wt option" where
  "Join s =
     (if w_pc s = WNone then Some (s\<lparr>w_dead := True\<rparr>)
      else if w_pc s = WExit \<and> d_pc s = DExit then Some (s\<lparr>w_pc := WNone, d_pc := DNone\<rparr>)
      else None)"

section \<open>Interleavings\<close>

datatype 'a wlabel =
    LWorker | LHandler int | LEnqueue 'a | LFront 'a | LDefer 'a u32 | LRun | LStop | LClear

fun wt_step ::
  "('a option deferred list \<Rightarrow> 'a option deferred list) \<Rightarrow> 'a wlabel \<Rightarrow> 'a wt \<Rightarrow> 'a wt option" where
  "wt_step srt LWorker s = Work_step s"
| "wt_step srt (LHandler w) s = Handler_step srt w s"
| "wt_step srt (LEnqueue x) s = Some (EnqueueTask (Some x) s)"
| "wt_step srt (LFront x) s = Some (EnqueueTaskFront (Some x) s)"
| "wt_step srt (LDefer x m) s = Some (EnqueueTaskAfterTimeOut (Some x) m s)"
| "wt_step srt LRun s = Some (Run s)"
| "wt_step srt LStop s = Some (Stop s)"
| "wt_step srt LClear s = Some (ClearQueueTasks s)"

text \<open>A run: every step is enabled and the process has not been terminated before it.\<close>

fun wt_run ::
  "('a option deferred list \<Rightarrow> 'a option deferred list) \<Rightarrow> 'a wlabel list \<Rightarrow> 'a wt \<Rightarrow> 'a wt option" where
  "wt_run srt [] s = Some s"
| "wt_run srt (l # ls) s =
     (if w_dead s then None
      else (case wt_step srt l s of None \<Rightarrow> None | Some s1 \<Rightarrow> wt_run srt ls s1))"

lemma wt_run_append:
  "wt_run srt (ls @ ks) s = (case wt_run srt ls s of None \<Rightarrow> None | Some s1 \<Rightarrow> wt_run srt ks s1)"
  by (induction ls arbitrary: s) (auto split: option.splits)

lemma wt_run_invariant:
  assumes "wt_run srt ls s = Some s'" and "P s" and "list_all Q ls"
    and "\<And>l s s1. P s \<Longrightarrow> Q l \<Longrightarrow> \<not> w_dead s \<Longrightarrow> wt_step srt l s = Some s1 \<Longrightarrow> P s1"
  shows "P s'"
  using assms(1-3)
proof (induction ls arbitrary: s)
  case (Cons l ls)
  then obtain s1 where "\<not> w_dead s" "wt_step srt l s = Some s1" "wt_run srt ls s1 = Some s'"
    by (auto split: if_splits option.splits)
  with Cons assms(4) show ?case by auto
qed simp

section \<open>Steps of the two threads\<close>

definition somes :: "'a option list \<Rightarrow> 'a list" where
  "somes xs = map the (filter (\<lambda>x. x \<noteq> None) xs)"

lemma somes_simps [simp]:
  "somes [] = []" "somes (None # xs) = somes xs" "somes (Some x # xs) = x # somes xs"
  "somes (xs @ ys) = somes xs @ somes ys"
  by (simp_all add: somes_def)

text \<open>The tasks taken or queued but not run yet, in the order in which they will run.\<close>

definition pending :: "'a wt \<Rightarrow> 'a list" where
  "pending s = somes (w_deq s) @ somes (queueMessages (w_queue s))"

lemma run_task_sel [simp]:
  "w_isRunning (run_task x s) = w_isRunning s" "w_queue (run_task x s) = w_queue s"
  "w_pc (run_task x s) = w_pc s" "w_deq (run_task x s) = w_deq s" "w_handler (run_task x s) = w_handler s"
  "d_pc (run_task x s) = d_pc s" "w_dead (run_task x s) = w_dead s"
  "w_log (run_task x s) = w_log s @ somes [x]"
  by (simp_all add: run_task_def split: option.split)

lemma WaitAndReturnAll_now:
  "WaitAndReturnAll False [] q =
     (if queueMessages q = [] then None else Some (Inr (queueMessages q), q\<lparr>queueMessages := []\<rparr>))"
  by (simp add: WaitAndReturnAll_def wait_nonempty.simps [of "[]"] IsEmpty_def)

lemmas wt_defs = EnqueueTask_def EnqueueTaskFront_def EnqueueTaskAfterTimeOut_def ClearQueueTasks_def
  Run_def Stop_def wt_IsRunning_def

text \<open>
  The worker's own invariant: the local deque is empty outside the inner loop, and \<open>Pop\<close> is only
  reached with a queued item.
\<close>

definition wt_ok :: "'a wt \<Rightarrow> bool" where
  "wt_ok s \<longleftrightarrow> (w_pc s \<noteq> WRun \<longrightarrow> w_deq s = [])
     \<and> (w_pc s = WPop \<longrightarrow> queueMessages (w_queue s) \<noteq> []) \<and> (w_pc s = WNone \<longleftrightarrow> d_pc s = DNone)"

lemma wt_ok_init [simp]: "wt_ok wt_init"
  by (simp add: wt_ok_def wt_init_def)

lemma Work_step_ok:
  assumes "wt_ok s" and "Work_step s = Some s1"
  shows "wt_ok s1 \<and> (w_dead s1 \<longleftrightarrow> w_dead s) \<and> w_log s1 @ pending s1 = w_log s @ pending s"
proof (cases "w_pc s")
  case WWait
  with assms show ?thesis
    by (auto simp: wt_ok_def Work_step_def WaitAndReturnAll_now pending_def split: if_splits)
next
  case WRun
  with assms show ?thesis
    by (cases "w_deq s"; cases "hd (w_deq s)") (auto simp: wt_ok_def Work_step_def pending_def)
next
  case WPop
  then obtain x xs where "queueMessages (w_queue s) = x # xs"
    using assms(1) by (auto simp: wt_ok_def neq_Nil_conv)
  with WPop assms show ?thesis
    by (cases x) (auto simp: wt_ok_def Work_step_def pending_def Pop_def)
qed (use assms in \<open>auto simp: wt_ok_def Work_step_def pending_def IsEmpty_def split: if_splits\<close>)

lemma Handler_step_ok:
  assumes "wt_ok s" and "Handler_step srt w s = Some s1"
  shows "wt_ok s1 \<and> (w_dead s1 \<longleftrightarrow> w_dead s) \<and> w_log s1 = w_log s
    \<and> pending s1 = pending s @ (if d_pc s = DWait then somes (snd (deferred_round srt w (w_handler s))) else [])"
  using assms
  by (auto simp: wt_ok_def Handler_step_def pending_def split_def Let_def mq.items_fold_push split: dpc.splits if_splits)

section \<open>Draining after Stop\<close>

fun worker_iter :: "nat \<Rightarrow> 'a wt \<Rightarrow> 'a wt" where
  "worker_iter 0 s = s"
| "worker_iter (Suc n) s = (case Work_step s of None \<Rightarrow> s | Some s1 \<Rightarrow> worker_iter n s1)"

fun wrank :: "wpc \<Rightarrow> nat" where
  "wrank WWait = 4"
| "wrank WRun = 3"
| "wrank WLoop = 2"
| "wrank WDrain = 1"
| "wrank _ = 0"

definition drain_measure :: "'a wt \<Rightarrow> nat" where
  "drain_measure s = 4 * length (queueMessages (w_queue s)) + 2 * length (w_deq s) + wrank (w_pc s)"

text \<open>The worker was told to stop, and what it waits for is there.\<close>

definition stopping :: "'a wt \<Rightarrow> bool" where
  "stopping s \<longleftrightarrow> wt_ok s \<and> \<not> w_isRunning s \<and> w_pc s \<notin> {WNone, WStart}
     \<and> (w_pc s = WWait \<longrightarrow> queueMessages (w_queue s) \<noteq> [])
     \<and> (w_pc s = WExit \<longrightarrow> queueMessages (w_queue s) = [])"

lemma stopping_step:
  assumes "stopping s" and "w_pc s \<noteq> WExit"
  shows "\<exists>s1. Work_step s = Some s1 \<and> stopping s1 \<and> drain_measure s1 < drain_measure s
    \<and> w_dead s1 = w_dead s \<and> w_log s1 @ pending s1 = w_log s @ pending s"
proof -
  from assms have ok: "wt_ok s" by (simp add: stopping_def)
  have "\<exists>s1. Work_step s = Some s1 \<and> drain_measure s1 < drain_measure s \<and> \<not> w_isRunning s1
      \<and> w_pc s1 \<notin> {WNone, WStart, WWait} \<and> (w_pc s1 = WExit \<longrightarrow> queueMessages (w_queue s1) = [])"
  proof (cases "w_pc s")
    case WWait
    with assms show ?thesis
      by (auto simp: Work_step_def stopping_def wt_ok_def WaitAndReturnAll_now drain_measure_def neq_Nil_conv)
  next
    case WRun
    with assms show ?thesis
      by (cases "w_deq s") (auto simp: Work_step_def stopping_def drain_measure_def)
  next
    case WPop
    then obtain x xs where "queueMessages (w_queue s) = x # xs"
      using ok by (auto simp: wt_ok_def neq_Nil_conv)
    with WPop assms show ?thesis
      by (auto simp: Work_step_def stopping_def drain_measure_def Pop_def)
  qed (use assms in \<open>auto simp: Work_step_def stopping_def drain_measure_def wt_IsRunning_def IsEmpty_def\<close>)
  then obtain s1 where s1: "Work_step s = Some s1" "drain_measure s1 < drain_measure s" "\<not> w_isRunning s1"
      "w_pc s1 \<notin> {WNone, WStart, WWait}" "w_pc s1 = WExit \<longrightarrow> queueMessages (w_queue s1) = []"
    by blast
  with Work_step_ok [OF ok s1(1)] show ?thesis by (simp add: stopping_def)
qed

text \<open>A stopping worker ends, and before that runs everything that was queued, in order.\<close>

lemma stopping_drains:
  assumes "stopping s"
  shows "\<exists>n. w_pc (worker_iter n s) = WExit \<and> w_log (worker_iter n s) = w_log s @ pending s
    \<and> w_dead (worker_iter n s) = w_dead s \<and> \<not> w_isRunning (worker_iter n s)
    \<and> pending (worker_iter n s) = []"
  using assms
proof (induction "drain_measure s" arbitrary: s rule: less_induct)
  case less
  show ?case
  proof (cases "w_pc s = WExit")
    case True
    then have "pending s = []" using less.prems by (simp add: stopping_def wt_ok_def pending_def)
    with True less.prems show ?thesis by (intro exI [of _ 0]) (simp add: stopping_def)
  next
    case False
    then obtain s1 where s1: "Work_step s = Some s1" "stopping s1" "drain_measure s1 < drain_measure s"
        "w_dead s1 = w_dead s" "w_log s1 @ pending s1 = w_log s @ pending s"
      using stopping_step [OF less.prems] by blast
    obtain n where "w_pc (worker_iter n s1) = WExit \<and> w_log (worker_iter n s1) = w_log s1 @ pending s1
        \<and> w_dead (worker_iter n s1) = w_dead s1 \<and> \<not> w_isRunning (worker_iter n s1)
        \<and> pending (worker_iter n s1) = []"
      using less.hyps [OF s1(3,2)] by blast
    with s1 show ?thesis by (intro exI [of _ "Suc n"]) simp
  qed
qed

lemma Stop_stopping:
  assumes "wt_ok s" and "w_pc s \<notin> {WNone, WStart, WExit}"
  shows "stopping (Stop s) \<and> pending (Stop s) = pending s \<and> w_log (Stop s) = w_log s \<and> w_dead (Stop s) = w_dead s"
  using assms by (auto simp: Stop_def stopping_def wt_ok_def pending_def Push_def Let_def)

section \<open>Where a task can be\<close>

fun submitted :: "'a wlabel list \<Rightarrow> 'a list" where
  "submitted [] = []"
| "submitted (LEnqueue x # ls) = x # submitted ls"
| "submitted (LFront x # ls) = x # submitted ls"
| "submitted (LDefer x m # ls) = x # submitted ls"
| "submitted (_ # ls) = submitted ls"

fun losing :: "'a wlabel \<Rightarrow> bool" where
  "losing LStop \<longleftrightarrow> True"
| "losing LClear \<longleftrightarrow> True"
| "losing _ \<longleftrightarrow> False"

fun plain :: "'a wlabel \<Rightarrow> bool" where
  "plain (LFront x) \<longleftrightarrow> False"
| "plain (LDefer x m) \<longleftrightarrow> False"
| "plain LClear \<longleftrightarrow> False"
| "plain _ \<longleftrightarrow> True"

lemma somes_map_mset: "mset (somes xs) = image_mset the (filter_mset (\<lambda>x. x \<noteq> None) (mset xs))"
  by (simp add: somes_def)

lemma somes_sum: "mset xs + mset ys = mset zs \<Longrightarrow> mset (somes xs) + mset (somes ys) = mset (somes zs)"
  unfolding somes_map_mset by (metis filter_union_mset image_mset_union)

definition everywhere :: "'a wt \<Rightarrow> 'a multiset" where
  "everywhere s = mset (w_log s) + mset (pending s) + mset (somes (map taskToRun (h_list (w_handler s))))"

lemma wt_ok_other:
  "wt_ok s \<Longrightarrow> wt_ok (EnqueueTask x s)" "wt_ok s \<Longrightarrow> wt_ok (EnqueueTaskFront x s)"
  "wt_ok s \<Longrightarrow> wt_ok (EnqueueTaskAfterTimeOut x m s)" "wt_ok s \<Longrightarrow> wt_ok (Run s)" "wt_ok s \<Longrightarrow> wt_ok (Stop s)"
  by (auto simp: wt_ok_def wt_defs Push_def PushFront_def Let_def)

lemma wt_ok_step: "wt_ok s \<Longrightarrow> l \<noteq> LClear \<Longrightarrow> wt_step srt l s = Some s1 \<Longrightarrow> wt_ok s1"
  by (cases l)
    (auto simp: wt_ok_other dest: Work_step_ok [THEN conjunct1] Handler_step_ok [THEN conjunct1])

lemma Work_step_handler:
  "Work_step s = Some s1 \<Longrightarrow> w_handler s1 = w_handler s \<and> d_pc s1 = d_pc s"
  by (auto simp: Work_step_def split: wpc.splits option.splits prod.splits sum.splits list.splits if_splits)

lemma everywhere_Work_step:
  assumes "wt_ok s" and "Work_step s = Some s1"
  shows "everywhere s1 = everywhere s"
proof -
  have "mset (w_log s1 @ pending s1) = mset (w_log s @ pending s)" using Work_step_ok [OF assms] by simp
  then show ?thesis using Work_step_handler [OF assms(2)] by (simp add: everywhere_def)
qed

lemma everywhere_Handler_step:
  assumes "wt_ok s" and "qsort_spec srt" and "Handler_step srt w s = Some s1"
  shows "everywhere s1 = everywhere s"
proof -
  let ?r = "deferred_round srt w (w_handler s)"
  have sum: "mset (somes (map taskToRun (h_list (fst ?r)))) + mset (somes (snd ?r)) =
      mset (somes (map taskToRun (h_list (w_handler s))))"
    using somes_sum [OF deferred_round_sum [OF assms(2)]] .
  have "w_handler s1 = (if d_pc s = DWait then fst ?r else w_handler s)"
    using assms(3) by (auto simp: Handler_step_def split_def Let_def split: dpc.splits)
  with Handler_step_ok [OF assms(1,3)] sum show ?thesis
    by (auto simp: everywhere_def ac_simps split: if_splits)
qed

text \<open>C4: while the worker is neither stopped nor cleared, no submitted task is lost, duplicated or made up:
  in every interleaving of the two threads with clients that submit tasks to the back, to the front or
  with a delay, the tasks that have run, are queued or are waiting for their delay are exactly the tasks
  submitted so far.\<close>

theorem worker_conserves:
  assumes "qsort_spec srt" and "wt_run srt ls wt_init = Some s" and "list_all (\<lambda>l. \<not> losing l) ls"
  shows "everywhere s = mset (submitted ls)"
proof -
  have "everywhere s' = everywhere s0 + mset (submitted ls)"
    if "wt_run srt ls s0 = Some s'" "wt_ok s0" "list_all (\<lambda>l. \<not> losing l) ls" for s0 s' ls
    using that
  proof (induction ls arbitrary: s0)
    case (Cons l ls)
    then obtain s1 where s1: "wt_step srt l s0 = Some s1" "wt_run srt ls s1 = Some s'"
      by (auto split: if_splits option.splits)
    have "l \<noteq> LClear" using Cons.prems(3) by auto
    then have "wt_ok s1" using wt_ok_step [OF Cons.prems(2) _ s1(1)] by simp
    with Cons s1 have IH: "everywhere s' = everywhere s1 + mset (submitted ls)" by simp
    have "everywhere s1 + mset (submitted ls) = everywhere s0 + mset (submitted (l # ls))"
      using s1(1) Cons.prems(2,3) everywhere_Work_step everywhere_Handler_step [OF _ assms(1)]
      by (cases l) (auto simp: everywhere_def wt_defs pending_def Push_def PushFront_def add_deferred_def)
    with IH show ?case by simp
  qed simp
  from this [OF assms(2) wt_ok_init assms(3)] show ?thesis
    by (simp add: everywhere_def wt_init_def pending_def mq_empty_def handler_init_def)
qed

theorem worker_conserves_witness:
  "\<exists>s. wt_run (sort_by ms_compare) [LRun, LWorker, LEnqueue ''a'', LDefer ''b'' 5, LWorker, LWorker, LFront ''c'', LWorker] wt_init = Some s
     \<and> everywhere s = {#''a'', ''b'', ''c''#} \<and> w_log s = [''a'']"
proof -
  let ?ls = "[LRun, LWorker, LEnqueue ''a'', LDefer ''b'' 5, LWorker, LWorker, LFront ''c'', LWorker]"
  obtain s where s: "wt_run (sort_by ms_compare) ?ls wt_init = Some s" "w_log s = [''a'']"
    by (simp add: wt_init_def wt_defs Work_step_def WaitAndReturnAll_now Push_def mq_empty_def run_task_def)
  from worker_conserves [OF qsort_spec_sort_by this(1)] this show ?thesis by auto
qed

text \<open>C5: tasks run in the order in which they were submitted: in every interleaving in which clients submit
  to the back only, start or stop the worker, the tasks that have run followed by the tasks that are queued
  are the submitted tasks, in order.\<close>

theorem worker_fifo:
  assumes "wt_run srt ls wt_init = Some s" and "list_all plain ls"
  shows "w_log s @ pending s = submitted ls"
proof -
  have "w_log s' @ pending s' = w_log s0 @ pending s0 @ submitted ls"
    if "wt_run srt ls s0 = Some s'" "wt_ok s0" "h_list (w_handler s0) = []" "list_all plain ls" for s0 s' ls
    using that
  proof (induction ls arbitrary: s0)
    case (Cons l ls)
    then obtain s1 where s1: "wt_step srt l s0 = Some s1" "wt_run srt ls s1 = Some s'"
      by (auto split: if_splits option.splits)
    have "l \<noteq> LClear" using Cons.prems(4) by auto
    then have ok: "wt_ok s1" using wt_ok_step [OF Cons.prems(2) _ s1(1)] by simp
    have "h_list (w_handler s1) = [] \<and> w_log s1 @ pending s1 @ submitted ls = w_log s0 @ pending s0 @ submitted (l # ls)"
    proof (cases l)
      case LWorker
      with s1(1) have st: "Work_step s0 = Some s1" by simp
      from Work_step_ok [OF Cons.prems(2) st] have "(w_log s1 @ pending s1) @ submitted ls = (w_log s0 @ pending s0) @ submitted ls"
        by simp
      with Work_step_handler [OF st] Cons.prems(3) LWorker show ?thesis by simp
    next
      case (LHandler w)
      with s1(1) have st: "Handler_step srt w s0 = Some s1" by simp
      have "deferred_round srt w (w_handler s0) = (w_handler s0, [])"
        using Cons.prems(3) by (simp add: deferred_round_def)
      with Handler_step_ok [OF Cons.prems(2) st] st Cons.prems(3) LHandler show ?thesis
        by (auto simp: Handler_step_def split: dpc.splits if_splits)
    qed (use s1(1) Cons.prems in \<open>auto simp: wt_defs pending_def Push_def Let_def\<close>)
    with Cons.IH [OF s1(2) ok] Cons.prems(4) show ?case by simp
  qed simp
  from this [OF assms(1) wt_ok_init _ assms(2)] show ?thesis
    by (simp add: wt_init_def pending_def mq_empty_def handler_init_def)
qed

theorem worker_fifo_witness:
  "\<exists>s. wt_run (sort_by ms_compare) [LRun, LEnqueue ''a'', LWorker, LEnqueue ''b'', LWorker, LWorker, LEnqueue ''c'', LWorker, LStop] wt_init = Some s
     \<and> w_log s = [''a''] \<and> pending s = [''b'', ''c'']"
proof -
  let ?ls = "[LRun, LEnqueue ''a'', LWorker, LEnqueue ''b'', LWorker, LWorker, LEnqueue ''c'', LWorker, LStop]"
  obtain s where s: "wt_run (sort_by ms_compare) ?ls wt_init = Some s" "w_log s = [''a'']"
    by (simp add: wt_init_def wt_defs Work_step_def WaitAndReturnAll_now Push_def mq_empty_def run_task_def Let_def)
  from worker_fifo [OF this(1)] this show ?thesis by auto
qed

section \<open>Stopping\<close>

fun handler_run :: "nat \<Rightarrow> 'a wt \<Rightarrow> 'a wt" where
  "handler_run 0 s = s"
| "handler_run (Suc n) s = (case Handler_step id 0 s of None \<Rightarrow> s | Some s1 \<Rightarrow> handler_run n s1)"

lemma handler_exits:
  assumes "\<not> w_isRunning s" and "h_list (w_handler s) = []" and "d_pc s \<noteq> DNone"
  shows "\<exists>n. handler_run n s = s\<lparr>d_pc := DExit\<rparr>"
proof (cases "d_pc s")
  case DCheck
  with assms show ?thesis by (intro exI [of _ 1]) (simp add: Handler_step_def wt_IsRunning_def)
next
  case DWait
  with assms show ?thesis
    by (intro exI [of _ 2]) (simp add: Handler_step_def wt_IsRunning_def deferred_round_def numeral_2_eq_2)
qed (use assms in \<open>auto intro: exI [of _ 0]\<close>)

lemma worker_iter_handler: "w_handler (worker_iter n s) = w_handler s \<and> d_pc (worker_iter n s) = d_pc s"
proof (induction n arbitrary: s)
  case (Suc n)
  show ?case
  proof (cases "Work_step s")
    case (Some s1)
    with Suc Work_step_handler [OF Some] show ?thesis by simp
  qed simp
qed simp

text \<open>C6: stopping a worker whose loop has begun does not lose queued tasks: with no further submissions the
  worker runs everything that was queued, in order, and ends, the deferred-task thread ends too, and the
  joins of the destructor return.\<close>

theorem Stop_drains_and_joins:
  assumes "wt_ok s" and "w_pc s \<notin> {WNone, WStart, WExit}" and "\<not> w_dead s"
  shows "\<exists>n m s'. handler_run m (worker_iter n (Stop s)) = s' \<and> w_log s' = w_log s @ pending s \<and> pending s' = []
    \<and> \<not> w_dead s' \<and> Join s' \<noteq> None"
proof -
  note st = Stop_stopping [OF assms(1,2)]
  obtain n where n: "w_pc (worker_iter n (Stop s)) = WExit" "w_log (worker_iter n (Stop s)) = w_log s @ pending s"
    "w_dead (worker_iter n (Stop s)) = w_dead s" "\<not> w_isRunning (worker_iter n (Stop s))" "pending (worker_iter n (Stop s)) = []"
    using stopping_drains [of "Stop s"] st by auto
  let ?s = "worker_iter n (Stop s)"
  have d: "d_pc s \<noteq> DNone" using assms(1,2) by (auto simp: wt_ok_def)
  then have "h_list (w_handler (Stop s)) = []" "d_pc (Stop s) \<noteq> DNone" by (simp_all add: Stop_def Let_def)
  then have "h_list (w_handler ?s) = []" "d_pc ?s \<noteq> DNone" using worker_iter_handler [of n "Stop s"] by simp_all
  then obtain m where m: "handler_run m ?s = ?s\<lparr>d_pc := DExit\<rparr>" using handler_exits [of ?s] n(4) by blast
  with n assms(3) show ?thesis
    by (intro exI [of _ n] exI [of _ m] exI [of _ "?s\<lparr>d_pc := DExit\<rparr>"]) (simp add: Join_def pending_def)
qed

definition demo_running :: "string wt" where
  "demo_running = the (wt_run (sort_by ms_compare) [LRun, LWorker, LEnqueue ''a'', LEnqueue ''b''] wt_init)"

lemma demo_running_sel:
  "w_pc demo_running = WLoop" "w_deq demo_running = []" "d_pc demo_running = DCheck" "\<not> w_dead demo_running"
  "queueMessages (w_queue demo_running) = [Some ''a'', Some ''b'']" "w_log demo_running = []"
  by (simp_all add: demo_running_def wt_init_def wt_defs Work_step_def Push_def mq_empty_def)

theorem Stop_drains_and_joins_witness:
  "\<exists>n m. w_log (handler_run m (worker_iter n (Stop demo_running))) = [''a'', ''b'']"
proof -
  have "wt_ok demo_running" by (simp add: wt_ok_def demo_running_sel)
  from Stop_drains_and_joins [OF this] show ?thesis by (auto simp: demo_running_sel pending_def)
qed

lemma worker_iter_append: "worker_iter (m + n) s = worker_iter n (worker_iter m s)"
proof (induction m arbitrary: s)
  case (Suc m)
  show ?case
  proof (cases "Work_step s")
    case None
    then have "worker_iter k s = s" for k by (cases k) simp_all
    then show ?thesis by simp
  next
    case (Some s1)
    with Suc show ?thesis by simp
  qed
qed simp

text \<open>A batch is run to its end.\<close>

lemma worker_runs_batch:
  "w_pc s = WRun \<Longrightarrow> w_pc (worker_iter (Suc (length (w_deq s))) s) = WLoop
    \<and> w_queue (worker_iter (Suc (length (w_deq s))) s) = w_queue s
    \<and> w_isRunning (worker_iter (Suc (length (w_deq s))) s) = w_isRunning s
    \<and> d_pc (worker_iter (Suc (length (w_deq s))) s) = d_pc s"
proof (induction "length (w_deq s)" arbitrary: s)
  case 0
  then show ?case by (simp add: Work_step_def)
next
  case (Suc n)
  then obtain x xs where d: "w_deq s = x # xs" by (cases "w_deq s") auto
  let ?s1 = "run_task x (s\<lparr>w_deq := xs\<rparr>)"
  have step: "Work_step s = Some ?s1" using d Suc.prems by (simp add: Work_step_def)
  have "n = length (w_deq ?s1)" using d Suc.hyps(2) by simp
  from Suc.hyps(1) [OF this] Suc.prems d step show ?case by simp
qed

text \<open>A stop that comes before the worker thread has run its first instruction is lost: the thread then
  sets its running flag again, works off the queue and waits for more with the flag set, so the stopped
  object reports that it is running and its destructor never returns.\<close>

lemma early_Stop_lost:
  assumes "w_pc s = WStart" and "w_deq s = []"
  shows "\<exists>n. let s' = worker_iter n (Stop s)
    in Work_step s' = None \<and> wt_IsRunning s' \<and> w_pc s' = WWait \<and> Join s' = None"
proof -
  let ?q = "queueMessages (w_queue s) @ [None]"
  obtain s0 where s0: "Stop s = s0" "w_pc s0 = WStart" "queueMessages (w_queue s0) = ?q" "w_deq s0 = []"
    using assms by (auto simp: Stop_def Let_def Push_def)
  define s1 where "s1 = s0\<lparr>w_isRunning := True, w_pc := WRun, w_deq := ?q, w_queue := (w_queue s0)\<lparr>queueMessages := []\<rparr>\<rparr>"
  have three: "worker_iter 3 s0 = s1"
    using s0(2,3) by (simp add: numeral_3_eq_3 Work_step_def wt_IsRunning_def WaitAndReturnAll_now s1_def)
  obtain s2 where s2: "worker_iter (Suc (length ?q)) s1 = s2" "w_pc s2 = WLoop" "queueMessages (w_queue s2) = []"
    "w_isRunning s2"
    using worker_runs_batch [of s1] by (simp add: s1_def)
  define s3 where "s3 = s2\<lparr>w_pc := WWait\<rparr>"
  have "worker_iter 1 s2 = s3" using s2 by (simp add: Work_step_def wt_IsRunning_def s3_def)
  then have "worker_iter (3 + (Suc (length ?q) + 1)) (Stop s) = s3"
    by (simp only: worker_iter_append s0(1) three s2(1))
  moreover have "Work_step s3 = None" using s2 by (simp add: s3_def Work_step_def WaitAndReturnAll_now)
  moreover have "wt_IsRunning s3" "w_pc s3 = WWait" "Join s3 = None"
    using s2 by (simp_all add: s3_def wt_IsRunning_def Join_def)
  ultimately show ?thesis by (metis (no_types))
qed

section \<open>The life of the threads\<close>

fun prompt :: "'a wlabel list \<Rightarrow> 'a list" where
  "prompt [] = []"
| "prompt (LEnqueue x # ls) = x # prompt ls"
| "prompt (LFront x # ls) = x # prompt ls"
| "prompt (_ # ls) = prompt ls"

lemma Handler_step_exit: "d_pc s = DExit \<Longrightarrow> Handler_step srt w s = None"
  by (simp add: Handler_step_def)

lemma Work_step_set: "wt_ok s \<Longrightarrow> Work_step s = Some s1 \<Longrightarrow> set (w_log s1 @ pending s1) = set (w_log s @ pending s)"
  using Work_step_ok by metis

text \<open>The deferred-task thread may look at the running flag before the worker thread has set it. It then
  ends at once, and from then on no task submitted with a delay is ever queued: whatever runs or is queued
  was submitted without one.\<close>

lemma deferred_thread_lost:
  assumes "wt_run srt (LRun # LHandler w # ls) wt_init = Some s" and "LRun \<notin> set ls" and "LClear \<notin> set ls"
  shows "d_pc s = DExit \<and> set (w_log s @ pending s) \<subseteq> set (prompt ls)"
proof -
  let ?s0 = "wt_init\<lparr>w_pc := WStart, d_pc := DExit\<rparr> :: 'a wt"
  have run0: "wt_run srt ls ?s0 = Some s"
    using assms(1) by (simp add: wt_init_def Run_def wt_IsRunning_def Handler_step_def)
  have "d_pc s' = DExit \<and> set (w_log s' @ pending s') \<subseteq> set (w_log t @ pending t) \<union> set (prompt ls)"
    if "wt_run srt ls t = Some s'" "wt_ok t" "d_pc t = DExit" "LRun \<notin> set ls" "LClear \<notin> set ls" for ls and t s' :: "'a wt"
    using that
  proof (induction ls arbitrary: t)
    case (Cons l ls)
    then obtain t1 where t1: "wt_step srt l t = Some t1" "wt_run srt ls t1 = Some s'"
      by (auto split: if_splits option.splits)
    have l: "l \<noteq> LClear" "l \<noteq> LRun" using Cons.prems(4,5) by auto
    have ok: "wt_ok t1" using wt_ok_step [OF Cons.prems(2) l(1) t1(1)] .
    have "d_pc t1 = DExit \<and> set (w_log t1 @ pending t1) \<union> set (prompt ls) \<subseteq> set (w_log t @ pending t) \<union> set (prompt (l # ls))"
    proof (cases l)
      case LWorker
      with t1(1) have st: "Work_step t = Some t1" by simp
      show ?thesis
        using Work_step_set [OF Cons.prems(2) st] Work_step_handler [OF st] Cons.prems(3) LWorker by auto
    next
      case (LHandler w)
      with t1(1) Cons.prems(3) show ?thesis by (simp add: Handler_step_exit)
    qed (use t1(1) l Cons.prems(3) in \<open>auto simp: wt_defs pending_def Push_def PushFront_def Let_def\<close>)
    with Cons.IH [OF t1(2) ok] Cons.prems(4,5) show ?case by auto
  qed simp
  from this [OF run0] assms(2,3) show ?thesis
    by (simp add: wt_ok_def) (simp add: wt_init_def pending_def mq_empty_def)
qed



text \<open>Clearing the queue while the worker drains it can bring the process down: between the worker's test
  for an empty queue and its \<open>Pop\<close> the queue can be cleared, and the exception of \<open>Pop\<close> leaves the thread.\<close>

lemma clear_race:
  "\<exists>ls s. wt_run srt (LRun # ls) (wt_init :: string wt) = Some s \<and> LRun \<notin> set ls \<and> LClear \<in> set ls \<and> w_dead s"
proof -
  let ?ls = "[LWorker, LStop, LWorker, LWorker, LClear, LWorker] :: string wlabel list"
  have "\<exists>s. wt_run srt (LRun # ?ls) wt_init = Some s \<and> w_dead s"
    by (simp add: wt_init_def wt_defs Work_step_def Push_def Clear_def Pop_def IsEmpty_def mq_empty_def Let_def)
  then show ?thesis by (intro exI [of _ ?ls]) auto
qed

text \<open>A worker cannot be started again: once its thread has ended after a stop, the next \<open>Run\<close> assigns to
  a joinable \<open>std::thread\<close>, which terminates the process; the same holds for a second \<open>Run\<close> before the worker
  thread has set the running flag. And the destructor of an object that was never started terminates it too.\<close>

lemma restart_terminates:
  assumes "wt_run srt ls wt_init = Some (s :: 'a wt)" and "w_pc s = WExit \<or> w_pc s = WStart"
  shows "w_dead (Run s) \<and> (\<exists>s'. Join (Stop (wt_init :: 'a wt)) = Some s' \<and> w_dead s')"
proof -
  have "w_pc s \<in> {WNone, WStart, WExit} \<longrightarrow> \<not> w_isRunning s"
  proof (rule wt_run_invariant [OF assms(1)])
    show "w_pc wt_init \<in> {WNone, WStart, WExit} \<longrightarrow> \<not> w_isRunning wt_init" by (simp add: wt_init_def)
    show "list_all (\<lambda>_. True) ls" by (simp add: list_all_iff)
    fix l :: "'a wlabel" and t t1 :: "'a wt"
    assume "w_pc t \<in> {WNone, WStart, WExit} \<longrightarrow> \<not> w_isRunning t" "wt_step srt l t = Some t1"
    then show "w_pc t1 \<in> {WNone, WStart, WExit} \<longrightarrow> \<not> w_isRunning t1"
      by (cases l)
        (auto simp: wt_defs Let_def Work_step_def Handler_step_def split_def
          split: wpc.splits dpc.splits option.splits prod.splits sum.splits list.splits if_splits)
  qed
  with assms(2) have "w_dead (Run s)" by (auto simp: Run_def wt_IsRunning_def)
  then show ?thesis by (simp add: Join_def) (simp add: Stop_def Let_def wt_init_def)
qed

section \<open>The priority of a thread\<close>

text \<open>
  \<open>SetMeLowPriority\<close>, which nothing calls: the number of the thread and the system's functions are parameters; the
  result is what is written to \<^verbatim>\<open>stderr\<close>.
\<close>

definition SetMeLowPriority ::
  "int \<Rightarrow> (int \<Rightarrow> 'o \<Rightarrow> int) \<Rightarrow> (int \<Rightarrow> int \<Rightarrow> 'o \<Rightarrow> int \<times> 'o) \<Rightarrow> int \<Rightarrow> 'o \<Rightarrow> string \<times> 'o" where
  "SetMeLowPriority tid getpriority setpriority priority o1 =
     (if getpriority tid o1 \<noteq> priority
      then (let (err, o2) = setpriority tid priority o1
            in (if err \<noteq> 0 then ''FAILED to setpriority'' @ [CHR 0x0A] else '''', o2))
      else ('''', o1))"


end
