(* ===== verification/Grpc_Client.thy ===== *)
theory Grpc_Client
  imports Working_Thread
begin

text \<open>
  \<^verbatim>\<open>Daemon/grpcservice/grpc_client.{h,cpp}\<close> over the messages of \<^verbatim>\<open>daemon.proto\<close>: the client that polls the
  server for tasks and reports torrents. Its tasks are values of \<open>task_type\<close> in the worker of theory
  \<open>Working_Thread\<close>; when the worker runs one, the member function it stands for is executed on the state
  of the client and on the world \<open>'w\<close>, which holds the server and what the callbacks act on.

  The gRPC stub, generated from the protocol, is the parameter \<open>stub_api\<close>; a stream is what it delivers
  and its final status. A null stub that is used is \<open>Undefined\<close>. The object behind
  \<^verbatim>\<open>ClientCallbackInterface\<close> is \<open>callback_api\<close>; a download callback may report back through the client, so
  it is given the client's \<open>UpdateTorrentStatus\<close>. An exception that leaves a task ends the process.
\<close>

section \<open>Messages\<close>

text \<open>Enumerations of proto3 are open: a value without a name is kept as it came.\<close>

datatype auth_status = Auth_FAILED | Auth_OK | Auth_Other int

datatype task_type =
    GENERATE_MAGENT
  | DOWNLOAD_TORRENT
  | UPDATE_TORRENT_STATUS
  | UPDATE_TASK_LIST
  | MAKE_HANDSHAKE
  | Unknown_Task int

datatype rpc_status =
    RS_NONE | RS_DOWNLOADED | RS_DOWNLOADING | RS_GENERATED | RS_GENERATING | RS_PAUSED | RS_ERROR
  | RS_Other int

record daemon_info =
  di_uuid :: string
  di_authTocken :: string
  di_authStatus :: auth_status

definition daemon_info_empty :: daemon_info where
  "daemon_info_empty = \<lparr>di_uuid = '''', di_authTocken = '''', di_authStatus = Auth_FAILED\<rparr>"

record rpc_tinfo =
  ri_id :: string
  ri_link :: string
  ri_pathToTFile :: string
  ri_status :: rpc_status
  ri_workProgress :: "32 word"
  ri_pathToProject :: string

section \<open>The two interfaces the client is given\<close>

record 'w stub_api =
  sa_Handshake :: "string \<Rightarrow> 'w \<Rightarrow> (bool \<times> daemon_info) \<times> 'w"
  sa_GetTaskList :: "daemon_info \<Rightarrow> 'w \<Rightarrow> (task_type list \<times> bool) \<times> 'w"
  sa_GetInfoForGenerateTorrents :: "daemon_info \<Rightarrow> 'w \<Rightarrow> (rpc_tinfo list \<times> bool) \<times> 'w"
  sa_GetTorrentsForDownload :: "daemon_info \<Rightarrow> 'w \<Rightarrow> (rpc_tinfo list \<times> bool) \<times> 'w"
  sa_GetTorrentsForUpdateStatus :: "daemon_info \<Rightarrow> 'w \<Rightarrow> (rpc_tinfo list \<times> bool) \<times> 'w"
  sa_UpdateTorrentStatus :: "daemon_info \<Rightarrow> rpc_tinfo \<Rightarrow> 'w \<Rightarrow> bool \<times> 'w"

type_synonym 'w sender = "rpc_tinfo \<Rightarrow> 'w \<Rightarrow> unit outcome \<times> 'w"

record 'w callback_api =
  cb_GetClientUUID :: "'w \<Rightarrow> string outcome"
  cb_GenerateTorrent :: "rpc_tinfo \<Rightarrow> 'w \<Rightarrow> unit outcome \<times> 'w"
  cb_DownloadTorrent :: "'w sender \<Rightarrow> rpc_tinfo \<Rightarrow> 'w \<Rightarrow> unit outcome \<times> 'w"
  cb_UpdateTorrentInfo :: "rpc_tinfo \<Rightarrow> 'w \<Rightarrow> rpc_tinfo outcome \<times> 'w"

section \<open>State\<close>

record grpc =
  g_server :: string
  g_stub :: bool
  g_updateTimeSec :: int
  g_isRun :: bool
  g_info :: daemon_info
  g_worker :: "task_type wt"

definition grpc_new :: "string \<Rightarrow> string \<Rightarrow> grpc" where
  "grpc_new serverName port =
     \<lparr>g_server = serverName @ '':'' @ port, g_stub = False, g_updateTimeSec = 30, g_isRun = False,
      g_info = daemon_info_empty, g_worker = wt_init\<rparr>"

definition SetUpdateTaskListTime :: "int \<Rightarrow> grpc \<Rightarrow> grpc" where
  "SetUpdateTaskListTime sec g = g\<lparr>g_updateTimeSec := sec\<rparr>"

definition IsRun :: "grpc \<Rightarrow> bool" where
  "IsRun g = g_isRun g"

definition GetClientInfo :: "grpc \<Rightarrow> daemon_info" where
  "GetClientInfo g = g_info g"

text \<open>A task type without a name becomes a null task.\<close>

fun CreateTask :: "task_type \<Rightarrow> task_type option" where
  "CreateTask (Unknown_Task n) = None"
| "CreateTask taskType = Some taskType"

definition AddTask :: "task_type \<Rightarrow> grpc \<Rightarrow> grpc" where
  "AddTask taskType g = g\<lparr>g_worker := EnqueueTask (CreateTask taskType) (g_worker g)\<rparr>"

definition AddTaskAfterTimeOut :: "task_type \<Rightarrow> u32 \<Rightarrow> grpc \<Rightarrow> grpc" where
  "AddTaskAfterTimeOut taskType millisec g =
     g\<lparr>g_worker := EnqueueTaskAfterTimeOut (CreateTask taskType) millisec (g_worker g)\<rparr>"

text \<open>\<^verbatim>\<open>updateTimeSec.count() * 1000\<close> is passed as an \<^verbatim>\<open>unsigned int\<close>.\<close>

definition update_delay :: "grpc \<Rightarrow> u32" where
  "update_delay g = word_of_int (g_updateTimeSec g * 1000)"

definition Client_Start :: "grpc \<Rightarrow> grpc" where
  "Client_Start g =
     (if IsRun g then g
      else AddTask MAKE_HANDSHAKE (g\<lparr>g_stub := True, g_worker := Run (g_worker g), g_isRun := True\<rparr>))"

definition Client_Stop :: "grpc \<Rightarrow> grpc" where
  "Client_Stop g =
     (if \<not> IsRun g then g
      else g\<lparr>g_isRun := False, g_worker := Stop (g_worker g), g_stub := False, g_info := daemon_info_empty\<rparr>)"

section \<open>Calls\<close>

text \<open>\<open>ReadStream\<close>: what was read is returned even when the call failed.\<close>

fun read_loop :: "'m list \<Rightarrow> 'm list \<Rightarrow> 'm list" where
  "read_loop [] dataList = dataList"
| "read_loop (m # reader) dataList = read_loop reader (dataList @ [m])"

definition ReadStream :: "'m list \<times> bool \<Rightarrow> 'm list" where
  "ReadStream reader = read_loop (fst reader) []"

definition UpdateTorrentStatus :: "'w stub_api \<Rightarrow> grpc \<Rightarrow> 'w sender" where
  "UpdateTorrentStatus api g tInfo w =
     (if \<not> g_stub g then (Undefined, w)
      else (Ret (), snd (sa_UpdateTorrentStatus api (GetClientInfo g) tInfo w)))"

text \<open>The overloads of the callback interface that take a list.\<close>

definition GenerateTorrents :: "'w callback_api \<Rightarrow> rpc_tinfo list \<Rightarrow> 'w \<Rightarrow> unit outcome \<times> 'w" where
  "GenerateTorrents cb tInfoList w = for_each (cb_GenerateTorrent cb) tInfoList w"

definition DownloadTorrents :: "'w callback_api \<Rightarrow> 'w sender \<Rightarrow> rpc_tinfo list \<Rightarrow> 'w \<Rightarrow> unit outcome \<times> 'w" where
  "DownloadTorrents cb send torrents w = for_each (cb_DownloadTorrent cb send) torrents w"

section \<open>The tasks\<close>

text \<open>Each takes the client and the world, and returns how it ended with both.\<close>

definition UpdateTasksTask :: "'w stub_api \<Rightarrow> grpc \<times> 'w \<Rightarrow> unit outcome \<times> (grpc \<times> 'w)" where
  "UpdateTasksTask api = (\<lambda>(g, w).
     if IsRun g
     then if \<not> g_stub g then (Undefined, (g, w))
          else (let (reader, w1) = sa_GetTaskList api (GetClientInfo g) w;
                    g1 = fold AddTask (ReadStream reader) g
                in (Ret (), (AddTaskAfterTimeOut UPDATE_TASK_LIST (update_delay g1) g1, w1)))
     else (Ret (), (g, w)))"

definition HandshakeTask :: "'w stub_api \<Rightarrow> 'w callback_api \<Rightarrow> grpc \<times> 'w \<Rightarrow> unit outcome \<times> (grpc \<times> 'w)" where
  "HandshakeTask api cb = (\<lambda>(g, w).
     case cb_GetClientUUID cb w of
       Throw e \<Rightarrow> (Throw e, (g, w))
     | Undefined \<Rightarrow> (Undefined, (g, w))
     | Ret uuid \<Rightarrow>
         if \<not> g_stub g then (Undefined, (g, w))
         else (let ((status_ok, dInfo), w1) = sa_Handshake api uuid w
               in if \<not> status_ok \<or> di_authStatus dInfo \<noteq> Auth_OK
                  then (Ret (), (AddTaskAfterTimeOut MAKE_HANDSHAKE (update_delay g) g, w1))
                  else (Ret (), (AddTask UPDATE_TASK_LIST (g\<lparr>g_info := dInfo\<rparr>), w1))))"

definition DownloadTorrentTask :: "'w stub_api \<Rightarrow> 'w callback_api \<Rightarrow> grpc \<times> 'w \<Rightarrow> unit outcome \<times> (grpc \<times> 'w)" where
  "DownloadTorrentTask api cb = (\<lambda>(g, w).
     if \<not> g_stub g then (Undefined, (g, w))
     else (let (reader, w1) = sa_GetTorrentsForDownload api (GetClientInfo g) w
           in case DownloadTorrents cb (UpdateTorrentStatus api g) (ReadStream reader) w1 of
                (Ret _, w2) \<Rightarrow> (Ret (), (AddTask UPDATE_TORRENT_STATUS g, w2))
              | (r, w2) \<Rightarrow> (r, (g, w2))))"

definition UpdateTorrentTask :: "'w stub_api \<Rightarrow> 'w callback_api \<Rightarrow> grpc \<times> 'w \<Rightarrow> unit outcome \<times> (grpc \<times> 'w)" where
  "UpdateTorrentTask api cb = (\<lambda>(g, w).
     if \<not> g_stub g then (Undefined, (g, w))
     else (let (reader, w1) = sa_GetTorrentsForUpdateStatus api (GetClientInfo g) w;
               (r, w2) = for_each (\<lambda>ti w. and_then (cb_UpdateTorrentInfo cb ti w) (UpdateTorrentStatus api g))
                           (ReadStream reader) w1
           in (r, (g, w2))))"

definition CreateTorrentTask :: "'w stub_api \<Rightarrow> 'w callback_api \<Rightarrow> grpc \<times> 'w \<Rightarrow> unit outcome \<times> (grpc \<times> 'w)" where
  "CreateTorrentTask api cb = (\<lambda>(g, w).
     if \<not> g_stub g then (Undefined, (g, w))
     else (let (reader, w1) = sa_GetInfoForGenerateTorrents api (GetClientInfo g) w
           in case GenerateTorrents cb (ReadStream reader) w1 of
                (Ret _, w2) \<Rightarrow> (Ret (), (AddTaskAfterTimeOut UPDATE_TORRENT_STATUS 30 g, w2))
              | (r, w2) \<Rightarrow> (r, (g, w2))))"

text \<open>What the function bound in a task does.\<close>

fun run_body :: "'w stub_api \<Rightarrow> 'w callback_api \<Rightarrow> task_type \<Rightarrow> grpc \<times> 'w \<Rightarrow> unit outcome \<times> (grpc \<times> 'w)" where
  "run_body api cb DOWNLOAD_TORRENT s = DownloadTorrentTask api cb s"
| "run_body api cb GENERATE_MAGENT s = CreateTorrentTask api cb s"
| "run_body api cb UPDATE_TORRENT_STATUS s = UpdateTorrentTask api cb s"
| "run_body api cb MAKE_HANDSHAKE s = HandshakeTask api cb s"
| "run_body api cb UPDATE_TASK_LIST s = UpdateTasksTask api s"
| "run_body api cb (Unknown_Task n) s = (Ret (), s)"

section \<open>Steps of the client\<close>

text \<open>
  The worker thread takes a step; when the step runs a task, its body is executed. \<open>None\<close>: the thread
  cannot move.
\<close>

definition Client_work ::
  "'w stub_api \<Rightarrow> 'w callback_api \<Rightarrow> grpc \<times> 'w \<Rightarrow> (unit outcome \<times> (grpc \<times> 'w)) option" where
  "Client_work api cb = (\<lambda>(g, w).
     case Work_step (g_worker g) of
       None \<Rightarrow> None
     | Some t \<Rightarrow>
         (if w_log t = w_log (g_worker g) then Some (Ret (), (g\<lparr>g_worker := t\<rparr>, w))
          else Some (run_body api cb (last (w_log t)) (g\<lparr>g_worker := t\<rparr>, w))))"

datatype glabel = GWork | GHandler int | GStart | GStop | GSetTime int

fun g_step ::
  "(task_type option deferred list \<Rightarrow> task_type option deferred list) \<Rightarrow> 'w stub_api \<Rightarrow> 'w callback_api \<Rightarrow> glabel
   \<Rightarrow> grpc \<times> 'w \<Rightarrow> (unit outcome \<times> (grpc \<times> 'w)) option" where
  "g_step srt api cb GWork s = Client_work api cb s"
| "g_step srt api cb (GHandler cur) (g, w) =
     (case Handler_step srt cur (g_worker g) of
        None \<Rightarrow> None
      | Some t \<Rightarrow> Some (Ret (), (g\<lparr>g_worker := t\<rparr>, w)))"
| "g_step srt api cb GStart (g, w) = Some (Ret (), (Client_Start g, w))"
| "g_step srt api cb GStop (g, w) = Some (Ret (), (Client_Stop g, w))"
| "g_step srt api cb (GSetTime sec) (g, w) = Some (Ret (), (SetUpdateTaskListTime sec g, w))"

text \<open>A run goes on as long as tasks return.\<close>

fun g_run ::
  "(task_type option deferred list \<Rightarrow> task_type option deferred list) \<Rightarrow> 'w stub_api \<Rightarrow> 'w callback_api \<Rightarrow> glabel list
   \<Rightarrow> grpc \<times> 'w \<Rightarrow> (unit outcome \<times> (grpc \<times> 'w)) option" where
  "g_run srt api cb [] s = Some (Ret (), s)"
| "g_run srt api cb (l # ls) s =
     (case g_step srt api cb l s of
        None \<Rightarrow> None
      | Some (Ret _, s1) \<Rightarrow> g_run srt api cb ls s1
      | Some r \<Rightarrow> Some r)"

section \<open>Selectors\<close>

lemma ReadStream_fst [simp]: "ReadStream r = fst r"
proof -
  have "read_loop xs acc = acc @ xs" for xs acc :: "'a list" by (induction xs arbitrary: acc) simp_all
  then show ?thesis by (simp add: ReadStream_def)
qed

lemma AddTask_sel [simp]:
  "g_isRun (AddTask t g) = g_isRun g" "g_stub (AddTask t g) = g_stub g" "g_info (AddTask t g) = g_info g"
  "g_updateTimeSec (AddTask t g) = g_updateTimeSec g"
  "g_isRun (AddTaskAfterTimeOut t d g) = g_isRun g" "g_stub (AddTaskAfterTimeOut t d g) = g_stub g"
  "g_info (AddTaskAfterTimeOut t d g) = g_info g" "g_updateTimeSec (AddTaskAfterTimeOut t d g) = g_updateTimeSec g"
  "w_log (g_worker (AddTask t g)) = w_log (g_worker g)"
  "w_log (g_worker (AddTaskAfterTimeOut t d g)) = w_log (g_worker g)"
  by (simp_all add: AddTask_def AddTaskAfterTimeOut_def EnqueueTask_def EnqueueTaskAfterTimeOut_def)

lemma fold_AddTask_sel [simp]:
  "g_isRun (fold AddTask ts g) = g_isRun g" "g_stub (fold AddTask ts g) = g_stub g"
  "g_info (fold AddTask ts g) = g_info g" "g_updateTimeSec (fold AddTask ts g) = g_updateTimeSec g"
  by (induction ts arbitrary: g) simp_all

section \<open>The tasks that are waiting\<close>

definition waiting :: "'a wt \<Rightarrow> 'a multiset" where
  "waiting t = mset (pending t) + mset (somes (map taskToRun (h_list (w_handler t))))"

lemma Work_step_log:
  "Work_step t = Some t1 \<Longrightarrow> w_log t1 = w_log t \<or> (\<exists>x. w_log t1 = w_log t @ [x])"
  by (auto simp: Work_step_def run_task_def split: wpc.splits option.splits prod.splits sum.splits list.splits if_splits)

lemma waiting_Work_step:
  assumes "wt_ok t" and "Work_step t = Some t1"
  shows "if w_log t1 = w_log t then waiting t1 = waiting t else waiting t = add_mset (last (w_log t1)) (waiting t1)"
proof -
  have eq: "mset (w_log t1) + mset (pending t1) = mset (w_log t) + mset (pending t)"
    using Work_step_ok [OF assms] by (metis mset_append)
  from Work_step_log [OF assms(2)] show ?thesis
    using eq Work_step_handler [OF assms(2)] by (auto simp: waiting_def)
qed

lemma waiting_Handler_step:
  assumes "wt_ok t" and "qsort_spec srt" and "Handler_step srt w t = Some t1"
  shows "waiting t1 = waiting t"
  using everywhere_Handler_step [OF assms] Handler_step_ok [OF assms(1,3)]
  by (simp add: everywhere_def waiting_def)

definition carrier :: "task_type \<Rightarrow> bool" where
  "carrier x \<longleftrightarrow> x = MAKE_HANDSHAKE \<or> x = UPDATE_TASK_LIST"

definition carriers :: "grpc \<Rightarrow> nat" where
  "carriers g = size (filter_mset carrier (waiting (g_worker g)))"

lemma carriers_AddTask: "carriers (AddTask t g) = carriers g + (if carrier t then 1 else 0)"
  by (cases t) (simp_all add: carriers_def AddTask_def EnqueueTask_def Push_def waiting_def pending_def carrier_def)

lemma carriers_AddTaskAfterTimeOut:
  "carriers (AddTaskAfterTimeOut t d g) = carriers g + (if carrier t then 1 else 0)"
  by (cases t)
    (simp_all add: carriers_def AddTaskAfterTimeOut_def EnqueueTaskAfterTimeOut_def add_deferred_def waiting_def
      pending_def carrier_def)

lemma carriers_fold: "carriers (fold AddTask ts g) = carriers g + length (filter carrier ts)"
  by (induction ts arbitrary: g) (simp_all add: carriers_AddTask)

lemma wt_ok_AddTask:
  "wt_ok (g_worker g) \<Longrightarrow> wt_ok (g_worker (AddTask t g))"
  "wt_ok (g_worker g) \<Longrightarrow> wt_ok (g_worker (AddTaskAfterTimeOut t d g))"
  "wt_ok (g_worker g) \<Longrightarrow> wt_ok (g_worker (fold AddTask ts g))"
proof -
  show one: "wt_ok (g_worker (AddTask t g))" if "wt_ok (g_worker g)" for t g
    using that by (simp add: AddTask_def wt_ok_other)
  show "wt_ok (g_worker (AddTaskAfterTimeOut t d g))" if "wt_ok (g_worker g)"
    using that by (simp add: AddTaskAfterTimeOut_def wt_ok_other)
  show "wt_ok (g_worker (fold AddTask ts g))" if "wt_ok (g_worker g)"
    using that one by (induction ts arbitrary: g) simp_all
qed

text \<open>A server whose task lists hold no carrier.\<close>

definition quiet_server :: "'w stub_api \<Rightarrow> bool" where
  "quiet_server api \<longleftrightarrow> (\<forall>di w. list_all (\<lambda>x. \<not> carrier x) (fst (fst (sa_GetTaskList api di w))))"

text \<open>A task that returns puts a carrier in the place of a carrier.\<close>

lemma run_body_carriers:
  assumes "run_body api cb x (g, w) = (Ret (), (g1, w1))" and "g_isRun g" and "wt_ok (g_worker g)"
  shows "\<exists>k. carriers g1 = carriers g + (if carrier x then 1 else 0) + k \<and> (quiet_server api \<longrightarrow> k = 0)
    \<and> g_isRun g1 \<and> wt_ok (g_worker g1)"
proof (cases x)
  case UPDATE_TASK_LIST
  have quiet: "filter carrier (fst (fst (sa_GetTaskList api di w))) = []" if "quiet_server api" for di
    using that by (simp add: quiet_server_def list_all_iff filter_empty_conv)
  from assms UPDATE_TASK_LIST quiet show ?thesis
    by (auto simp: UpdateTasksTask_def split_def Let_def IsRun_def carriers_AddTaskAfterTimeOut carriers_fold wt_ok_AddTask
        carrier_def split: if_splits)
next
  case MAKE_HANDSHAKE
  have "carriers (g\<lparr>g_info := di\<rparr>) = carriers g" for di by (simp add: carriers_def)
  with assms MAKE_HANDSHAKE show ?thesis
    by (auto simp: HandshakeTask_def split_def Let_def carriers_AddTaskAfterTimeOut carriers_AddTask wt_ok_AddTask carrier_def
        split: if_splits outcome.splits)
qed (use assms in \<open>auto simp: DownloadTorrentTask_def UpdateTorrentTask_def CreateTorrentTask_def split_def Let_def
      carriers_AddTask carriers_AddTaskAfterTimeOut wt_ok_AddTask carrier_def split: if_splits outcome.splits prod.splits\<close>)

definition beating :: "bool \<Rightarrow> grpc \<Rightarrow> bool" where
  "beating quiet g \<longleftrightarrow> g_isRun g \<and> wt_ok (g_worker g) \<and> 1 \<le> carriers g \<and> (quiet \<longrightarrow> carriers g = 1)"

lemma beating_work:
  assumes "beating (quiet_server api) g" and "Client_work api cb (g, w) = Some (Ret (), (g1, w1))"
  shows "beating (quiet_server api) g1"
proof -
  from assms(2) obtain t where t: "Work_step (g_worker g) = Some t"
    by (auto simp: Client_work_def split: option.splits)
  have ok: "wt_ok (g_worker g)" and run: "g_isRun g" using assms(1) by (simp_all add: beating_def)
  have okt: "wt_ok t" using Work_step_ok [OF ok t] by simp
  note wait = waiting_Work_step [OF ok t]
  show ?thesis
  proof (cases "w_log t = w_log (g_worker g)")
    case True
    with assms(2) t have "g1 = g\<lparr>g_worker := t\<rparr>" by (simp add: Client_work_def)
    with True wait okt assms(1) show ?thesis by (simp add: beating_def carriers_def)
  next
    case False
    let ?x = "last (w_log t)"
    from False assms(2) t have body: "run_body api cb ?x (g\<lparr>g_worker := t\<rparr>, w) = (Ret (), (g1, w1))"
      by (simp add: Client_work_def)
    have "carriers g = carriers (g\<lparr>g_worker := t\<rparr>) + (if carrier ?x then 1 else 0)"
      using wait False by (simp add: carriers_def)
    moreover obtain k where "carriers g1 = carriers (g\<lparr>g_worker := t\<rparr>) + (if carrier ?x then 1 else 0) + k"
      "quiet_server api \<longrightarrow> k = 0" "g_isRun g1" "wt_ok (g_worker g1)"
      using run_body_carriers [OF body] run okt by auto
    ultimately show ?thesis using assms(1) by (simp add: beating_def)
  qed
qed

lemma beating_step:
  assumes "beating (quiet_server api) g" and "qsort_spec srt" and "l \<noteq> GStop"
    and "g_step srt api cb l (g, w) = Some (Ret (), (g1, w1))"
  shows "beating (quiet_server api) g1"
proof (cases l)
  case (GHandler cur)
  with assms(4) obtain t where t: "Handler_step srt cur (g_worker g) = Some t" "g1 = g\<lparr>g_worker := t\<rparr>"
    by (auto split: option.splits)
  have ok: "wt_ok (g_worker g)" using assms(1) by (simp add: beating_def)
  from waiting_Handler_step [OF ok assms(2) t(1)] Handler_step_ok [OF ok t(1)] assms(1) t(2)
  show ?thesis by (simp add: beating_def carriers_def)
next
  case GWork
  with assms(4) have "Client_work api cb (g, w) = Some (Ret (), (g1, w1))" by simp
  with assms(1) show ?thesis by (rule beating_work)
qed (use assms in \<open>auto simp: Client_Start_def IsRun_def SetUpdateTaskListTime_def beating_def carriers_def\<close>)


text \<open>A server and a controller to evaluate the client on: the world is the list of reports received.\<close>

definition demo_stub :: "rpc_tinfo list stub_api" where
  "demo_stub =
     \<lparr>sa_Handshake = (\<lambda>u w. ((True, \<lparr>di_uuid = u, di_authTocken = ''t'', di_authStatus = Auth_OK\<rparr>), w)),
      sa_GetTaskList = (\<lambda>di w. (([DOWNLOAD_TORRENT, Unknown_Task 9], True), w)),
      sa_GetInfoForGenerateTorrents = (\<lambda>di w. (([], True), w)),
      sa_GetTorrentsForDownload = (\<lambda>di w. (([], True), w)),
      sa_GetTorrentsForUpdateStatus = (\<lambda>di w. (([], True), w)),
      sa_UpdateTorrentStatus = (\<lambda>di ti w. (True, w @ [ti]))\<rparr>"

definition demo_cb :: "rpc_tinfo list callback_api" where
  "demo_cb =
     \<lparr>cb_GetClientUUID = (\<lambda>w. Ret ''uuid''), cb_GenerateTorrent = (\<lambda>ti w. (Ret (), w)),
      cb_DownloadTorrent = (\<lambda>send ti w. (Ret (), w)), cb_UpdateTorrentInfo = (\<lambda>ti w. (Ret ti, w))\<rparr>"

lemmas client_eval = Client_work_def Client_Start_def Client_Stop_def IsRun_def AddTask_def AddTaskAfterTimeOut_def
  EnqueueTask_def EnqueueTaskAfterTimeOut_def add_deferred_def Run_def Stop_def wt_IsRunning_def Work_step_def
  WaitAndReturnAll_now Push_def Pop_def IsEmpty_def run_task_def HandshakeTask_def UpdateTasksTask_def GetClientInfo_def
  grpc_new_def wt_init_def mq_empty_def handler_init_def Let_def

definition demo_client :: grpc where
  "demo_client = (case g_run (sort_by ms_compare) demo_stub demo_cb [GStart, GWork, GWork, GWork, GWork, GWork] (grpc_new ''h'' ''1'', [])
     of Some (_, (g, _)) \<Rightarrow> g)"

lemma demo_client_run:
  "g_run (sort_by ms_compare) demo_stub demo_cb (GStart # [GWork, GWork, GWork, GWork, GWork]) (grpc_new ''h'' ''1'', [])
    = Some (Ret (), (demo_client, []))"
  "w_pc (g_worker demo_client) = WLoop" "g_isRun demo_client" "wt_ok (g_worker demo_client)"
  "queueMessages (w_queue (g_worker demo_client)) = [Some UPDATE_TASK_LIST]"
  "w_log (g_worker demo_client) = [MAKE_HANDSHAKE]"
  by (simp_all add: demo_client_def client_eval demo_stub_def demo_cb_def wt_ok_def)


section \<open>Handshake and polling\<close>

text \<open>A handshake the server accepts stores the credentials it sent and queues a request for the task
  list; one that fails, or is answered with another authorisation status, keeps the credentials the client
  had and is tried again after the update time, with nothing queued.\<close>

lemma handshake_branches:
  assumes "g_stub g" and "cb_GetClientUUID cb w = Ret uuid" and "sa_Handshake api uuid w = ((status_ok, dInfo), w1)"
  shows "\<exists>g'. run_body api cb MAKE_HANDSHAKE (g, w) = (Ret (), (g', w1))
    \<and> (if status_ok \<and> di_authStatus dInfo = Auth_OK
       then GetClientInfo g' = dInfo \<and> waiting (g_worker g') = add_mset UPDATE_TASK_LIST (waiting (g_worker g))
         \<and> queueMessages (w_queue (g_worker g')) = queueMessages (w_queue (g_worker g)) @ [Some UPDATE_TASK_LIST]
       else GetClientInfo g' = GetClientInfo g
         \<and> queueMessages (w_queue (g_worker g')) = queueMessages (w_queue (g_worker g))
         \<and> h_list (w_handler (g_worker g')) = h_list (w_handler (g_worker g))
             @ [\<lparr>taskToRun = Some MAKE_HANDSHAKE, ms = word_of_int (g_updateTimeSec g * 1000)\<rparr>])"
  using assms
  by (auto simp: HandshakeTask_def GetClientInfo_def AddTask_def AddTaskAfterTimeOut_def EnqueueTask_def Push_def
      EnqueueTaskAfterTimeOut_def add_deferred_def waiting_def pending_def update_delay_def)

text \<open>Polling queues the tasks the server sent, in the order of its stream and also when the stream ended
  in an error, with a null task, which the worker skips, in the place of a task type it does not know, and
  arranges the next poll; a client that has been stopped does nothing.\<close>

lemma poll_branches:
  assumes "g_stub g" and "sa_GetTaskList api (GetClientInfo g) w = ((tasks, ok), w1)"
  shows "if IsRun g
     then \<exists>g'. run_body api cb UPDATE_TASK_LIST (g, w) = (Ret (), (g', w1))
       \<and> queueMessages (w_queue (g_worker g')) = queueMessages (w_queue (g_worker g)) @ map CreateTask tasks
       \<and> h_list (w_handler (g_worker g')) = h_list (w_handler (g_worker g))
             @ [\<lparr>taskToRun = Some UPDATE_TASK_LIST, ms = word_of_int (g_updateTimeSec g * 1000)\<rparr>]
     else run_body api cb UPDATE_TASK_LIST (g, w) = (Ret (), (g, w))"
proof -
  have add: "queueMessages (w_queue (g_worker (fold AddTask ts h))) = queueMessages (w_queue (g_worker h)) @ map CreateTask ts
      \<and> h_list (w_handler (g_worker (fold AddTask ts h))) = h_list (w_handler (g_worker h))" for ts h
    by (induction ts arbitrary: h) (simp_all add: AddTask_def EnqueueTask_def Push_def)
  then show ?thesis
    using assms
    by (auto simp: UpdateTasksTask_def AddTaskAfterTimeOut_def EnqueueTaskAfterTimeOut_def add_deferred_def
        update_delay_def Let_def)
qed

section \<open>Stopping the client\<close>

lemma AddTask_pc [simp]:
  "w_pc (g_worker (AddTask t g)) = w_pc (g_worker g)" "w_pc (g_worker (AddTaskAfterTimeOut t d g)) = w_pc (g_worker g)"
  "w_pc (g_worker (fold AddTask ts g)) = w_pc (g_worker g)"
proof -
  show one: "w_pc (g_worker (AddTask t g)) = w_pc (g_worker g)" for t g by (simp add: AddTask_def EnqueueTask_def)
  show "w_pc (g_worker (AddTaskAfterTimeOut t d g)) = w_pc (g_worker g)"
    by (simp add: AddTaskAfterTimeOut_def EnqueueTaskAfterTimeOut_def)
  show "w_pc (g_worker (fold AddTask ts g)) = w_pc (g_worker g)" by (induction ts arbitrary: g) (simp_all add: one)
qed

lemma run_body_pc:
  "w_pc (g_worker (fst (snd (run_body api cb x (g, w))))) = w_pc (g_worker g)
   \<and> g_isRun (fst (snd (run_body api cb x (g, w)))) = g_isRun g"
  by (cases x)
    (auto simp: UpdateTasksTask_def HandshakeTask_def DownloadTorrentTask_def UpdateTorrentTask_def CreateTorrentTask_def
      Let_def split_def split: outcome.split)

lemma Work_step_pc: "Work_step t = Some t1 \<Longrightarrow> w_pc t1 \<noteq> WNone"
  by (auto simp: Work_step_def split: wpc.splits option.splits prod.splits sum.splits list.splits if_splits)

text \<open>A client that runs keeps its threads.\<close>

lemma client_alive:
  assumes "g_step srt api cb l (h, v) = Some (Ret (), (h1, v1))" and "g_isRun h \<and> w_pc (g_worker h) \<noteq> WNone" and "l \<noteq> GStop"
  shows "g_isRun h1 \<and> w_pc (g_worker h1) \<noteq> WNone"
proof (cases l)
  case GWork
  with assms(1) obtain t where t: "Work_step (g_worker h) = Some t" by (auto simp: Client_work_def split: option.splits)
  have "fst (snd (run_body api cb x (h\<lparr>g_worker := t\<rparr>, v))) = h1 \<or> h1 = h\<lparr>g_worker := t\<rparr>" if "x = last (w_log t)" for x
    using GWork assms(1) t that by (auto simp: Client_work_def split: if_splits)
  with run_body_pc [of api cb "last (w_log t)" "h\<lparr>g_worker := t\<rparr>" v] Work_step_pc [OF t] assms(2)
  show ?thesis by auto
next
  case (GHandler cur)
  with assms(1) obtain t where "Handler_step srt cur (g_worker h) = Some t" "h1 = h\<lparr>g_worker := t\<rparr>"
    by (auto split: option.splits)
  with assms(2) show ?thesis by (auto simp: Handler_step_def split_def Let_def split: dpc.splits)
qed (use assms in \<open>auto simp: Client_Start_def IsRun_def SetUpdateTaskListTime_def\<close>)

lemma client_started:
  "g_isRun (Client_Start (grpc_new h p)) \<and> w_pc (g_worker (Client_Start (grpc_new h p))) \<noteq> WNone"
  by (simp add: Client_Start_def IsRun_def grpc_new_def Run_def wt_IsRunning_def wt_init_def)

text \<open>A worker that was stopped between two batches runs the next queued task in three steps.\<close>

definition worker_steps :: "'a wt \<Rightarrow> 'a wt \<Rightarrow> bool" where
  "worker_steps t t3 \<longleftrightarrow> (\<exists>t1 t2. Work_step t = Some t1 \<and> w_log t1 = w_log t \<and> Work_step t1 = Some t2 \<and> w_log t2 = w_log t
     \<and> Work_step t2 = Some t3)"

lemma Stop_next:
  assumes "w_pc t = WLoop" and "\<not> w_isRunning t" and "queueMessages (w_queue t) = Some x # q"
  shows "\<exists>t3. worker_steps t t3 \<and> w_log t3 = w_log t @ [x]"
proof -
  define t3 where "t3 = run_task (Some x) (t\<lparr>w_queue := (w_queue t)\<lparr>queueMessages := q\<rparr>, w_pc := WDrain\<rparr>)"
  have "Work_step t = Some (t\<lparr>w_pc := WDrain\<rparr>)" "Work_step (t\<lparr>w_pc := WDrain\<rparr>) = Some (t\<lparr>w_pc := WPop\<rparr>)"
    "Work_step (t\<lparr>w_pc := WPop\<rparr>) = Some t3"
    using assms by (simp_all add: Work_step_def wt_IsRunning_def IsEmpty_def Pop_def t3_def)
  then have "worker_steps t t3" by (auto simp: worker_steps_def)
  moreover have "w_log t3 = w_log t @ [x]" by (simp add: t3_def)
  ultimately show ?thesis by blast
qed

text \<open>A client that is stopped with a task queued crashes: \<open>Stop\<close> destroys the stub at once, but the worker
  still runs what is queued, and every task other than a poll uses the stub.\<close>

lemma stopped_client_crashes:
  assumes "g_isRun g" and "w_pc (g_worker g) = WLoop" and "queueMessages (w_queue (g_worker g)) = Some x # q"
    and "x \<in> {MAKE_HANDSHAKE, DOWNLOAD_TORRENT, GENERATE_MAGENT, UPDATE_TORRENT_STATUS}"
    and "cb_GetClientUUID cb w = Ret uuid"
  shows "\<exists>s. g_run srt api cb [GStop, GWork, GWork, GWork] (g, w) = Some (Undefined, s)"
proof -
  have crash: "run_body api cb x (h, w) = (Undefined, (h, w))" if "\<not> g_stub h" for h
    using that assms(4,5)
    by (auto simp: HandshakeTask_def DownloadTorrentTask_def CreateTorrentTask_def UpdateTorrentTask_def)
  define t where "t = Stop (g_worker g)"
  have t: "w_pc t = WLoop" "\<not> w_isRunning t" "queueMessages (w_queue t) = Some x # (q @ [None])"
    using assms(2,3) by (simp_all add: t_def Stop_def Let_def Push_def)
  obtain t3 where t3: "worker_steps t t3" "w_log t3 = w_log t @ [x]" using Stop_next [OF t] by blast
  obtain g1 where g1: "Client_Stop g = g1" "g_worker g1 = t" "\<not> g_stub g1"
    using assms(1) by (simp add: Client_Stop_def IsRun_def t_def)
  have "g_run srt api cb [GStop, GWork, GWork, GWork] (g, w) = Some (Undefined, (g1\<lparr>g_worker := t3\<rparr>, w))"
    using g1 t3 crash [of "g1\<lparr>g_worker := t3\<rparr>"] by (auto simp: worker_steps_def Client_work_def)
  then show ?thesis by blast
qed

text \<open>A client cannot be started again: after it was started and stopped, the next \<open>Start\<close> starts the
  worker over its old threads, which terminates the process.\<close>

lemma client_restart_terminates:
  assumes "GStop \<notin> set ls"
    and "g_run srt api cb (GStart # ls) (grpc_new serverName port, w) = Some (Ret (), (g, w'))"
  shows "w_dead (g_worker (Client_Start (Client_Stop g)))"
proof -
  have "g_isRun g \<and> w_pc (g_worker g) \<noteq> WNone"
    if "g_run srt api cb ls (h, v) = Some (Ret (), (g, w'))" "g_isRun h \<and> w_pc (g_worker h) \<noteq> WNone" "GStop \<notin> set ls" for ls h v
    using that
  proof (induction ls arbitrary: h v)
    case (Cons l ls)
    then obtain h1 v1 where s: "g_step srt api cb l (h, v) = Some (Ret (), (h1, v1))"
      "g_run srt api cb ls (h1, v1) = Some (Ret (), (g, w'))"
      by (auto split: option.splits prod.splits outcome.splits)
    with Cons client_alive [OF s(1)] show ?case by auto
  qed simp
  then have "g_isRun g \<and> w_pc (g_worker g) \<noteq> WNone"
    using assms by (simp add: client_started)
  then show ?thesis
    by (simp add: Client_Stop_def Client_Start_def IsRun_def AddTask_def EnqueueTask_def Run_def wt_IsRunning_def Stop_def
        Let_def)
qed

section \<open>The contract of the callbacks\<close>

text \<open>
  What the client relies on: server calls and callbacks keep an invariant of the world, a download callback
  as long as the reports it sends do. Then every task, and every run of the client, keeps it.
\<close>

locale rpc_client =
  fixes api :: "'w stub_api"
    and cb :: "'w callback_api"
    and I :: "'w \<Rightarrow> bool"
  assumes inv_Handshake: "I w \<Longrightarrow> I (snd (sa_Handshake api u w))"
    and inv_GetTaskList: "I w \<Longrightarrow> I (snd (sa_GetTaskList api di w))"
    and inv_GetInfoForGenerate: "I w \<Longrightarrow> I (snd (sa_GetInfoForGenerateTorrents api di w))"
    and inv_GetTorrentsForDownload: "I w \<Longrightarrow> I (snd (sa_GetTorrentsForDownload api di w))"
    and inv_GetTorrentsForUpdate: "I w \<Longrightarrow> I (snd (sa_GetTorrentsForUpdateStatus api di w))"
    and inv_report: "I w \<Longrightarrow> I (snd (sa_UpdateTorrentStatus api di ti w))"
    and inv_generate: "I w \<Longrightarrow> I (snd (cb_GenerateTorrent cb ti w))"
    and inv_download: "(\<And>t v. I v \<Longrightarrow> I (snd (send t v))) \<Longrightarrow> I w \<Longrightarrow> I (snd (cb_DownloadTorrent cb send ti w))"
    and inv_update: "I w \<Longrightarrow> I (snd (cb_UpdateTorrentInfo cb ti w))"
begin

lemma inv_send: "I w \<Longrightarrow> I (snd (UpdateTorrentStatus api g ti w))"
  by (simp add: UpdateTorrentStatus_def inv_report)

lemma inv_poll: "I w \<Longrightarrow> I (snd (snd (UpdateTasksTask api (g, w))))"
  by (simp add: UpdateTasksTask_def Let_def split_def inv_GetTaskList)

lemma inv_shake: "I w \<Longrightarrow> I (snd (snd (HandshakeTask api cb (g, w))))"
  by (simp add: HandshakeTask_def Let_def split_def inv_Handshake split: outcome.split)

lemma inv_downloads: "I w \<Longrightarrow> I (snd (snd (DownloadTorrentTask api cb (g, w))))"
proof -
  assume I: "I w"
  let ?r = "sa_GetTorrentsForDownload api (GetClientInfo g) w"
  have "I (snd (DownloadTorrents cb (UpdateTorrentStatus api g) (fst (fst ?r)) (snd ?r)))"
    unfolding DownloadTorrents_def
    by (rule for_each_inv) (auto intro: inv_download inv_send inv_GetTorrentsForDownload I)
  with I show ?thesis
    by (cases "DownloadTorrents cb (UpdateTorrentStatus api g) (fst (fst ?r)) (snd ?r)")
      (auto simp: DownloadTorrentTask_def split_def Let_def split: outcome.split)
qed

lemma inv_generates: "I w \<Longrightarrow> I (snd (snd (CreateTorrentTask api cb (g, w))))"
proof -
  assume I: "I w"
  let ?r = "sa_GetInfoForGenerateTorrents api (GetClientInfo g) w"
  have "I (snd (GenerateTorrents cb (fst (fst ?r)) (snd ?r)))"
    unfolding GenerateTorrents_def
    by (rule for_each_inv) (auto intro: inv_generate inv_GetInfoForGenerate I)
  with I show ?thesis
    by (cases "GenerateTorrents cb (fst (fst ?r)) (snd ?r)")
      (auto simp: CreateTorrentTask_def split_def Let_def split: outcome.split)
qed

lemma inv_updates: "I w \<Longrightarrow> I (snd (snd (UpdateTorrentTask api cb (g, w))))"
proof -
  assume I: "I w"
  let ?r = "sa_GetTorrentsForUpdateStatus api (GetClientInfo g) w"
  have "I (snd (for_each (\<lambda>ti w. and_then (cb_UpdateTorrentInfo cb ti w) (UpdateTorrentStatus api g)) ts (snd ?r)))" for ts
    by (rule for_each_inv) (auto intro!: and_then_inv inv_update inv_send inv_GetTorrentsForUpdate I)
  with I show ?thesis by (simp add: UpdateTorrentTask_def split_def Let_def)
qed

lemma inv_body: "I w \<Longrightarrow> I (snd (snd (run_body api cb x (g, w))))"
  by (cases x) (simp_all add: inv_poll inv_shake inv_downloads inv_generates inv_updates)

lemma inv_step: "g_step srt api cb l (g, w) = Some (r, (g1, w1)) \<Longrightarrow> I w \<Longrightarrow> I w1"
proof (cases l)
  case GWork
  assume step: "g_step srt api cb l (g, w) = Some (r, (g1, w1))" and I: "I w"
  with GWork obtain t where "w1 = w \<or> run_body api cb (last (w_log t)) (g\<lparr>g_worker := t\<rparr>, w) = (r, (g1, w1))"
    by (fastforce simp: Client_work_def split: option.splits if_splits)
  with inv_body [OF I] I show ?thesis by (metis snd_conv)
qed (auto split: option.splits)

lemma inv_run: "g_run srt api cb ls (g, w) = Some (r, (g1, w1)) \<Longrightarrow> I w \<Longrightarrow> I w1"
proof (induction ls arbitrary: g w)
  case (Cons l ls)
  obtain r' h v where s: "g_step srt api cb l (g, w) = Some (r', (h, v))"
    using Cons.prems(1) by (cases "g_step srt api cb l (g, w)") auto
  with inv_step [OF s Cons.prems(2)] Cons show ?case by (cases r') auto
qed simp

end

end
