(* ===== verification/Torrent_Info.thy ===== *)
theory Torrent_Info
  imports Prelude
begin

text \<open>
  \<^verbatim>\<open>Daemon/src/torrent_info.{h,cpp}\<close>: the description of one torrent. A \<^verbatim>\<open>TorrentInfo\<close> object is
  the record \<open>tinfo\<close>; every member function takes the object's own mutex for its whole body, so
  each is one atomic operation on the record. \<^verbatim>\<open>tProgress\<close> is a \<^verbatim>\<open>uint\<close>, written through a
  \<^verbatim>\<open>const int &\<close> parameter: the conversion wraps, as \<open>SetProgress\<close> says.
\<close>

datatype tstatus =
    UNKNOWN
  | DOWNLOADING
  | DOWNLOADED
  | DOWNLOADING_ERROR
  | GENERATING
  | GENERATED
  | GENERATION_ERROR
  | PAUSED

record tinfo =
  tId :: string
  tLink :: string
  tPath :: string
  pPath :: string
  tStatus :: tstatus
  tProgress :: u32

definition TorrentInfo :: "string \<Rightarrow> tinfo" where
  "TorrentInfo torrentId =
     \<lparr>tId = torrentId, tLink = '''', tPath = '''', pPath = '''', tStatus = UNKNOWN, tProgress = 0\<rparr>"

definition GetId :: "tinfo \<Rightarrow> string" where
  "GetId i = tId i"

definition SetLink :: "string \<Rightarrow> tinfo \<Rightarrow> tinfo" where
  "SetLink link i = i\<lparr>tLink := link\<rparr>"

definition GetLink :: "tinfo \<Rightarrow> string" where
  "GetLink i = tLink i"

definition SetPathToProject :: "string \<Rightarrow> tinfo \<Rightarrow> tinfo" where
  "SetPathToProject path i = i\<lparr>pPath := path\<rparr>"

definition GetPathToProject :: "tinfo \<Rightarrow> string" where
  "GetPathToProject i = pPath i"

definition SetPathToTFile :: "string \<Rightarrow> tinfo \<Rightarrow> tinfo" where
  "SetPathToTFile path i = i\<lparr>tPath := path\<rparr>"

definition GetPathToTFile :: "tinfo \<Rightarrow> string" where
  "GetPathToTFile i = tPath i"

definition SetStatus :: "tstatus \<Rightarrow> tinfo \<Rightarrow> tinfo" where
  "SetStatus st i = i\<lparr>tStatus := st\<rparr>"

definition GetStatus :: "tinfo \<Rightarrow> tstatus" where
  "GetStatus i = tStatus i"

definition SetProgress :: "int \<Rightarrow> tinfo \<Rightarrow> tinfo" where
  "SetProgress progress i = i\<lparr>tProgress := word_of_int progress\<rparr>"

definition GetProgress :: "tinfo \<Rightarrow> u32" where
  "GetProgress i = tProgress i"

text \<open>\<^verbatim>\<open>Copy\<close> copies field by field through the getters of the source object.\<close>

definition Copy :: "tinfo \<Rightarrow> tinfo \<Rightarrow> tinfo" where
  "Copy this info = this
     \<lparr>tId := GetId info,
      tLink := GetLink info,
      tPath := GetPathToTFile info,
      pPath := GetPathToProject info,
      tStatus := GetStatus info,
      tProgress := GetProgress info\<rparr>"

text \<open>
  The calls of \<open>Copy\<close> one by one. The mutex of the source is free between them, so \<open>Copy\<close> is atomic only for a
  source nobody writes to; theory \<open>Torrent_Jobs\<close> lets other threads act between the calls.
\<close>

definition copy_calls :: "(tinfo \<Rightarrow> tinfo \<Rightarrow> tinfo) list" where
  "copy_calls =
     [\<lambda>info this. this\<lparr>tId := GetId info\<rparr>,
      \<lambda>info this. this\<lparr>tLink := GetLink info\<rparr>,
      \<lambda>info this. this\<lparr>tPath := GetPathToTFile info\<rparr>,
      \<lambda>info this. this\<lparr>pPath := GetPathToProject info\<rparr>,
      \<lambda>info this. this\<lparr>tStatus := GetStatus info\<rparr>,
      \<lambda>info this. this\<lparr>tProgress := GetProgress info\<rparr>]"

lemma Copy_calls: "Copy this info = fold (\<lambda>call. call info) copy_calls this"
  by (simp add: Copy_def copy_calls_def)

text \<open>The copy constructor runs \<open>Copy\<close> on an object whose strings are empty.\<close>

definition TorrentInfo_copy :: "tinfo \<Rightarrow> tinfo" where
  "TorrentInfo_copy info = Copy (TorrentInfo '''') info"

lemmas getters [simp] =
  GetId_def GetLink_def GetPathToProject_def GetPathToTFile_def GetStatus_def GetProgress_def

lemmas setters =
  SetLink_def SetPathToProject_def SetPathToTFile_def SetStatus_def SetProgress_def

text \<open>The note in the header asks every new member to be added to \<^verbatim>\<open>Copy\<close>: none is missing.\<close>

lemma Copy_all [simp]: "Copy this info = info"
  by (simp add: Copy_def)

lemma TorrentInfo_copy_eq [simp]: "TorrentInfo_copy info = info"
  by (simp add: TorrentInfo_copy_def)

lemma TorrentInfo_sel [simp]:
  "tId (TorrentInfo k) = k" "tLink (TorrentInfo k) = ''''" "tPath (TorrentInfo k) = ''''"
  "pPath (TorrentInfo k) = ''''" "tStatus (TorrentInfo k) = UNKNOWN" "tProgress (TorrentInfo k) = 0"
  by (simp_all add: TorrentInfo_def)

section \<open>Updates that keep the identity\<close>

text \<open>
  No setter writes \<^verbatim>\<open>tId\<close>: an update through the public interface keeps the id. The registry's
  invariant (an object is filed under its own id) rests on it.
\<close>

definition keeps_id :: "(tinfo \<Rightarrow> tinfo) \<Rightarrow> bool" where
  "keeps_id f \<longleftrightarrow> (\<forall>i. tId (f i) = tId i)"

lemma keeps_id_setters [simp, intro]:
  "keeps_id (SetLink l)" "keeps_id (SetPathToProject p)" "keeps_id (SetPathToTFile p)"
  "keeps_id (SetStatus st)" "keeps_id (SetProgress n)"
  by (simp_all add: keeps_id_def setters)

lemma keeps_id_comp [simp, intro]: "keeps_id f \<Longrightarrow> keeps_id g \<Longrightarrow> keeps_id (f \<circ> g)"
  by (simp add: keeps_id_def)

lemma keeps_idD: "keeps_id f \<Longrightarrow> tId (f i) = tId i"
  by (simp add: keeps_id_def)

lemma setter_sels [simp]:
  "tStatus (SetLink l i) = tStatus i" "tProgress (SetLink l i) = tProgress i" "tLink (SetLink l i) = l"
  "tStatus (SetPathToProject p i) = tStatus i" "tProgress (SetPathToProject p i) = tProgress i"
  "tLink (SetPathToProject p i) = tLink i" "pPath (SetPathToProject p i) = p"
  "tStatus (SetPathToTFile p i) = tStatus i" "tProgress (SetPathToTFile p i) = tProgress i"
  "tLink (SetPathToTFile p i) = tLink i" "tPath (SetPathToTFile p i) = p"
  "tStatus (SetStatus st i) = st" "tProgress (SetStatus st i) = tProgress i"
  "tLink (SetStatus st i) = tLink i" "tPath (SetStatus st i) = tPath i" "pPath (SetStatus st i) = pPath i"
  "tStatus (SetProgress n i) = tStatus i" "tProgress (SetProgress n i) = word_of_int n"
  "tLink (SetProgress n i) = tLink i" "tPath (SetProgress n i) = tPath i" "pPath (SetProgress n i) = pPath i"
  "pPath (SetLink l i) = pPath i" "tPath (SetLink l i) = tPath i"
  "tPath (SetPathToProject p i) = tPath i" "pPath (SetPathToTFile p i) = pPath i"
  by (simp_all add: setters)

lemma setter_ids [simp]:
  "tId (SetLink l i) = tId i" "tId (SetPathToProject p i) = tId i" "tId (SetPathToTFile p i) = tId i"
  "tId (SetStatus st i) = tId i" "tId (SetProgress n i) = tId i"
  by (simp_all add: setters)

end
