(* ===== verification/Std_Map.thy ===== *)
theory Std_Map
  imports Prelude
begin

text \<open>
  \<^verbatim>\<open>std::map\<close> as the code uses it: \<^verbatim>\<open>find\<close>, \<^verbatim>\<open>operator[]\<close> / \<^verbatim>\<open>emplace\<close>, \<^verbatim>\<open>erase\<close> and iteration in key
  order. A map is an association list whose keys are strictly ascending (\<open>map_ok\<close>), so the
  order of iteration, which \<^verbatim>\<open>Torrent::GetIdByName\<close> depends on, is the order of the list.
  The \<^theory_text>\<open>locale\<close> \<open>ordered_map\<close> is the contract its clients rely on.
\<close>

type_synonym ('k, 'v) smap = "('k \<times> 'v) list"

definition map_ok :: "('k::linorder, 'v) smap \<Rightarrow> bool" where
  "map_ok m \<longleftrightarrow> sorted_wrt (<) (map fst m)"

abbreviation map_find :: "('k, 'v) smap \<Rightarrow> 'k \<Rightarrow> 'v option" where
  "map_find m k \<equiv> map_of m k"

fun map_put :: "'k::linorder \<Rightarrow> 'v \<Rightarrow> ('k, 'v) smap \<Rightarrow> ('k, 'v) smap" where
  "map_put k v [] = [(k, v)]"
| "map_put k v ((k', v') # m) =
     (if k < k' then (k, v) # (k', v') # m
      else if k = k' then (k, v) # m
      else (k', v') # map_put k v m)"

fun map_erase :: "'k \<Rightarrow> ('k, 'v) smap \<Rightarrow> ('k, 'v) smap" where
  "map_erase k [] = []"
| "map_erase k ((k', v') # m) = (if k = k' then m else (k', v') # map_erase k m)"

text \<open>The first entry in key order that satisfies a predicate, as a range-for with \<^verbatim>\<open>return\<close>.\<close>

fun map_first :: "('v \<Rightarrow> bool) \<Rightarrow> ('k, 'v) smap \<Rightarrow> 'k option" where
  "map_first P [] = None"
| "map_first P ((k, v) # m) = (if P v then Some k else map_first P m)"

lemma keys_map_put: "set (map fst (map_put k v m)) = insert k (set (map fst m))"
  by (induction k v m rule: map_put.induct) auto

lemma map_ok_Nil [simp]: "map_ok []"
  by (simp add: map_ok_def)

lemma map_ok_Cons:
  "map_ok ((k, v) # m) \<longleftrightarrow> (\<forall>k' \<in> set (map fst m). k < k') \<and> map_ok m"
  by (simp add: map_ok_def)

lemma map_ok_put [simp, inv_intros]: "map_ok m \<Longrightarrow> map_ok (map_put k v m)"
proof (induction k v m rule: map_put.induct)
  case (2 k v k' v' m)
  then show ?case
    by (auto simp: map_ok_Cons keys_map_put simp del: set_map)
qed (simp add: map_ok_def)

lemma map_find_put: "map_ok m \<Longrightarrow> map_find (map_put k v m) q = (if q = k then Some v else map_find m q)"
proof (induction k v m rule: map_put.induct)
  case (2 k v k' v' m)
  have absent: "k < k' \<Longrightarrow> map_of m k = None"
    using "2.prems" by (force simp: map_ok_Cons map_of_eq_None_iff)
  show ?case
    using 2 by (auto simp: map_ok_Cons)
qed auto

lemma keys_map_erase: "map_ok m \<Longrightarrow> set (map fst (map_erase k m)) = set (map fst m) - {k}"
  by (induction k m rule: map_erase.induct) (force simp: map_ok_Cons)+

lemma map_ok_erase [simp, inv_intros]: "map_ok m \<Longrightarrow> map_ok (map_erase k m)"
  by (induction k m rule: map_erase.induct)
    (auto simp: map_ok_Cons keys_map_erase simp del: set_map)

lemma map_find_erase: "map_ok m \<Longrightarrow> map_find (map_erase k m) q = (if q = k then None else map_find m q)"
proof (induction k m rule: map_erase.induct)
  case (2 k k' v' m)
  have absent: "map_of m k' = None"
    using "2.prems" by (force simp: map_ok_Cons map_of_eq_None_iff)
  show ?case
    using 2 absent by (auto simp: map_ok_Cons)
qed simp

lemma map_first_None: "map_first P m = None \<longleftrightarrow> (\<forall>(k, v) \<in> set m. \<not> P v)"
  by (induction P m rule: map_first.induct) auto

text \<open>The first match is the one with the least key.\<close>

lemma map_first_Some:
  assumes "map_ok m" and "map_first P m = Some k"
  shows "(\<exists>v. map_find m k = Some v \<and> P v) \<and> (\<forall>k' v'. map_find m k' = Some v' \<and> P v' \<longrightarrow> k \<le> k')"
  using assms
proof (induction P m rule: map_first.induct)
  case (2 P k0 v0 m)
  show ?case
  proof (cases "P v0")
    case True
    with "2.prems" have k: "k = k0" by simp
    have "k0 \<le> k'" if "map_of ((k0, v0) # m) k' = Some v'" for k' v'
    proof (cases "k' = k0")
      case False
      with that have "k' \<in> set (map fst m)"
        by (metis domI dom_map_of_conv_image_fst list.set_map map_of_Cons_code(2))
      with "2.prems"(1) show ?thesis by (simp only: map_ok_Cons) (blast intro: less_imp_le)
    qed simp
    with True k show ?thesis by auto
  next
    case False
    from "2.prems"(1) have ok: "map_ok m" and lt: "\<forall>k' \<in> set (map fst m). k0 < k'"
      by (blast dest: map_ok_Cons [THEN iffD1])+
    from False "2.prems" have first: "map_first P m = Some k" by simp
    note IH = "2.IH" [OF False ok first]
    from IH obtain v where v: "map_of m k = Some v" "P v" by blast
    then have "k \<in> set (map fst m)"
      by (metis domI dom_map_of_conv_image_fst list.set_map)
    with lt have "k \<noteq> k0" by blast
    with IH v False show ?thesis by auto
  qed
qed simp

section \<open>The contract\<close>

locale ordered_map =
  fixes find :: "'m \<Rightarrow> 'k::linorder \<Rightarrow> 'v option"
    and put :: "'k \<Rightarrow> 'v \<Rightarrow> 'm \<Rightarrow> 'm"
    and erase :: "'k \<Rightarrow> 'm \<Rightarrow> 'm"
    and first :: "('v \<Rightarrow> bool) \<Rightarrow> 'm \<Rightarrow> 'k option"
    and ok :: "'m \<Rightarrow> bool"
    and empty :: "'m"
  assumes find_empty: "find empty k = None"
    and ok_empty: "ok empty"
    and find_put: "ok m \<Longrightarrow> find (put k v m) q = (if q = k then Some v else find m q)"
    and find_erase: "ok m \<Longrightarrow> find (erase k m) q = (if q = k then None else find m q)"
    and ok_put: "ok m \<Longrightarrow> ok (put k v m)"
    and ok_erase: "ok m \<Longrightarrow> ok (erase k m)"
    and first_least: "ok m \<Longrightarrow> first P m = Some k \<Longrightarrow>
      (\<exists>v. find m k = Some v \<and> P v) \<and> (\<forall>k' v'. find m k' = Some v' \<and> P v' \<longrightarrow> k \<le> k')"
    and first_none: "ok m \<Longrightarrow> first P m = None \<Longrightarrow> find m k = Some v \<Longrightarrow> \<not> P v"
begin

lemma first_found:
  assumes "ok m" and "find m k = Some v" and "P v"
  obtains k' v' where "first P m = Some k'" and "find m k' = Some v'" and "P v'" and "k' \<le> k"
proof (cases "first P m")
  case None
  with assms first_none show ?thesis by blast
next
  case (Some k')
  with assms first_least [OF assms(1) Some] that show ?thesis by blast
qed

lemma first_unique:
  assumes "ok m" and "find m k = Some v" and "P v"
    and "\<And>k' v'. find m k' = Some v' \<Longrightarrow> P v' \<Longrightarrow> k' = k"
  shows "first P m = Some k"
  using assms by (metis first_found)

lemma put_put_same:
  assumes "ok m"
  shows "find (put k w (put k v m)) = find (put k w m)"
  using assms by (simp add: fun_eq_iff find_put ok_put)

end

interpretation std_map: ordered_map map_of map_put map_erase map_first map_ok "[]"
proof unfold_locales
  fix m :: "('a, 'b) smap" and P k v
  assume "map_ok m" and none: "map_first P m = None" and found: "map_of m k = Some v"
  from found have "(k, v) \<in> set m" by (rule map_of_SomeD)
  with none show "\<not> P v" by (auto simp: map_first_None)
next
  fix m :: "('a, 'b) smap" and P k
  assume "map_ok m" and "map_first P m = Some k"
  then show "(\<exists>v. map_of m k = Some v \<and> P v) \<and> (\<forall>k' v'. map_of m k' = Some v' \<and> P v' \<longrightarrow> k \<le> k')"
    by (rule map_first_Some)
qed (simp_all add: map_find_put map_find_erase)

end
