(* ===== verification/Torrent_Info_Manager.thy ===== *)
theory Torrent_Info_Manager
  imports Torrent_Info Std_Map
begin

text \<open>
  \<^verbatim>\<open>Daemon/src/torrent_info_manager.{h,cpp}\<close>: the registry of torrents. \<^verbatim>\<open>infoList\<close> maps an id to a
  \<^verbatim>\<open>shared_ptr\<close>, and callers write through the pointers the registry hands out, so aliasing
  matters: the model keeps an explicit heap of \<open>tinfo\<close> objects, and a \<^verbatim>\<open>shared_ptr\<close> is an address.
  \<open>Get\<close> on an unknown id allocates an object that is in no list: what is written to it is lost.
  The \<^theory_text>\<open>locale\<close> \<open>info_store\<close> is what \<^verbatim>\<open>Torrent\<close> relies on.
\<close>

record mgr =
  m_heap :: "nat \<Rightarrow> tinfo option"
  m_next :: nat
  m_list :: "(string, nat) smap"

definition mgr_init :: mgr where
  "mgr_init = \<lparr>m_heap = (\<lambda>_. None), m_next = 0, m_list = []\<rparr>"

text \<open>\<^verbatim>\<open>std::make_shared<TorrentInfo>\<close>: a fresh address.\<close>

definition make_shared :: "tinfo \<Rightarrow> mgr \<Rightarrow> nat \<times> mgr" where
  "make_shared info s =
     (m_next s, s\<lparr>m_heap := (m_heap s)(m_next s := Some info), m_next := Suc (m_next s)\<rparr>)"

definition Create_info :: "tinfo \<Rightarrow> mgr \<Rightarrow> nat \<times> mgr" where
  "Create_info info s =
     (case map_find (m_list s) (GetId info) of
        None \<Rightarrow>
          (let (infoPtr, s1) = make_shared (TorrentInfo_copy info) s
           in (infoPtr, s1\<lparr>m_list := map_put (GetId info) infoPtr (m_list s1)\<rparr>))
      | Some ptr \<Rightarrow> (ptr, s))"

definition Create :: "string \<Rightarrow> mgr \<Rightarrow> nat \<times> mgr" where
  "Create torrentId s = Create_info (TorrentInfo torrentId) s"

text \<open>\<open>modify p f\<close> is a call of a setter \<open>f\<close> through the pointer \<open>p\<close>; \<open>deref\<close> reads the object.\<close>

definition modify :: "nat \<Rightarrow> (tinfo \<Rightarrow> tinfo) \<Rightarrow> mgr \<Rightarrow> mgr" where
  "modify p f s = s\<lparr>m_heap := (m_heap s)(p := map_option f (m_heap s p))\<rparr>"

definition deref :: "mgr \<Rightarrow> nat \<Rightarrow> tinfo option" where
  "deref s p = m_heap s p"

definition Update :: "tinfo \<Rightarrow> mgr \<Rightarrow> mgr" where
  "Update info s =
     (case map_find (m_list s) (GetId info) of
        None \<Rightarrow> s
      | Some ptr \<Rightarrow> modify ptr (\<lambda>this. Copy this info) s)"

definition Get :: "string \<Rightarrow> mgr \<Rightarrow> nat \<times> mgr" where
  "Get torrentId s =
     (case map_find (m_list s) torrentId of
        Some ptr \<Rightarrow> (ptr, s)
      | None \<Rightarrow> make_shared (TorrentInfo torrentId) s)"

section \<open>Well-formed registries and their abstract view\<close>

definition mgr_ok :: "mgr \<Rightarrow> bool" where
  "mgr_ok s \<longleftrightarrow> map_ok (m_list s)
     \<and> (\<forall>k p. map_find (m_list s) k = Some p \<longrightarrow> (\<exists>i. m_heap s p = Some i \<and> tId i = k))
     \<and> (\<forall>p. m_heap s p \<noteq> None \<longrightarrow> p < m_next s)"

definition bound :: "mgr \<Rightarrow> string \<Rightarrow> nat \<Rightarrow> bool" where
  "bound s k p \<longleftrightarrow> map_find (m_list s) k = Some p"

text \<open>What a reader of the registry can observe: the torrent filed under each id.\<close>

definition view :: "mgr \<Rightarrow> string \<Rightarrow> tinfo option" where
  "view s k = (case map_find (m_list s) k of None \<Rightarrow> None | Some p \<Rightarrow> m_heap s p)"

lemma mgr_ok_init [simp, inv_intros]: "mgr_ok mgr_init"
  by (simp add: mgr_ok_def mgr_init_def)

lemma view_init [simp]: "view mgr_init k = None"
  by (simp add: view_def mgr_init_def)

lemma mgr_ok_entry:
  assumes "mgr_ok s" and "map_find (m_list s) k = Some p"
  obtains i where "m_heap s p = Some i" and "tId i = k" and "p < m_next s"
  using assms by (force simp: mgr_ok_def)

lemma mgr_ok_inj:
  assumes "mgr_ok s" and "map_find (m_list s) k = Some p" and "map_find (m_list s) k' = Some p"
  shows "k = k'"
  using assms by (metis mgr_ok_entry option.inject)

lemma mgr_ok_fresh: "mgr_ok s \<Longrightarrow> map_find (m_list s) k \<noteq> Some (m_next s)"
  by (metis less_irrefl mgr_ok_entry)

lemma mgr_ok_list [simp]: "mgr_ok s \<Longrightarrow> map_ok (m_list s)"
  by (simp add: mgr_ok_def)

lemma mgr_ok_make_shared:
  "mgr_ok s \<Longrightarrow> mgr_ok (snd (make_shared i s))"
  by (auto simp: mgr_ok_def make_shared_def less_Suc_eq)

lemma view_make_shared: "mgr_ok s \<Longrightarrow> view (snd (make_shared i s)) = view s"
  by (auto simp: fun_eq_iff view_def make_shared_def mgr_ok_fresh split: option.splits)

lemma mgr_ok_modify:
  assumes "mgr_ok s" and "keeps_id f"
  shows "mgr_ok (modify p f s)"
proof -
  have "\<exists>i. m_heap (modify p f s) q = Some i \<and> tId i = k" if found: "map_of (m_list s) k = Some q" for k q
  proof -
    obtain i where "m_heap s q = Some i" and "tId i = k"
      using mgr_ok_entry [OF assms(1) found] .
    with keeps_idD [OF assms(2), of i] show ?thesis by (auto simp: modify_def)
  qed
  with assms(1) show ?thesis by (simp add: mgr_ok_def modify_def)
qed

lemma view_modify_bound:
  assumes "mgr_ok s" and "bound s k p"
  shows "view (modify p f s) = (view s)(k := map_option f (view s k))"
proof
  fix q
  have other: "map_of (m_list s) q \<noteq> Some p" if "q \<noteq> k"
    using that assms mgr_ok_inj by (metis bound_def)
  show "view (modify p f s) q = ((view s)(k := map_option f (view s k))) q"
  proof (cases "q = k")
    case True
    with assms(2) show ?thesis by (simp add: view_def modify_def bound_def)
  next
    case False
    with other [OF False] show ?thesis by (auto simp: view_def modify_def split: option.splits)
  qed
qed

lemma view_modify_detached:
  "(\<And>k. \<not> bound s k p) \<Longrightarrow> view (modify p f s) = view s"
  by (auto simp: fun_eq_iff view_def modify_def bound_def split: option.splits)

lemma bound_modify [simp]: "bound (modify p f s) = bound s"
  by (simp add: fun_eq_iff bound_def modify_def)

lemma view_None: "mgr_ok s \<Longrightarrow> view s k = None \<longleftrightarrow> map_find (m_list s) k = None"
  by (auto simp: view_def split: option.splits elim: mgr_ok_entry)

lemma Get_known: "map_find (m_list s) k = Some p \<Longrightarrow> Get k s = (p, s)"
  by (simp add: Get_def)

lemma Get_unknown: "map_find (m_list s) k = None \<Longrightarrow> Get k s = make_shared (TorrentInfo k) s"
  by (simp add: Get_def)

lemma Create_known: "map_find (m_list s) k = Some p \<Longrightarrow> Create k s = (p, s)"
  by (simp add: Create_def Create_info_def)

lemma Create_new:
  "map_find (m_list s) k = None \<Longrightarrow> Create k s =
    (m_next s, (snd (make_shared (TorrentInfo k) s))\<lparr>m_list := map_put k (m_next s) (m_list s)\<rparr>)"
  by (simp add: Create_def Create_info_def make_shared_def)

lemma Create_law:
  assumes ok: "mgr_ok s"
  shows "mgr_ok (snd (Create k s)) \<and> bound (snd (Create k s)) k (fst (Create k s)) \<and>
    view (snd (Create k s)) = (view s)(k := Some (case view s k of None \<Rightarrow> TorrentInfo k | Some i \<Rightarrow> i))"
proof (cases "map_of (m_list s) k")
  case None
  let ?s = "snd (Create k s)"
  have list: "map_find (m_list ?s) q = (if q = k then Some (m_next s) else map_find (m_list s) q)" for q
    using ok by (simp add: Create_new [OF None] map_find_put)
  have heap: "m_heap ?s = (m_heap s)(m_next s := Some (TorrentInfo k))" "m_next ?s = Suc (m_next s)"
    by (simp_all add: Create_new [OF None] make_shared_def)
  have "mgr_ok ?s"
    unfolding mgr_ok_def
  proof (intro conjI allI impI)
    show "map_ok (m_list ?s)" using ok by (simp add: Create_new [OF None])
    show "\<exists>i. m_heap ?s p = Some i \<and> tId i = q" if "map_find (m_list ?s) q = Some p" for q p
    proof (cases "q = k")
      case True
      with that show ?thesis by (simp add: list heap)
    next
      case False
      with that have "map_find (m_list s) q = Some p" by (simp add: list)
      with ok show ?thesis by (force simp: heap elim: mgr_ok_entry)
    qed
    show "p < m_next ?s" if "m_heap ?s p \<noteq> None" for p
      using that ok by (auto simp: heap mgr_ok_def less_Suc_eq split: if_splits)
  qed
  moreover have "view ?s = (view s)(k := Some (TorrentInfo k))"
    using mgr_ok_fresh [OF ok] by (auto simp: fun_eq_iff view_def list heap split: option.splits)
  moreover have "view s k = None" by (simp add: view_def None)
  ultimately show ?thesis by (simp add: bound_def list) (simp add: Create_new [OF None])
next
  case (Some p)
  then obtain i where "m_heap s p = Some i" using ok mgr_ok_entry by blast
  with Some ok show ?thesis by (auto simp: Create_known bound_def view_def)
qed

text \<open>Looking up never changes an object that exists.\<close>

lemma mgr_ok_Get_keeps_load: "mgr_ok s \<Longrightarrow> deref s p = Some i \<Longrightarrow> deref (snd (Get k s)) p = Some i"
  by (auto simp: deref_def Get_def make_shared_def mgr_ok_def split: option.split)

section \<open>The contract the torrent engine relies on\<close>

locale info_store =
  fixes create :: "string \<Rightarrow> 's \<Rightarrow> 'p \<times> 's"
    and get :: "string \<Rightarrow> 's \<Rightarrow> 'p \<times> 's"
    and alter :: "'p \<Rightarrow> (tinfo \<Rightarrow> tinfo) \<Rightarrow> 's \<Rightarrow> 's"
    and load :: "'s \<Rightarrow> 'p \<Rightarrow> tinfo option"
    and obs :: "'s \<Rightarrow> string \<Rightarrow> tinfo option"
    and names :: "'s \<Rightarrow> string \<Rightarrow> 'p \<Rightarrow> bool"
    and ok :: "'s \<Rightarrow> bool"
  assumes ok_create: "ok s \<Longrightarrow> ok (snd (create k s))"
    and ok_get: "ok s \<Longrightarrow> ok (snd (get k s))"
    and ok_alter: "ok s \<Longrightarrow> keeps_id f \<Longrightarrow> ok (alter p f s)"
    and obs_create: "ok s \<Longrightarrow> obs (snd (create k s)) =
      (obs s)(k := Some (case obs s k of None \<Rightarrow> TorrentInfo k | Some i \<Rightarrow> i))"
    and obs_get: "ok s \<Longrightarrow> obs (snd (get k s)) = obs s"
    and names_create: "ok s \<Longrightarrow> names (snd (create k s)) k (fst (create k s))"
    and names_get: "ok s \<Longrightarrow> obs s k \<noteq> None \<Longrightarrow> names (snd (get k s)) k (fst (get k s))"
    and get_detached: "ok s \<Longrightarrow> obs s k = None \<Longrightarrow> \<not> names (snd (get k s)) q (fst (get k s))"
    and names_get_keeps: "ok s \<Longrightarrow> names s k p \<Longrightarrow> names (snd (get q s)) k p"
    and names_alter: "names (alter p f s) = names s"
    and obs_alter: "ok s \<Longrightarrow> names s k p \<Longrightarrow> obs (alter p f s) = (obs s)(k := map_option f (obs s k))"
    and obs_alter_detached: "ok s \<Longrightarrow> (\<And>k. \<not> names s k p) \<Longrightarrow> obs (alter p f s) = obs s"
    and load_get: "ok s \<Longrightarrow> load (snd (get k s)) (fst (get k s)) =
      Some (case obs s k of None \<Rightarrow> TorrentInfo k | Some i \<Rightarrow> i)"
begin

text \<open>
  A chain of setters through the pointer of \<open>get\<close>: it reaches the registered object when the id is
  known and is lost otherwise.
\<close>

lemma obs_get_alter:
  assumes "ok s"
  shows "obs (alter (fst (get k s)) f (snd (get k s))) = (obs s)(k := map_option f (obs s k))"
proof (cases "obs s k")
  case None
  with assms have "obs (alter (fst (get k s)) f (snd (get k s))) = obs s"
    by (simp add: obs_alter_detached ok_get get_detached obs_get)
  with None show ?thesis by (auto simp: fun_eq_iff)
next
  case (Some i)
  with assms show ?thesis
    by (simp add: obs_alter [where k = k] ok_get names_get obs_get)
qed

lemma obs_create_alter:
  assumes "ok s"
  shows "obs (alter (fst (create k s)) f (snd (create k s))) =
    (obs s)(k := Some (f (case obs s k of None \<Rightarrow> TorrentInfo k | Some i \<Rightarrow> i)))"
  using assms
  by (simp add: obs_alter [where k = k] ok_create names_create obs_create)

lemma obs_alter_twice:
  assumes "ok s" and "names s k p" and "keeps_id f"
  shows "obs (alter p g (alter p f s)) = (obs s)(k := map_option (g \<circ> f) (obs s k))"
  using assms
  by (simp add: obs_alter [where k = k] ok_alter names_alter option.map_comp)

lemma obs_get_alter_twice:
  assumes "ok s" and "keeps_id f"
  shows "obs (alter (fst (get k s)) g (alter (fst (get k s)) f (snd (get k s)))) =
    (obs s)(k := map_option (g \<circ> f) (obs s k))"
proof (cases "obs s k")
  case None
  with assms have "obs (alter (fst (get k s)) g (alter (fst (get k s)) f (snd (get k s)))) = obs s"
    by (simp add: obs_alter_detached ok_get ok_alter get_detached names_alter obs_get)
  with None show ?thesis by (auto simp: fun_eq_iff)
next
  case (Some i)
  with assms show ?thesis
    by (simp add: obs_alter_twice [where k = k] ok_get names_get obs_get)
qed

end

interpretation reg: info_store Create Get modify deref view bound mgr_ok
proof unfold_locales
  fix s k assume ok: "mgr_ok s"
  show "mgr_ok (snd (Create k s))" and "bound (snd (Create k s)) k (fst (Create k s))"
    and "view (snd (Create k s)) = (view s)(k := Some (case view s k of None \<Rightarrow> TorrentInfo k | Some i \<Rightarrow> i))"
    using Create_law [OF ok] by blast+
  show "mgr_ok (snd (Get k s))"
    using ok mgr_ok_make_shared by (auto simp: Get_def split: option.splits)
  show "view (snd (Get k s)) = view s"
    using ok view_make_shared by (auto simp: Get_def split: option.splits)
  show "deref (snd (Get k s)) (fst (Get k s)) = Some (case view s k of None \<Rightarrow> TorrentInfo k | Some i \<Rightarrow> i)"
  proof (cases "map_of (m_list s) k")
    case None
    then show ?thesis by (simp add: Get_unknown make_shared_def deref_def view_def)
  next
    case (Some p)
    with ok obtain i where "m_heap s p = Some i" using mgr_ok_entry by blast
    with Some show ?thesis by (simp add: Get_known deref_def view_def)
  qed
  show "bound (snd (Get k s)) k (fst (Get k s))" if "view s k \<noteq> None"
    using that by (auto simp: Get_def bound_def view_def split: option.splits)
  show "\<not> bound (snd (Get k s)) q (fst (Get k s))" if "view s k = None" for q
  proof -
    from that ok have "map_of (m_list s) k = None" by (simp add: view_None)
    with mgr_ok_fresh [OF ok] show ?thesis by (simp add: Get_unknown make_shared_def bound_def)
  qed
  show "bound (snd (Get q s)) k p" if "bound s k p" for q p
    using that by (simp add: bound_def Get_def make_shared_def split: option.split)
qed (simp_all add: mgr_ok_modify view_modify_bound view_modify_detached)

section \<open>The registry as a map\<close>

lemma Update_view:
  assumes "mgr_ok s"
  shows "mgr_ok (Update info s) \<and> view (Update info s) =
    (if view s (GetId info) = None then view s else (view s)(GetId info := Some info))"
proof (cases "map_of (m_list s) (tId info)")
  case None
  with assms show ?thesis by (simp add: Update_def view_None)
next
  case (Some p)
  obtain i where i: "m_heap s p = Some i" "tId i = tId info" using mgr_ok_entry [OF assms Some] .
  have up: "Update info s = modify p (\<lambda>this. if this = i then info else this) s"
    using Some i by (simp add: Update_def modify_def)
  have "keeps_id (\<lambda>this. if this = i then info else this)" using i by (simp add: keeps_id_def)
  then have "mgr_ok (Update info s)" using assms by (simp add: up reg.ok_alter)
  moreover have "view s (tId info) = Some i" using Some i by (simp add: view_def)
  moreover have "view (Update info s) = (view s)(tId info := Some info)"
    using reg.obs_alter [of s "tId info" p] assms Some calculation(2) by (simp add: up bound_def)
  ultimately show ?thesis by simp
qed

text \<open>C8: the registry implements a map from ids to torrent information: \<open>Create\<close> adds an empty entry
  unless there is one, \<open>Get\<close> changes nothing and reads the entry (or a fresh description for an unknown
  id), \<open>Update\<close> replaces an entry that exists and ignores one that does not.\<close>

theorem registry_refines_map:
  assumes "mgr_ok s"
  shows "view (snd (Create k s)) = (case view s k of None \<Rightarrow> (view s)(k := Some (TorrentInfo k)) | Some _ \<Rightarrow> view s)
    \<and> view (snd (Get k s)) = view s
    \<and> deref (snd (Get k s)) (fst (Get k s)) = Some (case view s k of None \<Rightarrow> TorrentInfo k | Some i \<Rightarrow> i)
    \<and> view (Update info s) = (if view s (GetId info) = None then view s else (view s)(GetId info := Some info))
    \<and> mgr_ok (snd (Create k s)) \<and> mgr_ok (snd (Get k s)) \<and> mgr_ok (Update info s)"
  using assms Update_view [OF assms, of info]
  by (auto simp: reg.obs_create reg.obs_get reg.load_get reg.ok_create reg.ok_get fun_eq_iff split: option.split)

theorem registry_refines_map_witness:
  "view (Update (SetLink ''l'' (TorrentInfo ''a'')) (snd (Create ''a'' mgr_init))) ''a''
     = Some (SetLink ''l'' (TorrentInfo ''a''))"
proof -
  have "view (snd (Create ''a'' mgr_init)) ''a'' = Some (TorrentInfo ''a'')"
    using registry_refines_map [OF mgr_ok_init, of "''a''" "TorrentInfo ''b''"] by simp
  with registry_refines_map [of "snd (Create ''a'' mgr_init)" "''a''" "SetLink ''l'' (TorrentInfo ''a'')"]
  show ?thesis by (simp add: reg.ok_create)
qed

text \<open>The pointers \<open>Create\<close> hands out for one id are the same object, so what is written through one
  of them is read through the others and through \<open>Get\<close>; the objects of different ids are distinct.\<close>

lemma Create_shares:
  assumes "mgr_ok s"
  shows "Create k (snd (Create k s)) = Create k s
    \<and> deref (snd (Get k (modify (fst (Create k s)) f (snd (Create k s)))))
          (fst (Get k (modify (fst (Create k s)) f (snd (Create k s)))))
        = map_option f (view (snd (Create k s)) k)
    \<and> (k' \<noteq> k \<longrightarrow> fst (Create k' (snd (Create k s))) \<noteq> fst (Create k s))"
proof -
  let ?s = "snd (Create k s)" and ?p = "fst (Create k s)"
  have ok: "mgr_ok ?s" and b: "bound ?s k ?p" using assms by (simp_all add: reg.ok_create reg.names_create)
  then have f: "map_find (m_list ?s) k = Some ?p" by (simp add: bound_def)
  have "Get k (modify ?p f ?s) = (?p, modify ?p f ?s)"
    using f by (intro Get_known) (simp add: modify_def)
  moreover have "deref (modify ?p f ?s) ?p = map_option f (view ?s k)"
    using f by (simp add: deref_def modify_def view_def)
  moreover have "fst (Create k' ?s) \<noteq> ?p" if "k' \<noteq> k"
  proof -
    have "bound (snd (Create k' ?s)) k' (fst (Create k' ?s))" using ok by (rule reg.names_create)
    moreover have "bound (snd (Create k' ?s)) k ?p"
    proof (cases "map_of (m_list ?s) k'")
      case None
      with f that ok show ?thesis by (simp add: Create_new bound_def map_find_put)
    qed (use b in \<open>simp add: Create_known\<close>)
    ultimately show ?thesis using that mgr_ok_inj [OF reg.ok_create [OF ok]] by (auto simp: bound_def)
  qed
  ultimately show ?thesis using Create_known [OF f] by simp
qed

end
