(* ===== verification/Posix_FS.thy ===== *)
theory Posix_FS
  imports Prelude
begin

text \<open>
  The file system the daemon's C library calls act on: a tree of nodes under absolute component
  paths. The daemon runs with \<^verbatim>\<open>chdir("/")\<close> (\<^verbatim>\<open>main.cpp\<close>), so a relative name is resolved from the root;
  empty and \<^verbatim>\<open>.\<close> components vanish. Symbolic links and \<^verbatim>\<open>..\<close> are outside the model. What the
  environment may refuse (permissions, quota, I/O errors) is the field \<open>fs_refuse\<close>, a predicate the
  operations consult, so every failing branch of the code is reachable.
\<close>

type_synonym path = "string list"

abbreviation split_slash :: "string \<Rightarrow> string list" where
  "split_slash \<equiv> split_on (CHR ''/'')"

definition resolve :: "string \<Rightarrow> path" where
  "resolve p = filter (\<lambda>w. w \<noteq> [] \<and> w \<noteq> ''.'') (split_slash p)"

text \<open>A name whose last component is empty or \<^verbatim>\<open>.\<close> can only denote a directory.\<close>

definition needs_dir :: "string \<Rightarrow> bool" where
  "needs_dir p \<longleftrightarrow> last (split_slash p) = '''' \<or> last (split_slash p) = ''.''"

datatype node =
    DirNode (dir_mode: mode_t)
  | RegNode (reg_data: string)

datatype syscall =
  SysMkdir | SysChmod | SysOpen | SysWrite | SysClose | SysRemove | SysRename | SysTruncate

record fsys =
  fs_nodes :: "path \<Rightarrow> node option"
  fs_umask :: mode_t
  fs_refuse :: "syscall \<Rightarrow> path \<Rightarrow> bool"

definition is_dir :: "fsys \<Rightarrow> path \<Rightarrow> bool" where
  "is_dir fs p \<longleftrightarrow> (case fs_nodes fs p of Some (DirNode m) \<Rightarrow> True | _ \<Rightarrow> False)"

definition fs_ok :: "fsys \<Rightarrow> bool" where
  "fs_ok fs \<longleftrightarrow> is_dir fs [] \<and> (\<forall>p c. fs_nodes fs (p @ [c]) \<noteq> None \<longrightarrow> is_dir fs p)"

text \<open>\<^verbatim>\<open>stat(2)\<close>: \<open>None\<close> is the result \<^verbatim>\<open>-1\<close>.\<close>

definition sys_stat :: "fsys \<Rightarrow> string \<Rightarrow> node option" where
  "sys_stat fs p =
     (if p = '''' then None
      else (case fs_nodes fs (resolve p) of
              None \<Rightarrow> None
            | Some (RegNode d) \<Rightarrow> if needs_dir p then None else Some (RegNode d)
            | Some (DirNode m) \<Rightarrow> Some (DirNode m)))"

definition set_node :: "path \<Rightarrow> node \<Rightarrow> fsys \<Rightarrow> fsys" where
  "set_node p n fs = fs\<lparr>fs_nodes := (fs_nodes fs)(p := Some n)\<rparr>"

definition del_node :: "path \<Rightarrow> fsys \<Rightarrow> fsys" where
  "del_node p fs = fs\<lparr>fs_nodes := (fs_nodes fs)(p := None)\<rparr>"

definition mkdir_at :: "fsys \<Rightarrow> path \<Rightarrow> mode_t \<Rightarrow> fsys option" where
  "mkdir_at fs p mode =
     (if fs_nodes fs p \<noteq> None \<or> p = [] \<or> \<not> is_dir fs (butlast p) \<or> fs_refuse fs SysMkdir p then None
      else Some (set_node p (DirNode (and mode (not (fs_umask fs)))) fs))"

text \<open>\<^verbatim>\<open>mkdir(2)\<close> and \<^verbatim>\<open>chmod(2)\<close>; the code ignores the result of the latter.\<close>

definition sys_mkdir :: "fsys \<Rightarrow> string \<Rightarrow> mode_t \<Rightarrow> fsys option" where
  "sys_mkdir fs p mode = (if p = '''' then None else mkdir_at fs (resolve p) mode)"

definition chmod_at :: "fsys \<Rightarrow> path \<Rightarrow> mode_t \<Rightarrow> fsys" where
  "chmod_at fs p mode =
     (if fs_refuse fs SysChmod p then fs
      else (case fs_nodes fs p of Some (DirNode m) \<Rightarrow> set_node p (DirNode mode) fs | _ \<Rightarrow> fs))"

definition sys_chmod :: "fsys \<Rightarrow> string \<Rightarrow> mode_t \<Rightarrow> fsys" where
  "sys_chmod fs p mode = chmod_at fs (resolve p) mode"

text \<open>\<^verbatim>\<open>remove(3)\<close> of a regular file or of an empty directory.\<close>

definition sys_remove :: "fsys \<Rightarrow> string \<Rightarrow> fsys option" where
  "sys_remove fs p =
     (case sys_stat fs p of
        None \<Rightarrow> None
      | Some n \<Rightarrow>
          if resolve p = [] \<or> fs_refuse fs SysRemove (resolve p) then None
          else (case n of
                  RegNode d \<Rightarrow> Some (del_node (resolve p) fs)
                | DirNode m \<Rightarrow>
                    if \<exists>c. fs_nodes fs (resolve p @ [c]) \<noteq> None then None
                    else Some (del_node (resolve p) fs)))"

text \<open>\<^verbatim>\<open>unlink(2)\<close>; its callers ignore the result.\<close>

definition sys_unlink :: "string \<Rightarrow> fsys \<Rightarrow> fsys" where
  "sys_unlink p fs =
     (case sys_stat fs p of
        Some (RegNode d) \<Rightarrow> if fs_refuse fs SysRemove (resolve p) then fs else del_node (resolve p) fs
      | _ \<Rightarrow> fs)"

text \<open>
  Writing a whole file through \<^verbatim>\<open>std::ofstream\<close> and reading one through \<^verbatim>\<open>std::ifstream\<close>: a stream that
  could not be opened ignores what is written to it and reads as empty.
\<close>

definition can_write :: "fsys \<Rightarrow> string \<Rightarrow> bool" where
  "can_write fs p \<longleftrightarrow> p \<noteq> '''' \<and> \<not> needs_dir p \<and> \<not> is_dir fs (resolve p)
     \<and> is_dir fs (butlast (resolve p)) \<and> \<not> fs_refuse fs SysOpen (resolve p)"

definition ofs_write :: "fsys \<Rightarrow> string \<Rightarrow> string \<Rightarrow> fsys" where
  "ofs_write fs p data = (if can_write fs p then set_node (resolve p) (RegNode data) fs else fs)"

definition ifs_read :: "fsys \<Rightarrow> string \<Rightarrow> string" where
  "ifs_read fs p = (case sys_stat fs p of Some (RegNode d) \<Rightarrow> d | _ \<Rightarrow> '''')"

section \<open>Facts about paths\<close>

lemma resolve_append: "resolve (a @ CHR ''/'' # b) = resolve a @ resolve b"
  by (simp add: resolve_def split_on_append)

lemma resolve_Nil [simp]: "resolve '''' = []"
  by (simp add: resolve_def)

lemma resolve_slash: "resolve (CHR ''/'' # b) = resolve b"
  using resolve_append [of "[]" b] by simp

lemma resolve_snoc_slash: "resolve (a @ ''/'') = resolve a"
  using resolve_append [of a "[]"] by simp

lemma resolve_plain:
  "CHR ''/'' \<notin> set w \<Longrightarrow> resolve w = (if w = '''' \<or> w = ''.'' then [] else [w])"
  by (simp add: resolve_def split_on_plain)

lemma resolve_dir_part:
  assumes "a = '''' \<or> last a = CHR ''/''" and "CHR ''/'' \<notin> set w"
  shows "resolve (a @ w) = resolve a @ resolve w"
proof (cases "a = ''''")
  case False
  with assms(1) have "a = butlast a @ ''/''" by (metis append_butlast_last_id)
  then have split: "a @ w = butlast a @ CHR ''/'' # w" and "resolve a = resolve (butlast a)"
    by (metis append.assoc append_Cons append_Nil, metis resolve_snoc_slash)
  then show ?thesis by (simp only: split resolve_append)
qed simp

lemma needs_dir_file:
  "CHR ''/'' \<notin> set n \<Longrightarrow> needs_dir (d @ CHR ''/'' # n) \<longleftrightarrow> n = '''' \<or> n = ''.''"
  by (simp add: needs_dir_def split_on_append split_on_plain)

section \<open>Facts about nodes\<close>

lemma nodes_set_node [simp]: "fs_nodes (set_node p n fs) = (fs_nodes fs)(p := Some n)"
  by (simp add: set_node_def)

lemma refuse_set_node [simp]:
  "fs_refuse (set_node p n fs) = fs_refuse fs" "fs_umask (set_node p n fs) = fs_umask fs"
  by (simp_all add: set_node_def)

lemma refuse_del_node [simp]:
  "fs_refuse (del_node p fs) = fs_refuse fs" "fs_umask (del_node p fs) = fs_umask fs"
  by (simp_all add: del_node_def)

lemma nodes_del_node [simp]: "fs_nodes (del_node p fs) = (fs_nodes fs)(p := None)"
  by (simp add: del_node_def)

lemma is_dir_set_node:
  "is_dir (set_node p n fs) q \<longleftrightarrow> (if q = p then (\<exists>m. n = DirNode m) else is_dir fs q)"
  by (cases n) (auto simp: is_dir_def)

lemma is_dir_del_node: "is_dir (del_node p fs) q \<longleftrightarrow> q \<noteq> p \<and> is_dir fs q"
  by (simp add: is_dir_def)

lemma is_dirD: "is_dir fs p \<Longrightarrow> \<exists>m. fs_nodes fs p = Some (DirNode m)"
  by (auto simp: is_dir_def split: option.splits node.splits)

lemma fs_ok_parent: "fs_ok fs \<Longrightarrow> fs_nodes fs (p @ [c]) \<noteq> None \<Longrightarrow> is_dir fs p"
  unfolding fs_ok_def by blast

lemma fs_ok_root [simp]: "fs_ok fs \<Longrightarrow> is_dir fs []"
  by (simp add: fs_ok_def)

lemma fs_ok_prefix: "fs_ok fs \<Longrightarrow> fs_nodes fs (p @ q) \<noteq> None \<Longrightarrow> q \<noteq> [] \<Longrightarrow> is_dir fs p"
proof (induction q rule: rev_induct)
  case (snoc c q)
  have dir: "is_dir fs (p @ q)"
    using snoc.prems(1,2) fs_ok_parent [of fs "p @ q" c] by simp
  show ?case
  proof (cases "q = []")
    case True
    with dir show ?thesis by simp
  next
    case False
    with dir snoc show ?thesis by (auto dest: is_dirD)
  qed
qed simp

text \<open>A node may be replaced or added when its parent is a directory and no directory is lost.\<close>

lemma fs_ok_set_node:
  assumes "fs_ok fs" and "p \<noteq> [] \<Longrightarrow> is_dir fs (butlast p)" and "is_dir fs p \<or> p = [] \<Longrightarrow> \<exists>m. n = DirNode m"
  shows "fs_ok (set_node p n fs)"
  unfolding fs_ok_def
proof (intro conjI allI impI)
  show "is_dir (set_node p n fs) []"
    using assms(1,3) by (auto simp: is_dir_set_node)
next
  fix q c
  assume node: "fs_nodes (set_node p n fs) (q @ [c]) \<noteq> None"
  have "is_dir fs q"
  proof (cases "q @ [c] = p")
    case True
    with assms(2) show ?thesis by auto
  next
    case False
    with node assms(1) show ?thesis by (auto simp: fs_ok_def split: if_splits)
  qed
  with assms(3) show "is_dir (set_node p n fs) q"
    by (auto simp: is_dir_set_node)
qed

text \<open>A node without children, other than the root, may be removed.\<close>

lemma fs_ok_del_node:
  assumes "fs_ok fs" and "p \<noteq> []" and "\<And>c. fs_nodes fs (p @ [c]) = None"
  shows "fs_ok (del_node p fs)"
  using assms by (auto simp: fs_ok_def is_dir_del_node)

lemma fs_ok_no_children: "fs_ok fs \<Longrightarrow> fs_nodes fs p = Some (RegNode d) \<Longrightarrow> fs_nodes fs (p @ [c]) = None"
  using fs_ok_parent [of fs p c] by (cases "fs_nodes fs (p @ [c])") (auto simp: is_dir_def)

lemma sys_statD: "sys_stat fs p = Some n \<Longrightarrow> fs_nodes fs (resolve p) = Some n"
  by (auto simp: sys_stat_def split: if_splits option.splits node.splits)

lemma fs_ok_sys_remove:
  assumes "fs_ok fs" and "sys_remove fs p = Some fs'"
  shows "fs_ok fs'"
proof -
  from assms(2) have "fs' = del_node (resolve p) fs" "resolve p \<noteq> []"
    and "\<And>c. fs_nodes fs (resolve p @ [c]) = None"
    using assms(1)
    by (auto simp: sys_remove_def split: option.splits node.splits if_splits
        dest: sys_statD intro: fs_ok_no_children)
  with assms(1) show ?thesis by (simp add: fs_ok_del_node)
qed

lemma sys_remove_node: "sys_remove fs p = Some fs' \<Longrightarrow> fs' = del_node (resolve p) fs"
  by (auto simp: sys_remove_def split: option.splits node.splits if_splits)

lemma fs_ok_ofs_write [intro]: "fs_ok fs \<Longrightarrow> fs_ok (ofs_write fs p data)"
  by (auto simp: ofs_write_def can_write_def intro!: fs_ok_set_node)

lemma ofs_write_read: "can_write fs p \<Longrightarrow> ifs_read (ofs_write fs p data) p = data"
  by (auto simp: ofs_write_def ifs_read_def sys_stat_def can_write_def)

end
