(* ===== verification/Filesystem.thy ===== *)
theory Filesystem
  imports Posix_FS
begin

text \<open>
  \<^verbatim>\<open>Daemon/common/filesystem.{h,cpp}\<close>, the free functions: splitting a path, creating a folder with
  its ancestors, listing a folder through a mask, testing and removing a file. The class \<^verbatim>\<open>File\<close> of the
  same files is in theory \<open>File_Object\<close>.
\<close>

definition GetFileName :: "string \<Rightarrow> string" where
  "GetFileName fullPath =
     (case find_last_of (CHR ''/'') fullPath of
        Some pos \<Rightarrow> drop (pos + 1) fullPath
      | None \<Rightarrow> fullPath)"

definition GetDirectory :: "string \<Rightarrow> string" where
  "GetDirectory fullPath =
     (case find_last_of (CHR ''/'') fullPath of
        Some pos \<Rightarrow> take pos fullPath
      | None \<Rightarrow> ''./'')"

text \<open>\<^verbatim>\<open>S_IRWXU | S_IRWXG | S_IRWXO\<close>\<close>

definition mode_all :: mode_t where
  "mode_all = 0x1FF"

text \<open>
  The body of the \<^verbatim>\<open>while\<close> loop of \<open>CreateFolder\<close>. \<open>cut_part\<close> takes the next part off \<^verbatim>\<open>next_part\<close>;
  \<open>ensure_dir\<close> creates the folder named so far when \<^verbatim>\<open>stat\<close> does not find it, and is \<open>None\<close> where the
  code returns because \<^verbatim>\<open>mkdir\<close> failed. Each turn removes at least one character of \<^verbatim>\<open>next_part\<close>.
\<close>

definition cut_part :: "string \<Rightarrow> string \<times> string" where
  "cut_part next_part =
     (case find_first (CHR ''/'') next_part of
        Some pos \<Rightarrow> (take pos next_part, drop (pos + 1) next_part)
      | None \<Rightarrow> (next_part, ''''))"

definition ensure_dir :: "fsys \<Rightarrow> string \<Rightarrow> fsys option" where
  "ensure_dir fs created_dir =
     (if created_dir \<noteq> '''' \<and> sys_stat fs created_dir = None
      then (case sys_mkdir fs created_dir mode_all of
              None \<Rightarrow> None
            | Some fs1 \<Rightarrow> Some (sys_chmod fs1 created_dir mode_all))
      else Some fs)"

function create_loop :: "fsys \<Rightarrow> string \<Rightarrow> string \<Rightarrow> fsys" where
  "create_loop fs created_dir next_part =
     (if next_part = '''' then fs
      else (case ensure_dir fs (created_dir @ fst (cut_part next_part)) of
              None \<Rightarrow> fs
            | Some fs1 \<Rightarrow>
                create_loop fs1 (created_dir @ fst (cut_part next_part) @ ''/'') (snd (cut_part next_part))))"
  by pat_completeness auto
termination
  by (relation "measure (\<lambda>(fs, created_dir, next_part). length next_part)")
    (auto simp: cut_part_def split: option.splits dest!: find_first_Some)

declare create_loop.simps [simp del]

definition CreateFolder :: "string \<Rightarrow> fsys \<Rightarrow> fsys" where
  "CreateFolder dir fs =
     (if dir = '''' \<or> sys_stat fs dir \<noteq> None then fs
      else if hd dir = CHR ''/'' then create_loop fs ''/'' (tl dir)
      else create_loop fs '''' dir)"

text \<open>
  \<^verbatim>\<open>boost::filesystem::directory_iterator\<close> and \<^verbatim>\<open>std::regex\<close> are parameters: \<open>entries\<close> is what iterating
  over the folder yields (name, is it a regular file), \<open>None\<close> for a \<^verbatim>\<open>filesystem_error\<close>; \<open>compile\<close>
  compiles a mask and throws on a malformed one. The mask is compiled once per regular file.
\<close>

fun list_matching :: "(string \<Rightarrow> (string \<Rightarrow> bool) option) \<Rightarrow> string \<Rightarrow> (string \<times> bool) list \<Rightarrow> string list result" where
  "list_matching compile fileMask [] = Inr []"
| "list_matching compile fileMask ((name, regular) # rest) =
     (if \<not> regular then list_matching compile fileMask rest
      else (case compile fileMask of
              None \<Rightarrow> Inl Regex_Error
            | Some matches \<Rightarrow>
                (case list_matching compile fileMask rest of
                   Inl e \<Rightarrow> Inl e
                 | Inr names \<Rightarrow> Inr (if matches name then name # names else names))))"

definition GetFilesInFolder ::
  "(string \<Rightarrow> (string \<times> bool) list option) \<Rightarrow> (string \<Rightarrow> (string \<Rightarrow> bool) option)
   \<Rightarrow> string \<Rightarrow> string \<Rightarrow> string list result" where
  "GetFilesInFolder entries compile dir fileMask =
     (case entries dir of
        None \<Rightarrow> Inr []
      | Some es \<Rightarrow> list_matching compile fileMask es)"

definition IsFileExist :: "fsys \<Rightarrow> string \<Rightarrow> bool" where
  "IsFileExist fs filePath \<longleftrightarrow> sys_stat fs filePath \<noteq> None"

definition Remove :: "string \<Rightarrow> fsys \<Rightarrow> unit result \<times> fsys" where
  "Remove filePath fs =
     (case sys_remove fs filePath of
        None \<Rightarrow> (Inl (Ios_Failure (''Can't remove file: '' @ filePath)), fs)
      | Some fs1 \<Rightarrow> (Inr (), fs1))"

section \<open>Splitting a path\<close>

lemma GetFileName_no_slash: "CHR ''/'' \<notin> set (GetFileName p)"
  by (auto simp: GetFileName_def find_last_of_None split: option.splits dest!: find_last_of_Some)

lemma split_path_roundtrip:
  "CHR ''/'' \<in> set p \<Longrightarrow> GetDirectory p @ ''/'' @ GetFileName p = p"
  by (auto simp: GetFileName_def GetDirectory_def find_last_of_None split: option.splits
      dest!: find_last_of_Some)

lemma GetFileName_join [simp]:
  "CHR ''/'' \<notin> set n \<Longrightarrow> GetFileName (d @ CHR ''/'' # n) = n"
  by (simp add: GetFileName_def find_last_of_append)

lemma GetDirectory_join [simp]:
  "CHR ''/'' \<notin> set n \<Longrightarrow> GetDirectory (d @ CHR ''/'' # n) = d"
  by (simp add: GetDirectory_def find_last_of_append)

section \<open>Creating folders: refinement to component paths\<close>

text \<open>
  The specification: walk down the components, keep what exists, create what is missing with mode
  0777, stop at the first folder that cannot be created.
\<close>

fun mkdirs :: "fsys \<Rightarrow> path \<Rightarrow> path \<Rightarrow> fsys" where
  "mkdirs fs pre [] = fs"
| "mkdirs fs pre (c # cs) =
     (if fs_nodes fs (pre @ [c]) \<noteq> None then mkdirs fs (pre @ [c]) cs
      else (case mkdir_at fs (pre @ [c]) mode_all of
              None \<Rightarrow> fs
            | Some fs1 \<Rightarrow> mkdirs (chmod_at fs1 (pre @ [c]) mode_all) (pre @ [c]) cs))"

lemma mkdir_at_Some:
  assumes "mkdir_at fs p mode = Some fs1"
  shows "fs1 = set_node p (DirNode (and mode (not (fs_umask fs)))) fs"
    and "fs_nodes fs p = None" and "p \<noteq> []" and "is_dir fs (butlast p)"
  using assms by (auto simp: mkdir_at_def split: if_splits)

lemma fs_ok_mkdir_at: "fs_ok fs \<Longrightarrow> mkdir_at fs p mode = Some fs1 \<Longrightarrow> fs_ok fs1"
  by (auto simp: mkdir_at_def split: if_splits intro!: fs_ok_set_node)

lemma chmod_at_nodes:
  "fs_nodes (chmod_at fs p mode) = fs_nodes fs \<or>
   (\<exists>m. fs_nodes fs p = Some (DirNode m)) \<and> fs_nodes (chmod_at fs p mode) = (fs_nodes fs)(p := Some (DirNode mode))"
  by (auto simp: chmod_at_def split: option.splits node.splits)

lemma is_dir_chmod_at [simp]: "is_dir (chmod_at fs p mode) q = is_dir fs q"
  by (auto simp: chmod_at_def is_dir_set_node is_dir_def split: option.splits node.splits)

lemma nodes_chmod_at_None [simp]: "fs_nodes (chmod_at fs p mode) q = None \<longleftrightarrow> fs_nodes fs q = None"
  by (auto simp: chmod_at_def split: option.splits node.splits)

lemma fs_ok_chmod_at [simp]: "fs_ok (chmod_at fs p mode) = fs_ok fs"
  unfolding fs_ok_def by simp

lemma mkdirs_existing: "fs_ok fs \<Longrightarrow> fs_nodes fs (pre @ cs) \<noteq> None \<Longrightarrow> mkdirs fs pre cs = fs"
proof (induction cs arbitrary: pre)
  case (Cons c cs)
  have "fs_nodes fs (pre @ [c]) \<noteq> None"
  proof (cases "cs = []")
    case False
    with Cons.prems fs_ok_prefix [of fs "pre @ [c]" cs] show ?thesis by (auto dest: is_dirD)
  qed (use Cons.prems in simp)
  with Cons show ?case by simp
qed simp

text \<open>A walk that has reached a regular file changes nothing more.\<close>

lemma mkdirs_below_file:
  assumes "fs_ok fs" and "fs_nodes fs pre = Some (RegNode d)"
  shows "mkdirs fs pre cs = fs"
proof (cases cs)
  case (Cons c cs')
  have "fs_nodes fs (pre @ [c]) = None" using assms by (rule fs_ok_no_children)
  moreover have "\<not> is_dir fs pre" using assms(2) by (simp add: is_dir_def)
  ultimately show ?thesis by (simp add: Cons mkdir_at_def)
qed simp

lemma cut_part_plain: "CHR ''/'' \<notin> set (fst (cut_part s))"
  by (auto simp: cut_part_def find_first_None split: option.splits dest: find_first_Some)

lemma cut_part_resolve: "resolve s = resolve (fst (cut_part s)) @ resolve (snd (cut_part s))"
proof (cases "find_first (CHR ''/'') s")
  case None
  then show ?thesis by (simp add: cut_part_def)
next
  case (Some pos)
  then have "s = fst (cut_part s) @ CHR ''/'' # snd (cut_part s)"
    using find_first_Some [OF Some] by (simp add: cut_part_def)
  then show ?thesis by (metis resolve_append)
qed

lemma cut_part_not_Nil: "s \<noteq> '''' \<Longrightarrow> hd s \<noteq> CHR ''/'' \<Longrightarrow> fst (cut_part s) \<noteq> ''''"
  by (cases s) (auto simp: cut_part_def split: option.splits)

text \<open>\<open>dir_prefix d\<close>: a name the loop may extend by one more part.\<close>

definition dir_prefix :: "string \<Rightarrow> bool" where
  "dir_prefix d \<longleftrightarrow> d = '''' \<or> last d = CHR ''/''"

lemma dir_prefix_split: "dir_prefix d \<Longrightarrow> d \<noteq> '''' \<Longrightarrow> d @ w = butlast d @ CHR ''/'' # w"
  unfolding dir_prefix_def by (metis append.assoc append_Cons append_Nil append_butlast_last_id)

lemma sys_stat_part:
  assumes "dir_prefix d" and "CHR ''/'' \<notin> set w" and "w \<noteq> ''''" and "w \<noteq> ''.''"
  shows "sys_stat fs (d @ w) = fs_nodes fs (resolve d @ [w])"
proof -
  have "last (split_slash (d @ w)) = w"
  proof (cases "d = ''''")
    case False
    have "split_slash (d @ w) = split_slash (butlast d) @ [w]"
      by (simp only: dir_prefix_split [OF assms(1) False] split_on_append split_on_plain [OF assms(2)])
    then show ?thesis by simp
  qed (use assms(2) in \<open>simp add: split_on_plain\<close>)
  with assms(3,4) have "\<not> needs_dir (d @ w)" by (simp add: needs_dir_def)
  moreover have "resolve (d @ w) = resolve d @ [w]"
    using assms by (simp add: resolve_dir_part dir_prefix_def resolve_plain)
  ultimately show ?thesis
    using assms(3) by (auto simp: sys_stat_def split: option.splits node.splits)
qed

text \<open>One turn of the loop against one step of the walk: a real component, then an empty or \<^verbatim>\<open>.\<close> one.\<close>

lemma ensure_dir_name:
  assumes "dir_prefix d" and "CHR ''/'' \<notin> set w" and "w \<noteq> ''''" and "w \<noteq> ''.''"
  shows "mkdirs fs (resolve d) (w # cs) =
    (case ensure_dir fs (d @ w) of None \<Rightarrow> fs | Some fs1 \<Rightarrow> mkdirs fs1 (resolve d @ [w]) cs)"
proof -
  have "resolve (d @ w) = resolve d @ [w]"
    using assms by (simp add: resolve_dir_part dir_prefix_def resolve_plain)
  with assms sys_stat_part [OF assms] show ?thesis
    by (auto simp: ensure_dir_def sys_mkdir_def sys_chmod_def split: option.splits)
qed

lemma ensure_dir_same:
  assumes "fs_ok fs" and "fs_nodes fs (resolve p) \<noteq> None" and "p \<noteq> ''''"
  shows "mkdirs fs (resolve p) cs =
    (case ensure_dir fs p of None \<Rightarrow> fs | Some fs1 \<Rightarrow> mkdirs fs1 (resolve p) cs)"
proof (cases "sys_stat fs p")
  case None
  with assms obtain d where reg: "fs_nodes fs (resolve p) = Some (RegNode d)"
    by (auto simp: sys_stat_def split: if_splits option.splits node.splits)
  then have "ensure_dir fs p = None"
    using None assms(3) by (simp add: ensure_dir_def sys_mkdir_def mkdir_at_def)
  with mkdirs_below_file [OF assms(1) reg] show ?thesis by simp
qed (simp add: ensure_dir_def)

lemma ensure_dir_ok:
  assumes "fs_ok fs" and "ensure_dir fs p = Some fs1" and "p \<noteq> ''''"
  shows "fs_ok fs1 \<and> fs_nodes fs1 (resolve p) \<noteq> None"
proof (cases "sys_stat fs p")
  case None
  with assms obtain fs' where mk: "mkdir_at fs (resolve p) mode_all = Some fs'"
    and fs1: "fs1 = chmod_at fs' (resolve p) mode_all"
    by (auto simp: ensure_dir_def sys_mkdir_def sys_chmod_def split: if_splits option.splits)
  from fs_ok_mkdir_at [OF assms(1) mk] mkdir_at_Some(1) [OF mk] fs1 show ?thesis by simp
qed (use assms in \<open>auto simp: ensure_dir_def dest: sys_statD\<close>)

lemma ensure_dir_part:
  assumes "fs_ok fs" and "fs_nodes fs (resolve d) \<noteq> None" and "dir_prefix d"
    and "CHR ''/'' \<notin> set w" and "d @ w \<noteq> ''''"
  shows "mkdirs fs (resolve d) (resolve w @ cs) =
    (case ensure_dir fs (d @ w) of None \<Rightarrow> fs | Some fs1 \<Rightarrow> mkdirs fs1 (resolve (d @ w)) cs)"
proof (cases "w = '''' \<or> w = ''.''")
  case True
  then have "resolve (d @ w) = resolve d" and "resolve w = []"
    using assms(3,4) resolve_dir_part [of d w] by (auto simp: dir_prefix_def resolve_plain)
  with ensure_dir_same [of fs "d @ w" cs] assms show ?thesis by simp
next
  case False
  then have "resolve w = [w]" and "resolve (d @ w) = resolve d @ [w]"
    using assms(3,4) resolve_dir_part [of d w] by (auto simp: dir_prefix_def resolve_plain)
  with ensure_dir_name [of d w fs cs] assms False show ?thesis
    by (simp only: append_Cons append_Nil) simp
qed

lemma create_loop_refines:
  assumes "fs_ok fs" and "fs_nodes fs (resolve created_dir) \<noteq> None" and "dir_prefix created_dir"
    and "created_dir = '''' \<Longrightarrow> next_part = '''' \<or> hd next_part \<noteq> CHR ''/''"
  shows "create_loop fs created_dir next_part = mkdirs fs (resolve created_dir) (resolve next_part)"
  using assms
proof (induction fs created_dir next_part rule: create_loop.induct)
  case (1 fs d s)
  show ?case
  proof (cases "s = ''''")
    case True
    then show ?thesis by (simp add: create_loop.simps)
  next
    case False
    let ?w = "fst (cut_part s)" and ?rest = "snd (cut_part s)"
    have ne: "d @ ?w \<noteq> ''''"
      using "1.prems"(4) False cut_part_not_Nil by fastforce
    have walk: "mkdirs fs (resolve d) (resolve s) =
      (case ensure_dir fs (d @ ?w) of None \<Rightarrow> fs | Some fs1 \<Rightarrow> mkdirs fs1 (resolve (d @ ?w)) (resolve ?rest))"
      using ensure_dir_part [OF "1.prems"(1-3) cut_part_plain ne] cut_part_resolve [of s] by simp
    show ?thesis
    proof (cases "ensure_dir fs (d @ ?w)")
      case None
      with walk False show ?thesis by (simp add: create_loop.simps [of fs d s])
    next
      case (Some fs1)
      have slash: "resolve (d @ ?w @ ''/'') = resolve (d @ ?w)"
        using resolve_snoc_slash [of "d @ ?w"] by simp
      have "create_loop fs1 (d @ ?w @ ''/'') ?rest = mkdirs fs1 (resolve (d @ ?w)) (resolve ?rest)"
        using "1.IH" [OF False Some] ensure_dir_ok [OF "1.prems"(1) Some ne]
        by (simp add: slash dir_prefix_def)
      with walk Some False show ?thesis by (simp add: create_loop.simps [of fs d s])
    qed
  qed
qed

lemma CreateFolder_mkdirs:
  assumes "fs_ok fs"
  shows "CreateFolder dir fs = mkdirs fs [] (resolve dir)"
proof (cases "dir = '''' \<or> sys_stat fs dir \<noteq> None")
  case True
  with assms mkdirs_existing [of fs "[]" "resolve dir"] show ?thesis
    by (auto simp: CreateFolder_def dest: sys_statD)
next
  case False
  have root: "fs_nodes fs [] \<noteq> None" using assms by (auto dest: is_dirD fs_ok_root)
  obtain c s where dir: "dir = c # s" using False by (cases dir) auto
  show ?thesis
  proof (cases "c = CHR ''/''")
    case True
    have "resolve ''/'' = []" using resolve_slash [of "[]"] by simp
    with create_loop_refines [of fs "''/''" s] assms root False True dir show ?thesis
      by (simp add: CreateFolder_def dir_prefix_def resolve_slash)
  next
    case other: False
    with create_loop_refines [of fs "[]" dir] assms root False dir show ?thesis
      by (simp add: CreateFolder_def dir_prefix_def)
  qed
qed

section \<open>What the walk guarantees\<close>

lemma mkdirs_ok: "fs_ok fs \<Longrightarrow> fs_ok (mkdirs fs pre cs)"
  by (induction fs pre cs rule: mkdirs.induct)
    (auto split: option.splits dest: fs_ok_mkdir_at)

lemma mkdirs_keeps: "fs_nodes fs q = Some n \<Longrightarrow> fs_nodes (mkdirs fs pre cs) q = Some n"
proof (induction fs pre cs rule: mkdirs.induct)
  case (2 fs pre c cs)
  have "fs_nodes (chmod_at fs1 (pre @ [c]) mode_all) q = Some n"
    if "mkdir_at fs (pre @ [c]) mode_all = Some fs1" for fs1
  proof -
    from mkdir_at_Some(1,2) [OF that] "2.prems" have "q \<noteq> pre @ [c]" "fs_nodes fs1 q = Some n" by auto
    then show ?thesis by (auto simp: chmod_at_def split: option.splits node.splits)
  qed
  with 2 show ?case by (auto split: option.splits)
qed simp

lemma mkdirs_refuse [simp]: "fs_refuse (mkdirs fs pre cs) = fs_refuse fs"
proof (induction fs pre cs rule: mkdirs.induct)
  case (2 fs pre c cs)
  have "fs_refuse (chmod_at fs1 (pre @ [c]) mode_all) = fs_refuse fs"
    if "mkdir_at fs (pre @ [c]) mode_all = Some fs1" for fs1
    using mkdir_at_Some(1) [OF that] by (simp add: chmod_at_def split: option.splits node.splits)
  with 2 show ?case by (auto split: option.splits)
qed simp

text \<open>Nothing is created except folders on the way to the target.\<close>

lemma mkdirs_only_prefixes:
  "fs_nodes fs q = None \<Longrightarrow> fs_nodes (mkdirs fs pre cs) q = Some n \<Longrightarrow>
   (\<exists>k \<le> length cs. q = pre @ take k cs) \<and> (\<exists>m. n = DirNode m)"
proof (induction fs pre cs rule: mkdirs.induct)
  case (2 fs pre c cs)
  have lift: "\<exists>k \<le> length (c # cs). q = pre @ take k (c # cs)"
    if "\<exists>k \<le> length cs. q = (pre @ [c]) @ take k cs"
    using that by (metis Suc_le_mono append.assoc append_Cons append_Nil length_Cons take_Suc_Cons)
  show ?case
  proof (cases "fs_nodes fs (pre @ [c]) = None")
    case False
    with 2 lift show ?thesis by auto
  next
    case True
    with "2.prems" obtain fs1 where mk: "mkdir_at fs (pre @ [c]) mode_all = Some fs1"
      by (auto split: option.splits)
    let ?fs2 = "chmod_at fs1 (pre @ [c]) mode_all"
    have res: "fs_nodes (mkdirs ?fs2 (pre @ [c]) cs) q = Some n"
      using True mk "2.prems"(2) by simp
    show ?thesis
    proof (cases "q = pre @ [c]")
      case here: True
      have "\<exists>m. fs_nodes ?fs2 q = Some (DirNode m)"
        using mkdir_at_Some(1) [OF mk] here by (auto simp: chmod_at_def)
      then obtain m where "fs_nodes ?fs2 q = Some (DirNode m)" by blast
      with res mkdirs_keeps [OF this, of "pre @ [c]" cs] have "n = DirNode m" by simp
      then have "\<exists>m. n = DirNode m" by blast
      moreover have "q = pre @ take 1 (c # cs)" using here by simp
      ultimately show ?thesis by (metis One_nat_def Suc_le_mono le0 length_Cons)
    next
      case False
      then have "fs_nodes ?fs2 q = None"
        using mkdir_at_Some(1) [OF mk] "2.prems"(1) by simp
      with "2.IH"(2) [OF _ mk this res] True lift show ?thesis by auto
    qed
  qed
qed simp

text \<open>
  When nothing on the way is a regular file and no \<^verbatim>\<open>mkdir\<close> is refused, the walk reaches the target.
\<close>

fun way_free :: "fsys \<Rightarrow> path \<Rightarrow> path \<Rightarrow> bool" where
  "way_free fs pre [] \<longleftrightarrow> True"
| "way_free fs pre (c # cs) \<longleftrightarrow>
     (fs_nodes fs (pre @ [c]) = None \<or> is_dir fs (pre @ [c])) \<and> \<not> fs_refuse fs SysMkdir (pre @ [c])
     \<and> way_free fs (pre @ [c]) cs"

lemma way_free_cong:
  assumes "\<And>q. q \<noteq> [] \<Longrightarrow> fs_nodes fs' (pre @ q) = fs_nodes fs (pre @ q)" and "fs_refuse fs' = fs_refuse fs"
  shows "way_free fs' pre cs = way_free fs pre cs"
  using assms
proof (induction cs arbitrary: pre)
  case (Cons c cs)
  have "fs_nodes fs' (pre @ [c]) = fs_nodes fs (pre @ [c])" using Cons.prems(1) [of "[c]"] by simp
  moreover have "way_free fs' (pre @ [c]) cs = way_free fs (pre @ [c]) cs"
  proof (rule Cons.IH)
    show "fs_nodes fs' ((pre @ [c]) @ q) = fs_nodes fs ((pre @ [c]) @ q)" for q
      using Cons.prems(1) [of "c # q"] by simp
  qed (rule Cons.prems(2))
  ultimately show ?case using Cons.prems(2) by (simp add: is_dir_def)
qed simp

lemma way_free_made:
  "way_free (chmod_at (set_node pre (DirNode m) fs) pre mode_all) pre cs = way_free fs pre cs"
  by (rule way_free_cong) (simp_all add: chmod_at_def)

lemma mkdirs_reaches:
  "is_dir fs pre \<Longrightarrow> way_free fs pre cs \<Longrightarrow> is_dir (mkdirs fs pre cs) (pre @ cs)"
proof (induction fs pre cs rule: mkdirs.induct)
  case (2 fs pre c cs)
  from "2.prems"(2) have here: "fs_nodes fs (pre @ [c]) = None \<or> is_dir fs (pre @ [c])"
    and allowed: "\<not> fs_refuse fs SysMkdir (pre @ [c])" and tail: "way_free fs (pre @ [c]) cs"
    by simp_all
  show ?case
  proof (cases "fs_nodes fs (pre @ [c]) = None")
    case False
    with "2.IH"(1) here tail show ?thesis by auto
  next
    case True
    with allowed "2.prems"(1)
    have mk: "mkdir_at fs (pre @ [c]) mode_all = Some (set_node (pre @ [c]) (DirNode (and mode_all (not (fs_umask fs)))) fs)"
      by (simp add: mkdir_at_def)
    from "2.IH"(2) [OF _ mk] True way_free_made tail
    have "is_dir (mkdirs (chmod_at (set_node (pre @ [c]) (DirNode (and mode_all (not (fs_umask fs)))) fs) (pre @ [c]) mode_all) (pre @ [c]) cs) ((pre @ [c]) @ cs)"
      by (simp add: is_dir_set_node)
    with True mk show ?thesis by simp
  qed
qed simp

section \<open>What the functions promise\<close>

text \<open>A path with a slash is cut at its last slash into a folder and a plain file name, which joined
  again give the path; a path without one is its own file name.\<close>

lemma path_split:
  "if CHR ''/'' \<in> set p then GetDirectory p @ ''/'' @ GetFileName p = p \<and> CHR ''/'' \<notin> set (GetFileName p)
   else GetFileName p = p"
  using split_path_roundtrip [of p] GetFileName_no_slash [of p]
  by (auto simp: GetFileName_def split: option.split dest: find_last_of_None [THEN iffD2])

definition root_fs :: fsys where
  "root_fs = \<lparr>fs_nodes = [[] \<mapsto> DirNode mode_all], fs_umask = 0, fs_refuse = (\<lambda>_ _. False)\<rparr>"

lemma root_fs_ok [simp]: "fs_ok root_fs"
  by (auto simp: fs_ok_def is_dir_def root_fs_def)

text \<open>C36: the string loop of \<open>CreateFolder\<close>, with its repeated, leading and trailing slashes, is the walk
  along the path's components that creates every missing folder and stops at the first failure. When
  nothing on the way is a regular file and no \<open>mkdir\<close> is refused, the folder exists afterwards; in every
  case what existed is left as it was, and nothing is created but folders on the way.\<close>

theorem CreateFolder_refines:
  assumes "fs_ok fs"
  shows "CreateFolder dir fs = mkdirs fs [] (resolve dir)
    \<and> (way_free fs [] (resolve dir) \<longrightarrow> is_dir (CreateFolder dir fs) (resolve dir))
    \<and> fs_ok (CreateFolder dir fs)
    \<and> (\<forall>q n. fs_nodes fs q = Some n \<longrightarrow> fs_nodes (CreateFolder dir fs) q = Some n)
    \<and> (\<forall>q n. fs_nodes fs q = None \<and> fs_nodes (CreateFolder dir fs) q = Some n \<longrightarrow>
          (\<exists>k \<le> length (resolve dir). q = take k (resolve dir)) \<and> (\<exists>m. n = DirNode m))"
  using mkdirs_reaches [of fs "[]" "resolve dir"] mkdirs_ok [OF assms] mkdirs_keeps
    mkdirs_only_prefixes [of fs _ "[]" "resolve dir"] assms
  by (simp add: CreateFolder_mkdirs) blast

theorem CreateFolder_refines_witness:
  "fs_nodes (CreateFolder ''//a//b/'' root_fs) [''a'', ''b''] = Some (DirNode mode_all)"
proof -
  have r: "resolve ''//a//b/'' = [''a'', ''b'']" by (simp add: resolve_def)
  have "CreateFolder ''//a//b/'' root_fs = mkdirs root_fs [] [''a'', ''b'']"
    using CreateFolder_refines [OF root_fs_ok, of "''//a//b/''"] by (simp only: r)
  then show ?thesis
    by (simp only:) (simp add: root_fs_def mkdir_at_def is_dir_def chmod_at_def set_node_def mode_all_def)
qed

end
