(* ===== verification/Config_Store.thy ===== *)
theory Config_Store
  imports Filesystem Std_Map "HOL-Library.Sublist"
begin

text \<open>
  \<^verbatim>\<open>Daemon/config/config.{h,cpp}\<close>: the configuration store. The Boost property tree it wraps is not
  part of the repository, so it is the parameter \<open>ptree_api\<close>: reading and writing a value by path,
  and reading and writing the JSON file. \<open>property_tree\<close> states what Boost documents about it;
  \<open>config_store\<close> is the contract the two typed configurations rely on, proved for \<open>Config\<close> over
  any property tree. The end of the theory gives one concrete tree that satisfies the laws.
\<close>

section \<open>Keys and sections\<close>

definition Section :: "string \<Rightarrow> string \<Rightarrow> string" where
  "Section name key = name @ ''.'' @ key"

text \<open>\<open>additions::Key\<close>: a map from the keys of an enumeration to paths; a missing key throws.\<close>

definition Key :: "('k::linorder, string) smap \<Rightarrow> ('k \<Rightarrow> int) \<Rightarrow> 'k \<Rightarrow> string result" where
  "Key keys to_int key =
     (case map_find keys key of
        None \<Rightarrow> Inl (Invalid_Argument
                  (''Key '' @ show_int (to_int key) @ '' does not found in config keys''))
      | Some path \<Rightarrow> Inr path)"

section \<open>The property tree\<close>

record ('pt, 'd) ptree_api =
  pt_empty :: 'pt
  pt_get :: "'pt \<Rightarrow> string \<Rightarrow> string option"
  pt_put :: "string \<Rightarrow> string \<Rightarrow> 'pt \<Rightarrow> 'pt"
  pt_exists :: "'d \<Rightarrow> bool"
  pt_read :: "'d \<Rightarrow> 'pt option"
  pt_write :: "'pt \<Rightarrow> 'd \<Rightarrow> exn option \<times> 'd"

text \<open>\<open>above k' k\<close>: the node at \<open>k'\<close> is a proper ancestor of the node at \<open>k\<close>.\<close>

definition above :: "string \<Rightarrow> string \<Rightarrow> bool" where
  "above k' k \<longleftrightarrow> (\<exists>s. k = k' @ CHR ''.'' # s)"

section \<open>The class Config\<close>

record ('pt, 'd) config =
  c_root :: 'pt
  c_file :: 'd
  c_fs :: fsys

definition defFolder :: string where
  "defFolder = ''/opt/VerAI''"

definition GetConfigPath :: string where
  "GetConfigPath = defFolder @ ''/daemon.cfg''"

definition GetFolder :: string where
  "GetFolder = defFolder"

text \<open>
  \<open>c_file\<close> is the content of the file at \<open>GetConfigPath\<close>. \<open>Config_Init\<close> is the constructor with the
  \<open>Init\<close> it calls: the exception is logged and thrown again.
\<close>

definition Config_Init :: "('pt, 'd) ptree_api \<Rightarrow> 'd \<Rightarrow> fsys \<Rightarrow> unit result \<times> ('pt, 'd) config" where
  "Config_Init api d fs =
     (if pt_exists api d
      then (case pt_read api d of
              Some root \<Rightarrow> (Inr (), \<lparr>c_root = root, c_file = d, c_fs = fs\<rparr>)
            | None \<Rightarrow> (Inl (Runtime_Error (''Can't parse config file : '' @ GetConfigPath)),
                       \<lparr>c_root = pt_empty api, c_file = d, c_fs = fs\<rparr>))
      else (Inr (), \<lparr>c_root = pt_empty api, c_file = d, c_fs = CreateFolder GetFolder fs\<rparr>))"

text \<open>
  \<open>root.get(key, defValue)\<close> returns the default for a path that is not there and throws nothing, so the
  handler in \<open>GetString\<close>, which would call \<open>WriteString\<close> with the mutex already held, is dead code.
\<close>

definition GetString :: "('pt, 'd) ptree_api \<Rightarrow> string \<Rightarrow> string \<Rightarrow> ('pt, 'd) config \<Rightarrow> string" where
  "GetString api key defValue c =
     (case pt_get api (c_root c) key of Some v \<Rightarrow> v | None \<Rightarrow> defValue)"

definition WriteString ::
  "('pt, 'd) ptree_api \<Rightarrow> string \<Rightarrow> string \<Rightarrow> ('pt, 'd) config \<Rightarrow> unit result \<times> ('pt, 'd) config" where
  "WriteString api key val c =
     (let root = pt_put api key val (c_root c);
          (failed, d) = pt_write api root (c_file c);
          c1 = c\<lparr>c_root := root, c_file := d\<rparr>
      in (case failed of None \<Rightarrow> (Inr (), c1) | Some e \<Rightarrow> (Inl e, c1)))"

text \<open>
  \<^verbatim>\<open>boost::lexical_cast\<close> between \<^verbatim>\<open>int\<close> and \<^verbatim>\<open>string\<close> is a parameter as well.
\<close>

record lexcast_api =
  lc_int :: "string \<Rightarrow> int option"
  lc_string :: "int \<Rightarrow> string"

definition GetInt ::
  "('pt, 'd) ptree_api \<Rightarrow> lexcast_api \<Rightarrow> string \<Rightarrow> int \<Rightarrow> ('pt, 'd) config \<Rightarrow> int result" where
  "GetInt api lc key defValue c =
     (case lc_int lc (GetString api key (lc_string lc defValue) c) of
        None \<Rightarrow> Inl Bad_Lexical_Cast
      | Some n \<Rightarrow> Inr n)"

definition WriteInt ::
  "('pt, 'd) ptree_api \<Rightarrow> lexcast_api \<Rightarrow> string \<Rightarrow> int \<Rightarrow> ('pt, 'd) config \<Rightarrow> unit result \<times> ('pt, 'd) config" where
  "WriteInt api lc key val c = WriteString api key (lc_string lc val) c"

section \<open>Contracts\<close>

text \<open>What Boost documents: a value put under a path is read back, other values are not touched
  (nodes above the path may come into being, with empty data), and a file that was written
  successfully exists and is read back as the same tree of values.\<close>

locale property_tree =
  fixes api :: "('pt, 'd) ptree_api"
  assumes get_put_same: "pt_get api (pt_put api k v t) k = Some v"
    and get_put_other: "k' \<noteq> k \<Longrightarrow> \<not> above k' k \<Longrightarrow> pt_get api (pt_put api k v t) k' = pt_get api t k'"
    and get_empty: "k \<noteq> '''' \<Longrightarrow> pt_get api (pt_empty api) k = None"
    and read_written: "pt_write api t d = (None, d') \<Longrightarrow>
      pt_exists api d' \<and> (\<exists>t'. pt_read api d' = Some t' \<and> pt_get api t' = pt_get api t)"
begin

lemma GetString_WriteString:
  assumes "\<not> above k' k"
  shows "GetString api k' dv (snd (WriteString api k v c)) = (if k' = k then v else GetString api k' dv c)"
  using assms
  by (auto simp: GetString_def WriteString_def Let_def get_put_same get_put_other split: prod.split option.split)

lemma WriteString_reload:
  assumes "WriteString api k v c = (Inr (), c')"
  shows "\<exists>c2. Config_Init api (c_file c') fs = (Inr (), c2) \<and> (\<forall>k' dv. GetString api k' dv c2 = GetString api k' dv c')"
proof -
  obtain failed d where w: "pt_write api (pt_put api k v (c_root c)) (c_file c) = (failed, d)" by fastforce
  with assms have "failed = None" and c': "c' = c\<lparr>c_root := pt_put api k v (c_root c), c_file := d\<rparr>"
    by (auto simp: WriteString_def Let_def split: option.splits)
  with w read_written obtain t' where "pt_exists api d" "pt_read api d = Some t'"
    "pt_get api t' = pt_get api (pt_put api k v (c_root c))"
    by blast
  with c' show ?thesis by (simp add: Config_Init_def GetString_def)
qed

end

text \<open>
  The interface of \<^verbatim>\<open>Config\<close> its clients see: \<open>rd\<close> with the default given, \<open>wr\<close> which may fail.
\<close>

locale config_store =
  fixes rd :: "string \<Rightarrow> string \<Rightarrow> 's \<Rightarrow> string"
    and wr :: "string \<Rightarrow> string \<Rightarrow> 's \<Rightarrow> unit result \<times> 's"
  assumes rd_wr: "\<not> above k' k \<Longrightarrow> rd k' dv (snd (wr k v s)) = (if k' = k then v else rd k' dv s)"
begin

lemma rd_wr_same: "rd k dv (snd (wr k v s)) = v"
  by (subst rd_wr) (auto simp: above_def)

text \<open>Writing back what is read leaves every reading as it was: the idiom of \<^verbatim>\<open>ConfigTorrent::Init\<close>.\<close>

lemma rd_write_back:
  "\<not> above k' k \<Longrightarrow> k' \<noteq> k \<or> dv' = dv \<Longrightarrow> rd k' dv' (snd (wr k (rd k dv s) s)) = rd k' dv' s"
  by (auto simp: rd_wr)

end

sublocale property_tree \<subseteq> config_store "GetString api" "WriteString api"
  by unfold_locales (rule GetString_WriteString)

section \<open>Memory and file agree\<close>

text \<open>The file holds the values of the tree in memory.\<close>

definition synced :: "('pt, 'd) ptree_api \<Rightarrow> ('pt, 'd) config \<Rightarrow> bool" where
  "synced api c \<longleftrightarrow> pt_exists api (c_file c) \<and>
     (case pt_read api (c_file c) of None \<Rightarrow> False | Some t \<Rightarrow> pt_get api t = pt_get api (c_root c))"

lemma synced_Config_Init:
  "Config_Init api d fs = (Inr (), c) \<Longrightarrow> pt_exists api d \<Longrightarrow> synced api c"
  by (auto simp: Config_Init_def synced_def split: option.splits)

lemma synced_reload:
  assumes "synced api c"
  shows "\<exists>c2. Config_Init api (c_file c) fs = (Inr (), c2) \<and> (\<forall>k dv. GetString api k dv c2 = GetString api k dv c)
    \<and> synced api c2"
  using assms by (auto simp: synced_def Config_Init_def GetString_def split: option.splits)

context property_tree
begin

lemma synced_WriteString: "WriteString api k v c = (Inr (), c') \<Longrightarrow> synced api c'"
  using read_written
  by (fastforce simp: WriteString_def Let_def synced_def split: prod.splits option.splits)

lemma GetString_empty:
  "k \<noteq> '''' \<Longrightarrow> \<not> pt_exists api d \<Longrightarrow> Config_Init api d fs = (Inr (), c) \<Longrightarrow> GetString api k dv c = dv"
  by (auto simp: Config_Init_def GetString_def get_empty)

end

section \<open>A concrete property tree\<close>

text \<open>
  Boost's structure: a node carries data and an ordered list of named children, and a path is cut at
  the dots. The file holds a tree, or nothing yet, or text that does not parse; writing succeeds when
  the environment lets the file be opened (\<open>pf_open\<close>).
\<close>

datatype ptree = PNode (pt_data: string) (pt_kids: "(string \<times> ptree) list")

datatype file_content = No_File | Bad_Json | Good_Json ptree

record pfile =
  pf_content :: file_content
  pf_open :: bool

fun kid_put :: "string \<Rightarrow> 'a \<Rightarrow> (string \<times> 'a) list \<Rightarrow> (string \<times> 'a) list" where
  "kid_put k v [] = [(k, v)]"
| "kid_put k v ((k', v') # kids) = (if k = k' then (k, v) # kids else (k', v') # kid_put k v kids)"

lemma map_of_kid_put: "map_of (kid_put k v kids) = (map_of kids)(k := Some v)"
  by (induction k v kids rule: kid_put.induct) auto

fun pnode_get :: "ptree \<Rightarrow> string list \<Rightarrow> string option" where
  "pnode_get t [] = Some (pt_data t)"
| "pnode_get t (c # cs) =
     (case map_of (pt_kids t) c of None \<Rightarrow> None | Some t' \<Rightarrow> pnode_get t' cs)"

fun pnode_put :: "string list \<Rightarrow> string \<Rightarrow> ptree \<Rightarrow> ptree" where
  "pnode_put [] v t = PNode v (pt_kids t)"
| "pnode_put (c # cs) v t =
     PNode (pt_data t)
       (kid_put c (pnode_put cs v (case map_of (pt_kids t) c of None \<Rightarrow> PNode '''' [] | Some t' \<Rightarrow> t'))
          (pt_kids t))"

lemma pnode_get_empty: "pnode_get (PNode '''' []) cs = (if cs = [] then Some '''' else None)"
  by (cases cs) auto

lemma pnode_get_put:
  "pnode_get (pnode_put ks v t) ks' =
     (if ks' = ks then Some v
      else if pnode_get t ks' = None \<and> strict_prefix ks' ks then Some ''''
      else pnode_get t ks')"
proof (induction ks v t arbitrary: ks' rule: pnode_put.induct)
  case (1 v t)
  then show ?case by (cases ks') auto
next
  case (2 c cs v t)
  show ?case
  proof (cases ks')
    case (Cons d ds)
    let ?kid = "case map_of (pt_kids t) c of None \<Rightarrow> PNode '''' [] | Some t' \<Rightarrow> t'"
    show ?thesis
    proof (cases "d = c")
      case True
      with "2.IH" [of ds] Cons show ?thesis
        by (cases "map_of (pt_kids t) c") (auto simp: map_of_kid_put pnode_get_empty strict_prefix_def)
    qed (auto simp: Cons map_of_kid_put)
  qed auto
qed

definition tree_api :: "(ptree, pfile) ptree_api" where
  "tree_api =
     \<lparr>pt_empty = PNode '''' [],
      pt_get = (\<lambda>t k. pnode_get t (split_on (CHR ''.'') k)),
      pt_put = (\<lambda>k v t. pnode_put (split_on (CHR ''.'') k) v t),
      pt_exists = (\<lambda>d. pf_content d \<noteq> No_File),
      pt_read = (\<lambda>d. case pf_content d of Good_Json t \<Rightarrow> Some t | _ \<Rightarrow> None),
      pt_write = (\<lambda>t d. if pf_open d then (None, d\<lparr>pf_content := Good_Json t\<rparr>)
                        else (Some (Runtime_Error ''cannot open file''), d))\<rparr>"

interpretation boost_tree: property_tree tree_api
proof unfold_locales
  fix t :: ptree and k k' v
  show "pt_get tree_api (pt_put tree_api k v t) k = Some v"
    by (simp add: tree_api_def pnode_get_put)
  assume "k' \<noteq> k" and "\<not> above k' k"
  then have "\<not> strict_prefix (split_on (CHR ''.'') k') (split_on (CHR ''.'') k)"
    unfolding strict_prefix_def prefix_def above_def
    by (metis append.right_neutral split_on_prefix)
  with \<open>k' \<noteq> k\<close> show "pt_get tree_api (pt_put tree_api k v t) k' = pt_get tree_api t k'"
    by (auto simp: tree_api_def pnode_get_put split_on_inj)
qed (auto simp: tree_api_def pnode_get_empty split: if_splits)

section \<open>Settings\<close>



text \<open>Decimal conversion as \<^verbatim>\<open>lexical_cast\<close> does it for an \<^verbatim>\<open>int\<close>.\<close>

definition read_int :: "string \<Rightarrow> int option" where
  "read_int s =
     (let neg = (s \<noteq> '''' \<and> hd s = CHR ''-''); ds = (if neg then tl s else s)
      in if ds = '''' \<or> \<not> list_all (\<lambda>c. 48 \<le> (of_char c :: nat) \<and> (of_char c :: nat) \<le> 57) ds then None
         else Some (if neg then - int (digits_value ds) else int (digits_value ds)))"

lemma show_nat_no_sign: "hd (show_nat n) \<noteq> CHR ''-''"
  using show_nat_digits [of n] by (cases "show_nat n") auto

lemma read_show_int: "read_int (show_int n) = Some n"
  using show_nat_digits [of "nat n"] show_nat_digits [of "nat (- n)"] show_nat_no_sign [of "nat n"]
  by (simp add: read_int_def show_int_def digits_value_show)

text \<open>An integer setting reads as it was written, whatever the default, when the two conversions are
  inverse to each other on it; a stored text that is not a number makes the reading throw.\<close>

lemma int_setting_roundtrip:
  assumes "property_tree api" and "lc_int lc (lc_string lc n) = Some n"
  shows "GetInt api lc k d (snd (WriteInt api lc k n c)) = Inr n
    \<and> (lc_int lc v = None \<longrightarrow> GetInt api lc k d (snd (WriteString api k v c)) = Inl Bad_Lexical_Cast)"
proof -
  have "\<not> above k k" by (auto simp: above_def)
  with property_tree.GetString_WriteString [OF assms(1)] assms(2) show ?thesis
    by (simp add: GetInt_def WriteInt_def)
qed

end
