(* ===== verification/Config_Torrent.thy ===== *)
theory Config_Torrent
  imports Config_Store
begin

text \<open>
  \<^verbatim>\<open>Daemon/config/config_torrent.{h,cpp}\<close>: ports and folders of the torrent engine. The engine reads
  three of the folders whenever it needs them; \<open>torrent_dirs\<close> collects what the getters return.
\<close>

datatype tkey = TPort | TInterface | TDownloadFolder | TTFilesFolder | TProjectsFolder

fun tkey_int :: "tkey \<Rightarrow> int" where
  "tkey_int TPort = 0"
| "tkey_int TInterface = 1"
| "tkey_int TDownloadFolder = 2"
| "tkey_int TTFilesFolder = 3"
| "tkey_int TProjectsFolder = 4"

lemma tkey_int_inj: "tkey_int a = tkey_int b \<longleftrightarrow> a = b"
  by (cases a; cases b) auto

instantiation tkey :: linorder
begin

definition less_eq_tkey :: "tkey \<Rightarrow> tkey \<Rightarrow> bool" where
  "less_eq_tkey a b \<longleftrightarrow> tkey_int a \<le> tkey_int b"

definition less_tkey :: "tkey \<Rightarrow> tkey \<Rightarrow> bool" where
  "less_tkey a b \<longleftrightarrow> tkey_int a < tkey_int b"

instance
  by intro_classes (auto simp: less_eq_tkey_def less_tkey_def tkey_int_inj)

end

definition torrent_keys :: "(tkey, string) smap" where
  "torrent_keys =
     map_put TPort (Section ''torrent'' ''port'')
      (map_put TInterface (Section ''torrent'' ''interface'')
        (map_put TDownloadFolder (Section ''torrent'' ''downloadFolder'')
          (map_put TTFilesFolder (Section ''torrent'' ''torrentFilesFolder'')
            (map_put TProjectsFolder (Section ''torrent'' ''projectsFolder'') []))))"

definition tpath :: "tkey \<Rightarrow> string result" where
  "tpath = Key torrent_keys tkey_int"

fun tdefault :: "tkey \<Rightarrow> string" where
  "tdefault TPort = ''6881''"
| "tdefault TInterface = ''0.0.0.0''"
| "tdefault TDownloadFolder = GetFolder @ ''/'' @ ''downloads''"
| "tdefault TTFilesFolder = GetFolder @ ''/'' @ ''torrents''"
| "tdefault TProjectsFolder = GetFolder @ ''/'' @ ''projects''"

text \<open>The five getters and the five setters differ in the key alone.\<close>

definition torrent_get :: "('pt, 'd) ptree_api \<Rightarrow> tkey \<Rightarrow> ('pt, 'd) config \<Rightarrow> string result" where
  "torrent_get api k c =
     (case tpath k of Inl e \<Rightarrow> Inl e | Inr p \<Rightarrow> Inr (GetString api p (tdefault k) c))"

definition torrent_set ::
  "('pt, 'd) ptree_api \<Rightarrow> tkey \<Rightarrow> string \<Rightarrow> ('pt, 'd) config \<Rightarrow> unit result \<times> ('pt, 'd) config" where
  "torrent_set api k v c =
     (case tpath k of Inl e \<Rightarrow> (Inl e, c) | Inr p \<Rightarrow> WriteString api p v c)"

text \<open>\<open>SetX(GetX())\<close>\<close>

definition write_back ::
  "('pt, 'd) ptree_api \<Rightarrow> tkey \<Rightarrow> ('pt, 'd) config \<Rightarrow> unit result \<times> ('pt, 'd) config" where
  "write_back api k c =
     (case torrent_get api k c of Inl e \<Rightarrow> (Inl e, c) | Inr v \<Rightarrow> torrent_set api k v c)"

definition torrent_Init :: "('pt, 'd) ptree_api \<Rightarrow> ('pt, 'd) config \<Rightarrow> unit result \<times> ('pt, 'd) config" where
  "torrent_Init api c =
     (case write_back api TDownloadFolder c of
        (Inl e, c1) \<Rightarrow> (Inl e, c1)
      | (Inr _, c1) \<Rightarrow>
         (case write_back api TInterface c1 of
            (Inl e, c2) \<Rightarrow> (Inl e, c2)
          | (Inr _, c2) \<Rightarrow>
             (case write_back api TPort c2 of
                (Inl e, c3) \<Rightarrow> (Inl e, c3)
              | (Inr _, c3) \<Rightarrow>
                 (case torrent_get api TDownloadFolder c3 of
                    Inl e \<Rightarrow> (Inl e, c3)
                  | Inr dir \<Rightarrow> (Inr (), c3\<lparr>c_fs := CreateFolder dir (c_fs c3)\<rparr>)))))"

record dirs =
  dl_dir :: string
  tf_dir :: string
  pr_dir :: string

text \<open>What \<^verbatim>\<open>GetDownloadDirectory\<close>, \<^verbatim>\<open>GetTorrentFilesDirectory\<close> and \<^verbatim>\<open>GetProjectsDirectory\<close> return.\<close>

definition torrent_dirs :: "('pt, 'd) ptree_api \<Rightarrow> ('pt, 'd) config \<Rightarrow> dirs result" where
  "torrent_dirs api c =
     (case (torrent_get api TDownloadFolder c, torrent_get api TTFilesFolder c, torrent_get api TProjectsFolder c) of
        (Inr d, Inr t, Inr p) \<Rightarrow> Inr \<lparr>dl_dir = d, tf_dir = t, pr_dir = p\<rparr>
      | (Inl e, _, _) \<Rightarrow> Inl e
      | (_, Inl e, _) \<Rightarrow> Inl e
      | (_, _, Inl e) \<Rightarrow> Inl e)"

section \<open>Every key resolves\<close>

lemma tpath_eq:
  "tpath TPort = Inr ''torrent.port''" "tpath TInterface = Inr ''torrent.interface''"
  "tpath TDownloadFolder = Inr ''torrent.downloadFolder''"
  "tpath TTFilesFolder = Inr ''torrent.torrentFilesFolder''"
  "tpath TProjectsFolder = Inr ''torrent.projectsFolder''"
  by (simp_all add: tpath_def Key_def torrent_keys_def Section_def less_tkey_def)

lemma tpath_total: "\<exists>p. tpath k = Inr p"
  by (cases k) (simp_all add: tpath_eq)

lemma tpath_inj: "tpath k = tpath k' \<longleftrightarrow> k = k'"
  by (cases k; cases k') (simp_all add: tpath_eq)

lemma tpath_apart: "tpath k = Inr p \<Longrightarrow> tpath k' = Inr p' \<Longrightarrow> \<not> above p' p"
  by (cases k; cases k') (auto simp: tpath_eq above_def Cons_eq_append_conv)

lemma torrent_get_ok: "\<exists>v. torrent_get api k c = Inr v"
  using tpath_total [of k] by (auto simp: torrent_get_def)

lemma torrent_set_fs [simp]: "c_fs (snd (torrent_set api k v c)) = c_fs c"
  by (auto simp: torrent_set_def WriteString_def Let_def split: sum.splits prod.splits option.splits)

context property_tree
begin

lemma torrent_get_set:
  "torrent_get api k (snd (torrent_set api k' v c)) = (if k = k' then Inr v else torrent_get api k c)"
proof -
  obtain p p' where p: "tpath k = Inr p" "tpath k' = Inr p'" using tpath_total by blast
  then have "\<not> above p p'" using tpath_apart by blast
  with p tpath_inj [of k k'] show ?thesis
    by (auto simp: torrent_get_def torrent_set_def rd_wr)
qed

lemma torrent_get_write_back: "torrent_get api k (snd (write_back api k' c)) = torrent_get api k c"
  using torrent_get_ok [of api k' c] by (auto simp: write_back_def torrent_get_set)

lemma write_back_fs: "c_fs (snd (write_back api k c)) = c_fs c"
  using torrent_get_ok [of api k c] by (auto simp: write_back_def)

end

section \<open>Start-up\<close>

lemma torrent_Init_done:
  assumes "torrent_Init api c = (Inr (), c')"
  obtains c1 c2 c3 dir where "write_back api TDownloadFolder c = (Inr (), c1)" and "write_back api TInterface c1 = (Inr (), c2)"
    and "write_back api TPort c2 = (Inr (), c3)" and "torrent_get api TDownloadFolder c3 = Inr dir"
    and "c' = c3\<lparr>c_fs := CreateFolder dir (c_fs c3)\<rparr>"
  using assms by (auto simp: torrent_Init_def split: prod.splits sum.splits)

lemma write_back_same:
  assumes "property_tree api" and "write_back api k' c = (r, c')"
  shows "torrent_get api k c' = torrent_get api k c" and "c_fs c' = c_fs c"
  using property_tree.torrent_get_write_back [OF assms(1), of k k' c] property_tree.write_back_fs [OF assms(1), of k' c]
    assms(2) by simp_all

text \<open>When the start-up of the torrent configuration succeeds, every setting reads as before (what was
  a default is now stored), the download folder exists if it could be made, and no file is lost.\<close>

lemma torrent_Init_effect:
  assumes "property_tree api" and "torrent_Init api c = (Inr (), c')" and "fs_ok (c_fs c)"
    and "torrent_get api TDownloadFolder c = Inr dir"
  shows "(\<forall>k. torrent_get api k c' = torrent_get api k c)
    \<and> (way_free (c_fs c) [] (resolve dir) \<longrightarrow> is_dir (c_fs c') (resolve dir))
    \<and> (\<forall>q n. fs_nodes (c_fs c) q = Some n \<longrightarrow> fs_nodes (c_fs c') q = Some n)"
proof -
  obtain c1 c2 c3 dir' where s: "write_back api TDownloadFolder c = (Inr (), c1)" "write_back api TInterface c1 = (Inr (), c2)"
    "write_back api TPort c2 = (Inr (), c3)" "torrent_get api TDownloadFolder c3 = Inr dir'"
    "c' = c3\<lparr>c_fs := CreateFolder dir' (c_fs c3)\<rparr>"
    using torrent_Init_done [OF assms(2)] .
  note same = write_back_same [OF assms(1)]
  have get: "torrent_get api k c3 = torrent_get api k c" for k
    using same(1) [OF s(1)] same(1) [OF s(2)] same(1) [OF s(3)] by simp
  have fs: "c_fs c3 = c_fs c" using same(2) [OF s(1)] same(2) [OF s(2)] same(2) [OF s(3)] by simp
  have "dir' = dir" using get [of TDownloadFolder] s(4) assms(4) by simp
  moreover have "torrent_get api k (c3\<lparr>c_fs := f\<rparr>) = torrent_get api k c3" for k f
    by (simp add: torrent_get_def GetString_def split: sum.split)
  ultimately show ?thesis
    using get fs s(5) mkdirs_reaches [of "c_fs c" "[]" "resolve dir"] mkdirs_keeps [of "c_fs c"] assms(3)
    by (simp add: CreateFolder_mkdirs)
qed

definition demo_tconfig :: "(ptree, pfile) config" where
  "demo_tconfig = \<lparr>c_root = PNode '''' [], c_file = \<lparr>pf_content = No_File, pf_open = True\<rparr>, c_fs = root_fs\<rparr>"

end
