(* ===== verification/Torrent_Core.thy ===== *)
theory Torrent_Core
  imports Torrent_Info_Manager Config_Torrent "HOL-Library.Signed_Division"
begin

text \<open>
  \<^verbatim>\<open>Daemon/src/torrent.{h,cpp}\<close>: the torrent engine, all but the thread protocol of \<open>Start\<close>/\<open>Stop\<close>
  (theory \<open>Torrent_Threads\<close>) and the alert loop (theory \<open>Torrent_Alerts\<close>).

  libtorrent is not part of the repository: what the code calls of it is the parameter \<open>lt_api\<close>,
  and the calls the code makes on a session are recorded in \<open>t_calls\<close>. Folders come from the torrent
  configuration (\<open>dirs\<close>), a random UUID is an argument. \<open>CreateTorrentAsync\<close> detaches a thread; the
  threads that have not run are the list \<open>t_jobs\<close>, and each runs \<open>CreateTorrent\<close> as one step here; theory
  \<open>Torrent_Jobs\<close> has their interleavings.
  Log output is left out.
\<close>

section \<open>What is used of libtorrent\<close>

record ('en, 'ti) lt_api =
  lt_add_files :: "fsys \<Rightarrow> string \<Rightarrow> string list"
  lt_num_pieces :: "string list \<Rightarrow> int"
  lt_hash_calls :: "fsys \<Rightarrow> string list \<Rightarrow> string \<Rightarrow> int list \<times> string option"
  lt_generate :: "fsys \<Rightarrow> string list \<Rightarrow> string \<Rightarrow> string \<Rightarrow> 'en option"
  lt_bencode :: "'en \<Rightarrow> string"
  lt_torrent_info :: "fsys \<Rightarrow> string \<Rightarrow> string + 'ti"
  lt_magnet :: "'ti \<Rightarrow> string"
  lt_ti_name :: "'ti \<Rightarrow> string"
  lt_ti_entry :: "'ti \<Rightarrow> 'en"
  lt_parse_magnet :: "string \<Rightarrow> string + (string \<times> string)"
  lt_hash_text :: "string \<Rightarrow> string"

record 'ti add_params =
  ap_name :: string
  ap_save_path :: string
  ap_url :: string
  ap_info_hash :: string
  ap_ti :: "'ti option"
  ap_seed_mode :: bool
  ap_resume :: string

definition default_params :: "'ti add_params" where
  "default_params =
     \<lparr>ap_name = '''', ap_save_path = '''', ap_url = '''', ap_info_hash = '''', ap_ti = None,
      ap_seed_mode = False, ap_resume = ''''\<rparr>"

datatype save_flags = No_Flags | Info_Dict | Info_Dict_If_Modified

datatype 'ti lt_call = Async_Add "'ti add_params" | Save_Resume nat save_flags

section \<open>State\<close>

text \<open>\<open>TorrentsInSystem\<close>: a default constructed handle is \<open>None\<close>.\<close>

record 'ti sys_torrent =
  st_param :: "'ti add_params"
  st_handle :: "nat option"

record 'ti engine =
  t_isWork :: bool
  t_session :: bool
  t_list :: "(string, 'ti sys_torrent) smap"
  t_mgr :: mgr
  t_canAdd :: bool
  t_fs :: fsys
  t_jobs :: "(string \<times> string) list"
  t_calls :: "'ti lt_call list"

definition engine_init :: "fsys \<Rightarrow> 'ti engine" where
  "engine_init fs =
     \<lparr>t_isWork = False, t_session = False, t_list = [], t_mgr = mgr_init, t_canAdd = False,
      t_fs = fs, t_jobs = [], t_calls = []\<rparr>"

definition IsWork :: "'ti engine \<Rightarrow> bool" where
  "IsWork t = t_isWork t"

text \<open>\<open>Start\<close> and \<open>Stop\<close> as their effect on the state when they return.\<close>

definition Torrent_Start :: "'ti engine \<Rightarrow> 'ti engine" where
  "Torrent_Start t = (if IsWork t then t else t\<lparr>t_session := True, t_isWork := True\<rparr>)"

definition Torrent_Stop :: "'ti engine \<Rightarrow> 'ti engine" where
  "Torrent_Stop t =
     (if \<not> IsWork t then t else t\<lparr>t_isWork := False, t_session := False, t_list := []\<rparr>)"

section \<open>Status of a torrent\<close>

definition UpdateStatus :: "string \<Rightarrow> tstatus \<Rightarrow> u32 \<Rightarrow> mgr \<Rightarrow> mgr" where
  "UpdateStatus uuid status progress s =
     (let (info, s1) = Get uuid s
      in modify info (SetProgress (sint progress)) (modify info (SetStatus status) s1))"

text \<open>
  \<^verbatim>\<open>trunc(1.0 * curPiece * 100 / totalPieces)\<close>: the product is exact in a \<^verbatim>\<open>double\<close> and the quotient is
  at least \<open>1 / totalPieces\<close> away from the next integer, far more than a rounding error, so the
  truncated quotient is the integer one.
\<close>

definition UpdateCreationProgress :: "string \<Rightarrow> int \<Rightarrow> int \<Rightarrow> mgr \<Rightarrow> mgr" where
  "UpdateCreationProgress uuid curPiece totalPieces s =
     UpdateStatus uuid GENERATING (word_of_int ((curPiece * 100) sdiv totalPieces)) s"

definition GetIdByName :: "'ti engine \<Rightarrow> string \<Rightarrow> string" where
  "GetIdByName t name =
     (case map_first (\<lambda>e. ap_name (st_param e) = name) (t_list t) of
        Some k \<Rightarrow> k
      | None \<Rightarrow> '''')"

definition GetTorrentInfo :: "string \<Rightarrow> 'ti engine \<Rightarrow> tinfo option \<times> 'ti engine" where
  "GetTorrentInfo uuid t =
     (let (info, s1) = Get uuid (t_mgr t)
      in (map_option TorrentInfo_copy (deref s1 info), t\<lparr>t_mgr := s1\<rparr>))"

text \<open>A torrent that was added by its magnet link has no \<open>param.ti\<close>: the code dereferences it all the same.\<close>

definition GetMagnetFromHandler :: "('en, 'ti) lt_api \<Rightarrow> string \<Rightarrow> 'ti engine \<Rightarrow> string outcome" where
  "GetMagnetFromHandler lt uuid t =
     (case map_find (t_list t) uuid of
        None \<Rightarrow> Ret ''''
      | Some e \<Rightarrow> (case ap_ti (st_param e) of None \<Rightarrow> Undefined | Some ti \<Rightarrow> Ret (lt_magnet lt ti)))"

section \<open>Files\<close>

definition WriteTorrent ::
  "('en, 'ti) lt_api \<Rightarrow> dirs \<Rightarrow> 'en \<Rightarrow> string \<Rightarrow> fsys \<Rightarrow> string result \<times> fsys" where
  "WriteTorrent lt ds en name fs =
     (let fileName = tf_dir ds @ ''/'' @ name @ ''.torrent'';
          fs1 = CreateFolder (tf_dir ds) fs;
          (r, fs2) = (if IsFileExist fs1 fileName then Remove fileName fs1 else (Inr (), fs1))
      in (case r of
            Inl e \<Rightarrow> (Inl e, fs2)
          | Inr _ \<Rightarrow> (Inr fileName, ofs_write fs2 fileName (lt_bencode lt en))))"

definition CreateInfoFromFile :: "('en, 'ti) lt_api \<Rightarrow> fsys \<Rightarrow> string \<Rightarrow> 'ti result" where
  "CreateInfoFromFile lt fs path =
     (case lt_torrent_info lt fs path of
        Inl msg \<Rightarrow> Inl (Runtime_Error (''Can't init torrent file : '' @ msg))
      | Inr ti \<Rightarrow> Inr ti)"

definition GetResumeFilePath :: "('en, 'ti) lt_api \<Rightarrow> dirs \<Rightarrow> string \<Rightarrow> string" where
  "GetResumeFilePath lt ds infoHash = dl_dir ds @ ''/.resume/'' @ lt_hash_text lt infoHash @ ''.resume''"

section \<open>Adding a torrent to the session\<close>

text \<open>\<^verbatim>\<open>torrentsIdList[curUUID].param = param\<close>: an existing entry keeps its handle.\<close>

definition put_param :: "string \<Rightarrow> 'ti add_params \<Rightarrow> (string, 'ti sys_torrent) smap \<Rightarrow> (string, 'ti sys_torrent) smap" where
  "put_param k param l =
     map_put k (case map_find l k of
                  None \<Rightarrow> \<lparr>st_param = param, st_handle = None\<rparr>
                | Some e \<Rightarrow> e\<lparr>st_param := param\<rparr>) l"

definition put_handle :: "string \<Rightarrow> nat \<Rightarrow> (string, 'ti sys_torrent) smap \<Rightarrow> (string, 'ti sys_torrent) smap" where
  "put_handle k h l =
     map_put k (case map_find l k of
                  None \<Rightarrow> \<lparr>st_param = default_params, st_handle = Some h\<rparr>
                | Some e \<Rightarrow> e\<lparr>st_handle := Some h\<rparr>) l"

definition AddTorrent :: "string \<Rightarrow> string \<Rightarrow> 'ti add_params \<Rightarrow> 'ti engine \<Rightarrow> unit outcome \<times> 'ti engine" where
  "AddTorrent fresh uuid param t =
     (if \<not> t_session t then (Undefined, t)
      else
        let curUUID = (if uuid = '''' then fresh else uuid)
        in (Ret (), t\<lparr>t_calls := t_calls t @ [Async_Add param],
                      t_list := put_param curUUID param (t_list t)\<rparr>))"

definition AddTorrentFile ::
  "('en, 'ti) lt_api \<Rightarrow> string \<Rightarrow> string \<Rightarrow> string \<Rightarrow> string \<Rightarrow> 'ti engine \<Rightarrow> unit outcome \<times> 'ti engine" where
  "AddTorrentFile lt fresh uuid pathToTorrent downloadPath t =
     (case CreateInfoFromFile lt (t_fs t) pathToTorrent of
        Inl e \<Rightarrow> (Throw e, t)
      | Inr ti \<Rightarrow>
          AddTorrent fresh uuid
            (default_params\<lparr>ap_save_path := downloadPath, ap_ti := Some ti, ap_seed_mode := True\<rparr>) t)"

section \<open>Generating a torrent\<close>

definition generating :: "tstatus \<Rightarrow> bool" where
  "generating st \<longleftrightarrow> st = GENERATING \<or> st = GENERATED"

definition CreateTorrentAsync :: "string \<Rightarrow> string \<Rightarrow> 'ti engine \<Rightarrow> 'ti engine" where
  "CreateTorrentAsync uuid path t =
     (let (i1, s1) = Get uuid (t_mgr t);
          (i2, s2) = Get uuid s1
      in case (deref s1 i1, deref s2 i2) of
           (Some a, Some b) \<Rightarrow>
             if GetStatus a \<noteq> GENERATING \<and> GetStatus b \<noteq> GENERATED
             then t\<lparr>t_mgr := s2, t_jobs := t_jobs t @ [(uuid, path)]\<rparr>
             else t\<lparr>t_mgr := s2\<rparr>
         | _ \<Rightarrow> t)"

text \<open>
  The body of the detached thread. The handler catches \<^verbatim>\<open>std::runtime_error\<close> from reading the written
  file back; an exception of \<open>WriteTorrent\<close> is outside it and ends the process (\<open>Throw\<close>).
\<close>

definition finish_create ::
  "('en, 'ti) lt_api \<Rightarrow> dirs \<Rightarrow> string \<Rightarrow> string \<Rightarrow> nat \<Rightarrow> string \<Rightarrow> 'ti engine \<Rightarrow> unit outcome \<times> 'ti engine" where
  "finish_create lt ds fresh uuid info fileName t =
     (case CreateInfoFromFile lt (t_fs t) fileName of
        Inl e \<Rightarrow> (Ret (), t\<lparr>t_mgr := UpdateStatus uuid GENERATION_ERROR 0 (t_mgr t)\<rparr>)
      | Inr tInfo \<Rightarrow>
          let s1 = modify info (SetLink (lt_magnet lt tInfo)) (t_mgr t);
              s2 = modify info (SetPathToTFile fileName) s1;
              s3 = modify info (SetProgress 100) s2;
              s4 = modify info (SetStatus GENERATED) s3
          in (case AddTorrentFile lt fresh uuid fileName (pr_dir ds) (t\<lparr>t_mgr := s4\<rparr>) of
                (Throw e, t1) \<Rightarrow> (Ret (), t1\<lparr>t_mgr := UpdateStatus uuid GENERATION_ERROR 0 (t_mgr t1)\<rparr>)
              | r \<Rightarrow> r))"

definition CreateTorrent ::
  "('en, 'ti) lt_api \<Rightarrow> dirs \<Rightarrow> string \<Rightarrow> string \<Rightarrow> string \<Rightarrow> 'ti engine \<Rightarrow> unit outcome \<times> 'ti engine" where
  "CreateTorrent lt ds fresh uuid path t =
     (let (info, s1) = Create uuid (t_mgr t);
          s2 = modify info (SetStatus GENERATING) s1;
          s3 = modify info (SetPathToProject path) s2;
          files = lt_add_files lt (t_fs t) path
      in if files = [] then (Ret (), t\<lparr>t_mgr := UpdateStatus uuid GENERATION_ERROR 0 s3\<rparr>)
         else
           let (pieces, ec) = lt_hash_calls lt (t_fs t) files (GetDirectory path);
               s4 = fold (\<lambda>i. UpdateCreationProgress uuid i (lt_num_pieces lt files)) pieces s3
           in if ec \<noteq> None then (Ret (), t\<lparr>t_mgr := s4\<rparr>)
              else (case lt_generate lt (t_fs t) files (GetDirectory path) ''VerAI libtorrent'' of
                      None \<Rightarrow> (Ret (), t\<lparr>t_mgr := UpdateStatus uuid GENERATION_ERROR 0 s4\<rparr>)
                    | Some e \<Rightarrow>
                        (case WriteTorrent lt ds e (GetFileName path) (t_fs t) of
                           (Inl ex, fs1) \<Rightarrow> (Throw ex, t\<lparr>t_mgr := s4, t_fs := fs1\<rparr>)
                         | (Inr fileName, fs1) \<Rightarrow>
                             finish_create lt ds fresh uuid info fileName
                               (t\<lparr>t_mgr := s4, t_fs := fs1\<rparr>))))"

text \<open>One of the detached threads runs.\<close>

definition run_job ::
  "('en, 'ti) lt_api \<Rightarrow> dirs \<Rightarrow> string \<Rightarrow> nat \<Rightarrow> 'ti engine \<Rightarrow> unit outcome \<times> 'ti engine" where
  "run_job lt ds fresh n t =
     (if n < length (t_jobs t)
      then (let (uuid, path) = t_jobs t ! n
            in CreateTorrent lt ds fresh uuid path
                 (t\<lparr>t_jobs := take n (t_jobs t) @ drop (Suc n) (t_jobs t)\<rparr>))
      else (Ret (), t))"

section \<open>Downloading a torrent\<close>

definition DownloadAsync ::
  "('en, 'ti) lt_api \<Rightarrow> dirs \<Rightarrow> string \<Rightarrow> string \<Rightarrow> string \<Rightarrow> 'ti engine \<Rightarrow> unit outcome \<times> 'ti engine" where
  "DownloadAsync lt ds fresh uuid link t =
     (let (info, s1) = Create uuid (t_mgr t);
          s2 = modify info (SetLink link) s1;
          s3 = modify info (SetStatus DOWNLOADING) s2
      in (case lt_parse_magnet lt link of
            Inl msg \<Rightarrow>
              (Throw (Runtime_Error (''Invalid magnet URI: '' @ msg)),
               t\<lparr>t_mgr := UpdateStatus uuid DOWNLOADING_ERROR 0 s3\<rparr>)
          | Inr (name, infoHash) \<Rightarrow>
              let s4 = modify info (SetPathToProject (dl_dir ds @ ''/'' @ name)) s3;
                  resume = GetResumeFilePath lt ds infoHash;
                  fs1 = CreateFolder (GetDirectory resume) (t_fs t);
                  param = default_params
                    \<lparr>ap_name := name, ap_info_hash := infoHash, ap_save_path := dl_dir ds,
                     ap_url := link, ap_resume := ifs_read fs1 resume\<rparr>
              in AddTorrent fresh uuid param (t\<lparr>t_mgr := s4, t_fs := fs1\<rparr>)))"

section \<open>The registry under the engine's updates\<close>

text \<open>
  Progress values are percentages, also in the objects that are filed under no id. \<open>mgr_sane\<close> is what every
  operation of the engine keeps of the registry.
\<close>

definition mgr_sane :: "mgr \<Rightarrow> bool" where
  "mgr_sane s \<longleftrightarrow> mgr_ok s \<and> (\<forall>p i. m_heap s p = Some i \<longrightarrow> tProgress i \<le> 100)"

definition keeps_percent :: "(tinfo \<Rightarrow> tinfo) \<Rightarrow> bool" where
  "keeps_percent f \<longleftrightarrow> keeps_id f \<and> (\<forall>i. tProgress i \<le> 100 \<longrightarrow> tProgress (f i) \<le> 100)"

lemma mgr_saneD [dest]: "mgr_sane s \<Longrightarrow> mgr_ok s"
  by (simp add: mgr_sane_def)

lemma mgr_sane_view: "mgr_sane s \<Longrightarrow> view s k = Some i \<Longrightarrow> tProgress i \<le> 100"
  by (auto simp: mgr_sane_def view_def split: option.splits)

lemma mgr_sane_init [simp, inv_intros]: "mgr_sane mgr_init"
  by (simp add: mgr_sane_def) (simp add: mgr_init_def)

lemma keeps_percent_setters [simp, inv_intros]:
  "keeps_percent (SetLink l)" "keeps_percent (SetPathToProject p)" "keeps_percent (SetPathToTFile p)"
  "keeps_percent (SetStatus st)"
  by (simp_all add: keeps_percent_def)

lemma keeps_percent_progress [inv_intros]:
  assumes "0 \<le> n" and "n \<le> 100"
  shows "keeps_percent (SetProgress n)"
proof -
  have "(word_of_int n :: u32) \<le> 100"
    using assms by (simp add: word_le_def uint_word_of_int)
  then show ?thesis by (simp add: keeps_percent_def)
qed

lemma mgr_sane_Get [inv_intros]: "mgr_sane s \<Longrightarrow> mgr_sane (snd (Get k s))"
  by (auto simp: mgr_sane_def reg.ok_get) (auto simp: Get_def make_shared_def split: option.splits if_splits)

lemma mgr_sane_Create [inv_intros]: "mgr_sane s \<Longrightarrow> mgr_sane (snd (Create k s))"
  by (auto simp: mgr_sane_def reg.ok_create)
    (auto simp: Create_def Create_info_def make_shared_def split: option.splits if_splits)

lemma mgr_sane_modify [inv_intros]:
  assumes "mgr_sane s" and "keeps_percent f"
  shows "mgr_sane (modify p f s)"
proof -
  from assms have "mgr_ok (modify p f s)" by (auto simp: keeps_percent_def reg.ok_alter)
  with assms show ?thesis
    by (auto simp: mgr_sane_def keeps_percent_def modify_def split: if_splits)
qed

lemma sint_percent: "(p :: u32) \<le> 100 \<Longrightarrow> 0 \<le> sint p \<and> sint p \<le> 100"
proof -
  assume le: "p \<le> 100"
  then have "uint p \<le> 100" by (simp add: word_le_def)
  then have "sint p = uint p"
    by (simp add: sint_uint signed_take_bit_int_eq_self_iff order.trans [OF _ uint_ge_0])
  with \<open>uint p \<le> 100\<close> show "0 \<le> sint p \<and> sint p \<le> 100" by simp
qed

lemma mgr_sane_UpdateStatus [inv_intros]:
  assumes "mgr_sane s" and "progress \<le> 100"
  shows "mgr_sane (UpdateStatus uuid status progress s)"
  using assms sint_percent [OF assms(2)]
  by (auto simp: UpdateStatus_def Let_def split_def intro!: inv_intros)

lemma view_UpdateStatus:
  assumes "mgr_ok s"
  shows "view (UpdateStatus uuid status progress s) =
    (view s)(uuid := map_option (SetProgress (sint progress) \<circ> SetStatus status) (view s uuid))"
  using reg.obs_get_alter_twice [OF assms, of "SetStatus status" uuid "SetProgress (sint progress)"]
  by (simp add: UpdateStatus_def Let_def split_def)

lemma mgr_ok_UpdateStatus [inv_intros]: "mgr_ok s \<Longrightarrow> mgr_ok (UpdateStatus uuid status progress s)"
  by (simp add: UpdateStatus_def Let_def split_def reg.ok_get reg.ok_alter)

lemma bound_UpdateStatus: "mgr_ok s \<Longrightarrow> bound s k p \<Longrightarrow> bound (UpdateStatus uuid status progress s) k p"
  by (simp add: UpdateStatus_def Let_def split_def reg.names_get_keeps)

text \<open>The progress computed from a piece number is a percentage below 100.\<close>

lemma creation_progress_bound:
  fixes i n :: int
  assumes "0 \<le> i" and "i < n"
  shows "0 \<le> (i * 100) sdiv n" and "(i * 100) sdiv n < 100"
proof -
  have eq: "(i * 100) sdiv n = (i * 100) div n"
    using assms by (simp add: signed_divide_int_def sgn_if)
  show "0 \<le> (i * 100) sdiv n"
    using assms unfolding eq by (simp add: pos_imp_zdiv_nonneg_iff)
  show "(i * 100) sdiv n < 100"
  proof (rule ccontr)
    assume "\<not> (i * 100) sdiv n < 100"
    with assms have "100 * n \<le> (i * 100) div n * n"
      unfolding eq by (intro mult_right_mono) auto
    also have "\<dots> = i * 100 - (i * 100) mod n"
      by (simp add: minus_mod_eq_div_mult)
    also have "\<dots> \<le> i * 100"
      using assms by simp
    finally show False using assms by simp
  qed
qed

lemma word_percent: "0 \<le> (n::int) \<Longrightarrow> n \<le> 100 \<Longrightarrow> (word_of_int n :: u32) \<le> 100"
  by (simp add: word_le_def uint_word_of_int)

lemma mgr_sane_UpdateCreationProgress [inv_intros]:
  "mgr_sane s \<Longrightarrow> 0 \<le> i \<Longrightarrow> i < n \<Longrightarrow> mgr_sane (UpdateCreationProgress uuid i n s)"
  unfolding UpdateCreationProgress_def
  by (intro inv_intros word_percent) (use creation_progress_bound [of i n] in auto)

lemma fold_progress:
  assumes "mgr_ok s" and "bound s uuid p"
  shows "mgr_ok (fold (\<lambda>i. UpdateCreationProgress uuid i n) is s) \<and>
    bound (fold (\<lambda>i. UpdateCreationProgress uuid i n) is s) uuid p \<and>
    (\<forall>k. k \<noteq> uuid \<longrightarrow> view (fold (\<lambda>i. UpdateCreationProgress uuid i n) is s) k = view s k)"
  using assms
proof (induction "is" arbitrary: s)
  case (Cons i "is")
  have "mgr_ok (UpdateCreationProgress uuid i n s)" "bound (UpdateCreationProgress uuid i n s) uuid p"
    using Cons.prems by (simp_all add: UpdateCreationProgress_def mgr_ok_UpdateStatus bound_UpdateStatus)
  moreover have "view (UpdateCreationProgress uuid i n s) k = view s k" if "k \<noteq> uuid" for k
    using Cons.prems that by (simp add: UpdateCreationProgress_def view_UpdateStatus)
  ultimately show ?case using Cons.IH by simp
qed simp

lemma fold_progress_view:
  assumes "mgr_ok s" and "view s uuid = Some i0" and "tStatus i0 = GENERATING"
  shows "\<exists>i. view (fold (\<lambda>i. UpdateCreationProgress uuid i n) is s) uuid = Some i \<and> tStatus i = GENERATING
    \<and> tLink i = tLink i0 \<and> tPath i = tPath i0 \<and> pPath i = pPath i0 \<and> tId i = tId i0"
  using assms
proof (induction "is" arbitrary: s i0)
  case (Cons i "is")
  let ?i1 = "SetProgress (sint (word_of_int ((i * 100) sdiv n) :: u32)) (SetStatus GENERATING i0)"
  have "mgr_ok (UpdateCreationProgress uuid i n s)" "view (UpdateCreationProgress uuid i n s) uuid = Some ?i1"
    using Cons.prems by (simp_all add: UpdateCreationProgress_def mgr_ok_UpdateStatus view_UpdateStatus)
  from Cons.IH [OF this] show ?case by simp
qed simp

lemma fold_progress_sane:
  assumes "mgr_sane s" and "\<And>i. i \<in> set is \<Longrightarrow> 0 \<le> i \<and> i < n"
  shows "mgr_sane (fold (\<lambda>i. UpdateCreationProgress uuid i n) is s)"
  using assms by (induction "is" arbitrary: s) (auto intro!: inv_intros)

section \<open>The list of torrents in the session\<close>

lemma map_ok_put_param [simp, inv_intros]: "map_ok l \<Longrightarrow> map_ok (put_param k param l)"
  by (simp add: put_param_def)

lemma map_ok_put_handle [simp, inv_intros]: "map_ok l \<Longrightarrow> map_ok (put_handle k h l)"
  by (simp add: put_handle_def)

lemma find_put_param:
  "map_ok l \<Longrightarrow> map_option st_param (map_find (put_param k param l) q) =
     (if q = k then Some param else map_option st_param (map_find l q))"
  by (auto simp: put_param_def std_map.find_put split: option.splits)

lemma find_put_handle:
  "map_ok l \<Longrightarrow> map_find l k = Some e \<Longrightarrow> map_option st_param (map_find (put_handle k h l) q) =
     map_option st_param (map_find l q)"
  by (auto simp: put_handle_def std_map.find_put split: option.splits)

text \<open>\<open>GetIdByName\<close> finds the least id among the torrents with that name.\<close>

lemma GetIdByName_found:
  assumes "map_ok (t_list t)" and "GetIdByName t name = k" and "k \<noteq> ''''"
  shows "\<exists>e. map_find (t_list t) k = Some e \<and> ap_name (st_param e) = name"
  using assms std_map.first_least [OF assms(1)]
  by (fastforce simp: GetIdByName_def split: option.splits)

section \<open>The invariant of the engine\<close>

definition engine_ok :: "'ti engine \<Rightarrow> bool" where
  "engine_ok t \<longleftrightarrow> mgr_sane (t_mgr t) \<and> map_ok (t_list t) \<and> fs_ok (t_fs t) \<and> (t_isWork t \<longrightarrow> t_session t)"

text \<open>Documented behaviour of \<^verbatim>\<open>set_piece_hashes\<close>: the callback is given the index of a piece.\<close>

definition lt_pieces_ok :: "('en, 'ti) lt_api \<Rightarrow> bool" where
  "lt_pieces_ok lt \<longleftrightarrow> (\<forall>fs files dir. \<forall>i \<in> set (fst (lt_hash_calls lt fs files dir)).
     0 \<le> i \<and> i < lt_num_pieces lt files)"

lemma engine_okD:
  assumes "engine_ok t"
  shows "mgr_sane (t_mgr t)" "mgr_ok (t_mgr t)" "map_ok (t_list t)" "fs_ok (t_fs t)"
  using assms by (auto simp: engine_ok_def)

lemma engine_ok_init: "fs_ok fs \<Longrightarrow> engine_ok (engine_init fs)"
  by (simp add: engine_ok_def engine_init_def)

lemma engine_ok_mgr: "engine_ok t \<Longrightarrow> mgr_sane s \<Longrightarrow> engine_ok (t\<lparr>t_mgr := s\<rparr>)"
  by (simp add: engine_ok_def)

lemma engine_ok_mgr_fs: "engine_ok t \<Longrightarrow> mgr_sane s \<Longrightarrow> fs_ok fs \<Longrightarrow> engine_ok (t\<lparr>t_mgr := s, t_fs := fs\<rparr>)"
  by (simp add: engine_ok_def)

lemma engine_ok_jobs [simp]: "engine_ok (t\<lparr>t_jobs := js\<rparr>) = engine_ok t"
  by (simp add: engine_ok_def)

lemma engine_ok_AddTorrent:
  "engine_ok t \<Longrightarrow> engine_ok (snd (AddTorrent fresh uuid param t))"
  by (auto simp: AddTorrent_def engine_ok_def Let_def)

lemma engine_ok_AddTorrentFile:
  "engine_ok t \<Longrightarrow> engine_ok (snd (AddTorrentFile lt fresh uuid p d t))"
  by (simp add: AddTorrentFile_def engine_ok_AddTorrent split: sum.split)

lemma fs_ok_Remove: "Remove p fs = (r, fs2) \<Longrightarrow> fs_ok fs \<Longrightarrow> fs_ok fs2"
  by (auto simp: Remove_def split: option.splits intro: fs_ok_sys_remove)

lemma fs_ok_CreateFolder: "fs_ok fs \<Longrightarrow> fs_ok (CreateFolder dir fs)"
  by (simp add: CreateFolder_mkdirs mkdirs_ok)

lemma fs_ok_WriteTorrent: "fs_ok fs \<Longrightarrow> fs_ok (snd (WriteTorrent lt ds en name fs))"
  by (auto simp: WriteTorrent_def Let_def split: prod.splits sum.splits if_splits
      intro: fs_ok_CreateFolder elim: fs_ok_Remove [OF _ fs_ok_CreateFolder])

lemma engine_ok_CreateTorrentAsync: "engine_ok t \<Longrightarrow> engine_ok (CreateTorrentAsync uuid path t)"
  using mgr_sane_Get [of "snd (Get uuid (t_mgr t))"] mgr_sane_Get [of "t_mgr t"]
  by (auto simp: CreateTorrentAsync_def Let_def split_def engine_ok_def split: option.splits)

lemma engine_ok_finish_create:
  assumes "engine_ok t"
  shows "engine_ok (snd (finish_create lt ds fresh uuid info fileName t))"
proof (cases "CreateInfoFromFile lt (t_fs t) fileName")
  case (Inl e)
  with assms engine_okD [OF assms] show ?thesis
    by (auto simp: finish_create_def intro!: engine_ok_mgr inv_intros)
next
  case (Inr ti)
  let ?s = "modify info (SetStatus GENERATED) (modify info (SetProgress 100) (modify info (SetPathToTFile fileName)
              (modify info (SetLink (lt_magnet lt ti)) (t_mgr t))))"
  have "mgr_sane ?s"
    using engine_okD [OF assms] by (intro inv_intros) auto
  then have ok: "engine_ok (t\<lparr>t_mgr := ?s\<rparr>)" using assms by (rule engine_ok_mgr [rotated])
  obtain r t1 where add: "AddTorrentFile lt fresh uuid fileName (pr_dir ds) (t\<lparr>t_mgr := ?s\<rparr>) = (r, t1)"
    by fastforce
  with engine_ok_AddTorrentFile [OF ok, of lt fresh uuid fileName "pr_dir ds"] have t1: "engine_ok t1" by simp
  then have "engine_ok (t1\<lparr>t_mgr := UpdateStatus uuid GENERATION_ERROR 0 (t_mgr t1)\<rparr>)"
    by (intro engine_ok_mgr inv_intros) (auto dest: engine_okD)
  with t1 add Inr show ?thesis
    by (simp add: finish_create_def Let_def split: outcome.split)
qed

text \<open>The first writes of \<open>CreateTorrent\<close>: the object exists, is \<open>GENERATING\<close> and has its path.\<close>

lemma create_start:
  fixes uuid path :: string
  assumes "mgr_ok s"
  defines "s3 \<equiv> modify (fst (Create uuid s)) (SetPathToProject path)
                   (modify (fst (Create uuid s)) (SetStatus GENERATING) (snd (Create uuid s)))"
    and "base \<equiv> (case view s uuid of None \<Rightarrow> TorrentInfo uuid | Some i \<Rightarrow> i)"
  shows "mgr_ok s3" and "bound s3 uuid (fst (Create uuid s))"
    and "view s3 = (view s)(uuid := Some (SetPathToProject path (SetStatus GENERATING base)))"
    and "mgr_sane s \<Longrightarrow> mgr_sane s3"
proof -
  show "mgr_ok s3" and "bound s3 uuid (fst (Create uuid s))"
    using assms by (simp_all add: reg.ok_create reg.ok_alter reg.names_create)
  show "view s3 = (view s)(uuid := Some (SetPathToProject path (SetStatus GENERATING base)))"
    using assms by (simp add: reg.obs_alter_twice [where k = uuid] reg.ok_create reg.names_create reg.obs_create)
  show "mgr_sane s3" if "mgr_sane s"
    unfolding s3_def using that by (intro inv_intros) auto
qed

lemma engine_ok_CreateTorrent:
  assumes ok: "engine_ok t" and lt: "lt_pieces_ok lt"
  shows "engine_ok (snd (CreateTorrent lt ds fresh uuid path t))"
proof -
  obtain info s1 where cr: "Create uuid (t_mgr t) = (info, s1)" by fastforce
  let ?s3 = "modify info (SetPathToProject path) (modify info (SetStatus GENERATING) s1)"
  let ?files = "lt_add_files lt (t_fs t) path"
  obtain pieces ec where hash: "lt_hash_calls lt (t_fs t) ?files (GetDirectory path) = (pieces, ec)" by fastforce
  let ?s4 = "fold (\<lambda>i. UpdateCreationProgress uuid i (lt_num_pieces lt ?files)) pieces ?s3"
  have s3: "mgr_sane ?s3"
    using create_start(4) [of "t_mgr t" uuid path] engine_okD [OF ok] cr by simp
  have "i \<in> set pieces \<Longrightarrow> 0 \<le> i \<and> i < lt_num_pieces lt ?files" for i
    using lt hash unfolding lt_pieces_ok_def by (metis fst_conv)
  with s3 have s4: "mgr_sane ?s4" by (rule fold_progress_sane)
  have err: "engine_ok (t\<lparr>t_mgr := UpdateStatus uuid GENERATION_ERROR 0 s\<rparr>)" if "mgr_sane s" for s
    using ok that by (auto intro!: engine_ok_mgr inv_intros)
  have wr: "engine_ok (t\<lparr>t_mgr := ?s4, t_fs := fs1\<rparr>)"
    if "WriteTorrent lt ds e (GetFileName path) (t_fs t) = (r, fs1)" for e r fs1
    using that fs_ok_WriteTorrent [of "t_fs t" lt ds e "GetFileName path"] engine_okD(4) [OF ok]
    by (intro engine_ok_mgr_fs ok s4) simp
  show ?thesis
    using err [OF s3] err [OF s4] engine_ok_mgr [OF ok s4] wr engine_ok_finish_create [OF wr]
    by (auto simp: CreateTorrent_def Let_def cr hash split: option.split prod.split sum.split)
qed

lemma engine_ok_run_job:
  "engine_ok t \<Longrightarrow> lt_pieces_ok lt \<Longrightarrow> engine_ok (snd (run_job lt ds fresh n t))"
  by (simp add: run_job_def Let_def engine_ok_CreateTorrent split_def)

text \<open>The first writes of \<open>DownloadAsync\<close>.\<close>

lemma download_start:
  fixes uuid link :: string
  assumes "mgr_ok s"
  defines "s3 \<equiv> modify (fst (Create uuid s)) (SetStatus DOWNLOADING)
                   (modify (fst (Create uuid s)) (SetLink link) (snd (Create uuid s)))"
    and "base \<equiv> (case view s uuid of None \<Rightarrow> TorrentInfo uuid | Some i \<Rightarrow> i)"
  shows "mgr_ok s3" and "bound s3 uuid (fst (Create uuid s))"
    and "view s3 = (view s)(uuid := Some (SetStatus DOWNLOADING (SetLink link base)))"
    and "mgr_sane s \<Longrightarrow> mgr_sane s3"
proof -
  show "mgr_ok s3" and "bound s3 uuid (fst (Create uuid s))"
    using assms by (simp_all add: reg.ok_create reg.ok_alter reg.names_create)
  show "view s3 = (view s)(uuid := Some (SetStatus DOWNLOADING (SetLink link base)))"
    using assms by (simp add: reg.obs_alter_twice [where k = uuid] reg.ok_create reg.names_create reg.obs_create)
  show "mgr_sane s3" if "mgr_sane s"
    unfolding s3_def using that by (intro inv_intros) auto
qed

lemma engine_ok_DownloadAsync:
  assumes ok: "engine_ok t"
  shows "engine_ok (snd (DownloadAsync lt ds fresh uuid link t))"
proof -
  obtain info s1 where cr: "Create uuid (t_mgr t) = (info, s1)" by fastforce
  let ?s3 = "modify info (SetStatus DOWNLOADING) (modify info (SetLink link) s1)"
  have s3: "mgr_sane ?s3"
    using download_start(4) [of "t_mgr t" uuid link] engine_okD [OF ok] cr by simp
  have err: "engine_ok (t\<lparr>t_mgr := UpdateStatus uuid DOWNLOADING_ERROR 0 ?s3\<rparr>)"
    by (intro engine_ok_mgr ok mgr_sane_UpdateStatus s3) simp
  have add: "engine_ok (t\<lparr>t_mgr := modify info (SetPathToProject d) ?s3, t_fs := CreateFolder f (t_fs t)\<rparr>)" for d f
    by (intro engine_ok_mgr_fs ok mgr_sane_modify s3 fs_ok_CreateFolder engine_okD(4) [OF ok]) simp
  show ?thesis
    using err engine_ok_AddTorrent [OF add]
    by (simp add: DownloadAsync_def Let_def cr split: sum.split prod.split)
qed

end
