(* ===== verification/Torrent_Alerts.thy ===== *)
theory Torrent_Alerts
  imports Torrent_Core
begin

text \<open>
  \<^verbatim>\<open>Torrent::HandlerAlerts\<close> and \<^verbatim>\<open>Torrent::State\<close>: the loop that turns libtorrent's alerts into updates
  of the registry. An alert is one constructor of \<open>alert\<close> with what the code reads of it; the alert
  types the loop does not test for, and the ones it only logs, are \<open>Other_Alert\<close> and
  \<open>Metadata_Failed\<close>. An exception of \<open>WriteTorrent\<close> leaves the thread, which ends the process
  (\<open>Throw\<close>).
\<close>

datatype lt_state =
    Checking_Files | Downloading_Metadata | Downloading_State | Finished_State | Seeding
  | Allocating | Checking_Resume_Data | Queued_For_Checking

fun State :: "lt_state \<Rightarrow> string" where
  "State Checking_Files = ''checking''"
| "State Downloading_Metadata = ''dl metadata''"
| "State Downloading_State = ''downloading''"
| "State Finished_State = ''finished''"
| "State Seeding = ''seeding''"
| "State Allocating = ''allocating''"
| "State Checking_Resume_Data = ''checking resume''"
| "State _ = ''<>''"

record lt_status =
  ts_name :: string
  ts_state :: lt_state
  ts_progress_ppm :: int

text \<open>
  \<open>Add_Torrent name err h\<close>: \<open>err\<close> tells whether \<^verbatim>\<open>ap->error\<close> is set. \<open>Metadata_Received name h ti\<close>:
  \<open>None\<close> for an invalid handle, otherwise its \<^verbatim>\<open>torrent_file()\<close>.
\<close>

datatype 'ti alert =
    Dht_Bootstrap
  | Add_Torrent string bool nat
  | Torrent_Finished string nat
  | Torrent_Error string
  | Torrent_Paused string nat
  | Metadata_Received string nat "'ti option"
  | Metadata_Failed string
  | State_Update "lt_status list"
  | Other_Alert

definition log_call :: "nat \<Rightarrow> save_flags \<Rightarrow> 'ti engine \<Rightarrow> 'ti engine" where
  "log_call h fl t = t\<lparr>t_calls := t_calls t @ [Save_Resume h fl]\<rparr>"

text \<open>\<^verbatim>\<open>if(!id.empty()) UpdateStatus(id, ...)\<close>\<close>

definition status_if_known :: "string \<Rightarrow> tstatus \<Rightarrow> u32 \<Rightarrow> 'ti engine \<Rightarrow> 'ti engine" where
  "status_if_known torrentId st p t =
     (if torrentId \<noteq> '''' then t\<lparr>t_mgr := UpdateStatus torrentId st p (t_mgr t)\<rparr> else t)"

text \<open>The body of the loop over a \<^verbatim>\<open>state_update_alert\<close>. C++ division truncates towards zero.\<close>

definition update_progress :: "lt_status \<Rightarrow> 'ti engine \<Rightarrow> 'ti engine" where
  "update_progress st t =
     (let torrentId = GetIdByName t (ts_name st)
      in if torrentId \<noteq> ''''
         then
           let (info, s1) = Get torrentId (t_mgr t)
           in t\<lparr>t_mgr := modify info
                  (SetProgress (if ts_state st = Finished_State then 100
                                else ts_progress_ppm st sdiv 10000)) s1\<rparr>
         else t)"

fun handle_alert ::
  "('en, 'ti) lt_api \<Rightarrow> dirs \<Rightarrow> 'ti alert \<Rightarrow> 'ti engine \<Rightarrow> unit outcome \<times> 'ti engine" where
  "handle_alert lt ds Dht_Bootstrap t = (Ret (), t\<lparr>t_canAdd := True\<rparr>)"
| "handle_alert lt ds (Add_Torrent name err h) t =
     (let torrentId = GetIdByName t name
      in if err then (Ret (), status_if_known torrentId DOWNLOADING_ERROR 0 t)
         else
           (let t1 = (if torrentId \<noteq> '''' then t\<lparr>t_list := put_handle torrentId h (t_list t)\<rparr> else t)
            in (Ret (), log_call h Info_Dict_If_Modified t1)))"
| "handle_alert lt ds (Torrent_Finished name h) t =
     (let t1 = log_call h No_Flags t;
          torrentId = GetIdByName t1 name;
          t2 = status_if_known torrentId DOWNLOADED 100 t1;
          (info, s) = Get torrentId (t_mgr t2);
          t3 = t2\<lparr>t_mgr := modify info (SetPathToTFile (tf_dir ds @ ''/'' @ name)) s\<rparr>
      in (Ret (), log_call h Info_Dict t3))"
| "handle_alert lt ds (Torrent_Error name) t =
     (Ret (), status_if_known (GetIdByName t name) DOWNLOADING_ERROR 0 t)"
| "handle_alert lt ds (Torrent_Paused name h) t = (Ret (), log_call h No_Flags t)"
| "handle_alert lt ds (Metadata_Received name h ti) t =
     (case ti of
        None \<Rightarrow> (Ret (), t)
      | Some tInfo \<Rightarrow>
          (case WriteTorrent lt ds (lt_ti_entry lt tInfo) (lt_ti_name lt tInfo) (t_fs t) of
             (Inl e, fs1) \<Rightarrow> (Throw e, t\<lparr>t_fs := fs1\<rparr>)
           | (Inr _, fs1) \<Rightarrow> (Ret (), t\<lparr>t_fs := fs1\<rparr>)))"
| "handle_alert lt ds (Metadata_Failed name) t = (Ret (), t)"
| "handle_alert lt ds (State_Update sts) t = (Ret (), fold update_progress sts t)"
| "handle_alert lt ds Other_Alert t = (Ret (), t)"

fun handle_alerts ::
  "('en, 'ti) lt_api \<Rightarrow> dirs \<Rightarrow> 'ti alert list \<Rightarrow> 'ti engine \<Rightarrow> unit outcome \<times> 'ti engine" where
  "handle_alerts lt ds [] t = (Ret (), t)"
| "handle_alerts lt ds (a # as) t =
     (case handle_alert lt ds a t of
        (Ret _, t1) \<Rightarrow> handle_alerts lt ds as t1
      | r \<Rightarrow> r)"

text \<open>
  The \<^verbatim>\<open>while(IsWork())\<close> loop over the batches \<^verbatim>\<open>pop_alerts\<close> delivers; an empty batch is a wait that
  timed out. The loop ends with the engine, with an exception, or waits for the next batch.
\<close>

fun HandlerAlerts ::
  "('en, 'ti) lt_api \<Rightarrow> dirs \<Rightarrow> 'ti alert list list \<Rightarrow> 'ti engine \<Rightarrow> unit outcome \<times> 'ti engine" where
  "HandlerAlerts lt ds [] t = (Ret (), t)"
| "HandlerAlerts lt ds (b # bs) t =
     (if \<not> IsWork t then (Ret (), t)
      else (case handle_alerts lt ds b t of
              (Ret _, t1) \<Rightarrow> HandlerAlerts lt ds bs t1
            | r \<Rightarrow> r))"

section \<open>What an alert does to the registry and to the list\<close>

lemma log_call_sel [simp]:
  "t_mgr (log_call h fl t) = t_mgr t" "t_list (log_call h fl t) = t_list t"
  "t_fs (log_call h fl t) = t_fs t" "t_isWork (log_call h fl t) = t_isWork t"
  "t_session (log_call h fl t) = t_session t"
  by (simp_all add: log_call_def)

lemma GetIdByName_cong [simp]:
  "GetIdByName (log_call h fl t) = GetIdByName t" "GetIdByName (t\<lparr>t_mgr := s\<rparr>) = GetIdByName t"
  by (simp_all add: fun_eq_iff GetIdByName_def)

lemma status_if_known_sel [simp]:
  "t_list (status_if_known k st p t) = t_list t" "t_fs (status_if_known k st p t) = t_fs t"
  "t_isWork (status_if_known k st p t) = t_isWork t" "t_session (status_if_known k st p t) = t_session t"
  by (simp_all add: status_if_known_def)

lemma update_progress_sel [simp]:
  "t_list (update_progress st t) = t_list t" "t_fs (update_progress st t) = t_fs t"
  "t_isWork (update_progress st t) = t_isWork t" "t_session (update_progress st t) = t_session t"
  by (simp_all add: update_progress_def Let_def split_def)

lemma fold_update_progress_sel [simp]:
  "t_list (fold update_progress sts t) = t_list t" "t_fs (fold update_progress sts t) = t_fs t"
  "t_isWork (fold update_progress sts t) = t_isWork t" "t_session (fold update_progress sts t) = t_session t"
  by (induction sts arbitrary: t) simp_all

lemma view_status_if_known:
  "mgr_ok (t_mgr t) \<Longrightarrow> view (t_mgr (status_if_known k st p t)) =
     (if k = '''' then view (t_mgr t)
      else (view (t_mgr t))(k := map_option (SetProgress (sint p) \<circ> SetStatus st) (view (t_mgr t) k)))"
  by (simp add: status_if_known_def view_UpdateStatus)

lemma view_update_progress:
  assumes "mgr_ok (t_mgr t)"
  shows "view (t_mgr (update_progress st t)) =
     (let k = GetIdByName t (ts_name st)
      in if k = '''' then view (t_mgr t)
         else (view (t_mgr t))(k := map_option (SetProgress (if ts_state st = Finished_State then 100
                                                   else ts_progress_ppm st sdiv 10000)) (view (t_mgr t) k)))"
  using reg.obs_get_alter [OF assms] by (simp add: update_progress_def Let_def split_def)

lemma mgr_ok_alert_parts [inv_intros]:
  "mgr_ok (t_mgr t) \<Longrightarrow> mgr_ok (t_mgr (status_if_known k st p t))"
  "mgr_ok (t_mgr t) \<Longrightarrow> mgr_ok (t_mgr (update_progress s t))"
  by (simp_all add: status_if_known_def mgr_ok_UpdateStatus update_progress_def Let_def split_def
      reg.ok_get reg.ok_alter)

text \<open>Values libtorrent documents: a progress in parts per million.\<close>

definition ppm_ok :: "lt_status \<Rightarrow> bool" where
  "ppm_ok st \<longleftrightarrow> 0 \<le> ts_progress_ppm st \<and> ts_progress_ppm st \<le> 1000000"

fun alert_ok :: "'ti alert \<Rightarrow> bool" where
  "alert_ok (State_Update sts) \<longleftrightarrow> list_all ppm_ok sts"
| "alert_ok _ \<longleftrightarrow> True"

lemma ppm_percent:
  assumes "ppm_ok st"
  shows "0 \<le> ts_progress_ppm st sdiv 10000" and "ts_progress_ppm st sdiv 10000 \<le> 100"
proof -
  have "ts_progress_ppm st sdiv 10000 = ts_progress_ppm st div 10000"
    using assms by (simp add: ppm_ok_def signed_divide_int_def sgn_if)
  with assms show "0 \<le> ts_progress_ppm st sdiv 10000" and "ts_progress_ppm st sdiv 10000 \<le> 100"
    by (auto simp: ppm_ok_def)
qed

lemma mgr_sane_status_if_known [inv_intros]:
  "mgr_sane (t_mgr t) \<Longrightarrow> p \<le> 100 \<Longrightarrow> mgr_sane (t_mgr (status_if_known k st p t))"
  by (simp add: status_if_known_def mgr_sane_UpdateStatus)

lemma mgr_sane_update_progress:
  assumes "mgr_sane (t_mgr t)" and "ppm_ok st"
  shows "mgr_sane (t_mgr (update_progress st t))"
  using ppm_percent [OF assms(2)] assms(1)
  by (auto simp: update_progress_def Let_def split_def intro!: inv_intros)

lemma engine_ok_update_progress: "engine_ok t \<Longrightarrow> ppm_ok st \<Longrightarrow> engine_ok (update_progress st t)"
  by (simp add: engine_ok_def mgr_sane_update_progress)

lemma engine_ok_fold_progress:
  "engine_ok t \<Longrightarrow> list_all ppm_ok sts \<Longrightarrow> engine_ok (fold update_progress sts t)"
  by (induction sts arbitrary: t) (auto simp: engine_ok_update_progress)

lemma engine_ok_Finished:
  assumes "engine_ok t"
  shows "engine_ok (snd (handle_alert lt ds (Torrent_Finished name h) t))"
proof -
  let ?t2 = "status_if_known (GetIdByName t name) DOWNLOADED 100 (log_call h No_Flags t)"
  have "mgr_sane (t_mgr ?t2)"
    using engine_okD [OF assms] by (intro inv_intros) auto
  then have "mgr_sane (modify p (SetPathToTFile x) (snd (Get k (t_mgr ?t2))))" for p x k
    by (intro mgr_sane_modify mgr_sane_Get keeps_percent_setters)
  with assms show ?thesis by (simp add: engine_ok_def Let_def split_def)
qed

lemma engine_ok_handle_alert:
  assumes "engine_ok t" and "alert_ok a"
  shows "engine_ok (snd (handle_alert lt ds a t))"
proof (cases a)
  case (Metadata_Received name h ti)
  have "fs_ok fs1" if "WriteTorrent lt ds en n (t_fs t) = (r, fs1)" for en n r fs1
    using fs_ok_WriteTorrent [of "t_fs t" lt ds en n] that engine_okD(4) [OF assms(1)] by simp
  with assms(1) show ?thesis
    by (auto simp: Metadata_Received engine_ok_def split: option.split prod.split sum.split)
next
  case (Torrent_Finished name h)
  with engine_ok_Finished [OF assms(1)] show ?thesis by simp
next
  case (State_Update sts)
  with assms engine_ok_fold_progress show ?thesis by auto
qed (use assms mgr_sane_status_if_known [of t] in \<open>auto simp: engine_ok_def Let_def\<close>)

lemma engine_ok_handle_alerts:
  "engine_ok t \<Longrightarrow> list_all alert_ok as \<Longrightarrow> engine_ok (snd (handle_alerts lt ds as t))"
proof (induction lt ds "as" t rule: handle_alerts.induct)
  case (2 lt ds a "as" t)
  obtain r t1 where step: "handle_alert lt ds a t = (r, t1)" by fastforce
  with engine_ok_handle_alert [of t a lt ds] "2.prems" have "engine_ok t1" by simp
  with 2 step show ?case by (cases r) auto
qed simp

section \<open>Torrents alerts do not reach\<close>

text \<open>
  A torrent that was added from a file (one the daemon generated itself) has no \<^verbatim>\<open>param.name\<close>: an
  alert carries a name and is matched against \<^verbatim>\<open>param.name\<close>, so it never selects such a torrent.
\<close>

fun alert_named :: "'ti alert \<Rightarrow> bool" where
  "alert_named (Add_Torrent name err h) \<longleftrightarrow> name \<noteq> ''''"
| "alert_named (Torrent_Finished name h) \<longleftrightarrow> name \<noteq> ''''"
| "alert_named (Torrent_Error name) \<longleftrightarrow> name \<noteq> ''''"
| "alert_named (State_Update sts) \<longleftrightarrow> list_all (\<lambda>st. ts_name st \<noteq> '''') sts"
| "alert_named _ \<longleftrightarrow> True"

definition param_name :: "'ti engine \<Rightarrow> string \<Rightarrow> string option" where
  "param_name t k = map_option (\<lambda>e. ap_name (st_param e)) (map_find (t_list t) k)"

lemma GetIdByName_other:
  assumes "map_ok (t_list t)" and "param_name t k = Some n" and "name \<noteq> n" and "k \<noteq> ''''"
  shows "GetIdByName t name \<noteq> k"
  using GetIdByName_found [OF assms(1)] assms(2-4) by (fastforce simp: param_name_def)

lemma param_name_sel [simp]:
  "param_name (log_call h fl t) = param_name t" "param_name (t\<lparr>t_mgr := s\<rparr>) = param_name t"
  "param_name (status_if_known i st p t) = param_name t" "param_name (update_progress u t) = param_name t"
  "param_name (fold update_progress us t) = param_name t"
  by (simp_all add: fun_eq_iff param_name_def)

lemma param_name_put_handle:
  assumes "map_ok (t_list t)" and "GetIdByName t name \<noteq> ''''"
  shows "param_name (t\<lparr>t_list := put_handle (GetIdByName t name) h (t_list t)\<rparr>) q = param_name t q"
proof -
  obtain e where e: "map_find (t_list t) (GetIdByName t name) = Some e"
    using GetIdByName_found [OF assms(1) refl assms(2)] by blast
  have "map_option st_param (map_find (put_handle (GetIdByName t name) h (t_list t)) q) =
      map_option st_param (map_find (t_list t) q)"
    using find_put_handle [OF assms(1) e] .
  then have "map_option ap_name (map_option st_param (map_find (put_handle (GetIdByName t name) h (t_list t)) q)) =
      map_option ap_name (map_option st_param (map_find (t_list t) q))"
    by (rule arg_cong)
  then show ?thesis by (simp add: param_name_def option.map_comp o_def)
qed

text \<open>What one step of the loop keeps of a torrent \<open>k\<close> that no alert names.\<close>

definition kept :: "string \<Rightarrow> 'ti engine \<Rightarrow> 'ti engine \<Rightarrow> bool" where
  "kept k t t' \<longleftrightarrow> mgr_ok (t_mgr t') \<and> map_ok (t_list t') \<and> view (t_mgr t') k = view (t_mgr t) k
     \<and> param_name t' k = param_name t k"

lemma kept_trans: "kept k t t1 \<Longrightarrow> kept k t1 t2 \<Longrightarrow> kept k t t2"
  by (simp add: kept_def)

lemma kept_fold_progress:
  assumes "mgr_ok (t_mgr t)" and "map_ok (t_list t)" and "param_name t k = Some ''''" and "k \<noteq> ''''"
    and "list_all (\<lambda>st. ts_name st \<noteq> '''') sts"
  shows "kept k t (fold update_progress sts t)"
  using assms
proof (induction sts arbitrary: t)
  case (Cons st sts)
  have "view (t_mgr (update_progress st t)) k = view (t_mgr t) k"
    using Cons.prems GetIdByName_other [of t k "''''" "ts_name st"]
    by (simp add: view_update_progress Let_def)
  then have first: "kept k t (update_progress st t)"
    using Cons.prems by (simp add: kept_def mgr_ok_alert_parts)
  moreover have "kept k (update_progress st t) (fold update_progress sts (update_progress st t))"
    using Cons.prems first by (intro Cons.IH) (simp_all add: kept_def)
  ultimately show ?case using kept_trans by fastforce
qed (simp add: kept_def)

lemma kept_Finished:
  assumes ok: "mgr_ok (t_mgr t)" and l: "map_ok (t_list t)" and n: "param_name t k = Some ''''"
    and k: "k \<noteq> ''''" and name: "name \<noteq> ''''"
  shows "kept k t (snd (handle_alert lt ds (Torrent_Finished name h) t))"
proof -
  let ?i = "GetIdByName t name"
  let ?t2 = "status_if_known ?i DOWNLOADED 100 (log_call h No_Flags t)"
  have i: "?i \<noteq> k" using GetIdByName_other [OF l n name k] .
  have ok2: "mgr_ok (t_mgr ?t2)" using ok by (simp add: mgr_ok_alert_parts)
  have v2: "view (t_mgr ?t2) k = view (t_mgr t) k"
    using ok i by (simp add: view_status_if_known)
  have "view (modify (fst (Get ?i (t_mgr ?t2))) f (snd (Get ?i (t_mgr ?t2)))) k = view (t_mgr t) k" for f
    using reg.obs_get_alter [OF ok2] i v2 by simp
  moreover have "mgr_ok (modify p (SetPathToTFile x) (snd (Get ?i (t_mgr ?t2))))" for p x
    using ok2 by (simp add: reg.ok_get reg.ok_alter)
  ultimately show ?thesis using l by (simp add: kept_def Let_def split_def)
qed

lemma kept_handle_alert:
  assumes "mgr_ok (t_mgr t)" and "map_ok (t_list t)" and "param_name t k = Some ''''" and "k \<noteq> ''''"
    and "alert_named a"
  shows "kept k t (snd (handle_alert lt ds a t))"
proof (cases a)
  case (Add_Torrent name err h)
  have i: "GetIdByName t name \<noteq> k"
    using assms Add_Torrent GetIdByName_other [of t k "''''" name] by simp
  with assms show ?thesis
    using param_name_put_handle [of t name h]
    by (auto simp: Add_Torrent kept_def Let_def view_status_if_known mgr_ok_alert_parts)
next
  case (Torrent_Error name)
  have i: "GetIdByName t name \<noteq> k"
    using assms Torrent_Error GetIdByName_other [of t k "''''" name] by simp
  with assms show ?thesis
    by (simp add: Torrent_Error kept_def view_status_if_known mgr_ok_alert_parts)
next
  case (State_Update sts)
  with assms kept_fold_progress show ?thesis by auto
next
  case (Torrent_Finished name h)
  with assms have "name \<noteq> ''''" by simp
  from kept_Finished [OF assms(1-4) this] show ?thesis by (simp only: Torrent_Finished)
next
  case (Metadata_Received name h ti)
  with assms show ?thesis
    by (auto simp: kept_def param_name_def split: option.split prod.split sum.split)
qed (use assms in \<open>auto simp: kept_def param_name_def\<close>)

lemma kept_handle_alerts:
  assumes "mgr_ok (t_mgr t)" and "map_ok (t_list t)" and "param_name t k = Some ''''" and "k \<noteq> ''''"
    and "list_all alert_named as"
  shows "kept k t (snd (handle_alerts lt ds as t))"
  using assms
proof (induction lt ds "as" t rule: handle_alerts.induct)
  case (2 lt ds a "as" t)
  obtain r t1 where step: "handle_alert lt ds a t = (r, t1)" by fastforce
  with kept_handle_alert [of t k a lt ds] "2.prems" have first: "kept k t t1" by simp
  show ?case
  proof (cases r)
    case (Ret u)
    have "kept k t1 (snd (handle_alerts lt ds as t1))"
      using first "2.prems" by (intro "2.IH" [OF step [symmetric]]) (auto simp: kept_def Ret)
    with first step Ret show ?thesis by (auto intro: kept_trans)
  qed (use first step in auto)
qed (simp add: kept_def)

section \<open>Runs of the engine\<close>

text \<open>
  The operations the controller, the detached threads and the alert thread perform, in any order.
\<close>

inductive engine_step :: "('en, 'ti) lt_api \<Rightarrow> dirs \<Rightarrow> 'ti engine \<Rightarrow> 'ti engine \<Rightarrow> bool"
  for lt :: "('en, 'ti) lt_api" and ds :: dirs where
  step_start: "engine_step lt ds t (Torrent_Start t)"
| step_stop: "engine_step lt ds t (Torrent_Stop t)"
| step_create: "engine_step lt ds t (CreateTorrentAsync uuid path t)"
| step_job: "n < length (t_jobs t) \<Longrightarrow> engine_step lt ds t (snd (run_job lt ds fresh n t))"
| step_download: "engine_step lt ds t (snd (DownloadAsync lt ds fresh uuid link t))"
| step_query: "engine_step lt ds t (snd (GetTorrentInfo uuid t))"
| step_alerts: "list_all alert_ok as \<Longrightarrow> engine_step lt ds t (snd (handle_alerts lt ds as t))"

inductive engine_reach :: "('en, 'ti) lt_api \<Rightarrow> dirs \<Rightarrow> fsys \<Rightarrow> 'ti engine \<Rightarrow> bool"
  for lt :: "('en, 'ti) lt_api" and ds :: dirs and fs :: fsys where
  reach_init: "engine_reach lt ds fs (engine_init fs)"
| reach_step: "engine_reach lt ds fs t \<Longrightarrow> engine_step lt ds t t' \<Longrightarrow> engine_reach lt ds fs t'"

lemma engine_ok_start_stop:
  "engine_ok t \<Longrightarrow> engine_ok (Torrent_Start t)" "engine_ok t \<Longrightarrow> engine_ok (Torrent_Stop t)"
  by (auto simp: Torrent_Start_def Torrent_Stop_def engine_ok_def)

lemma engine_ok_GetTorrentInfo: "engine_ok t \<Longrightarrow> engine_ok (snd (GetTorrentInfo uuid t))"
  by (auto simp: GetTorrentInfo_def Let_def split_def intro!: engine_ok_mgr mgr_sane_Get dest: engine_okD)

lemma engine_step_ok:
  assumes "engine_step lt ds t t'" and "lt_pieces_ok lt" and "engine_ok t"
  shows "engine_ok t'"
  using assms
  by (induction rule: engine_step.induct)
    (simp_all add: engine_ok_start_stop engine_ok_CreateTorrentAsync engine_ok_run_job
      engine_ok_DownloadAsync engine_ok_GetTorrentInfo engine_ok_handle_alerts)

lemma engine_reach_ok:
  assumes "engine_reach lt ds fs t" and "lt_pieces_ok lt" and "fs_ok fs"
  shows "engine_ok t"
  using assms
  by (induction rule: engine_reach.induct) (auto intro: engine_ok_init engine_step_ok)

end
