(* ===== verification/Torrent_Laws.thy ===== *)
theory Torrent_Laws
  imports Torrent_Alerts
begin

text \<open>
  What the operations of \<^verbatim>\<open>Daemon/src/torrent.cpp\<close> promise, branch by branch, over the state of
  theory \<open>Torrent_Core\<close> and the alert loop of theory \<open>Torrent_Alerts\<close>.
\<close>

section \<open>A concrete libtorrent\<close>

text \<open>
  Functions that behave as libtorrent documents, to evaluate the engine on: an entry is its encoding,
  a torrent is the content of its file, a magnet link is recognised by its scheme. A project is one
  file per path that \<open>lt_add_files\<close> finds.
\<close>

definition demo_lt :: "(string, string) lt_api" where
  "demo_lt =
     \<lparr>lt_add_files = (\<lambda>fs path. if sys_stat fs path = None then [] else [path]),
      lt_num_pieces = (\<lambda>files. int (length files)),
      lt_hash_calls = (\<lambda>fs files dir. (map int [0..<length files], None)),
      lt_generate = (\<lambda>fs files dir creator. Some creator),
      lt_bencode = (\<lambda>en. en),
      lt_torrent_info = (\<lambda>fs path. if ifs_read fs path = '''' then Inl ''empty'' else Inr (ifs_read fs path)),
      lt_magnet = (\<lambda>ti. ''magnet:'' @ ti),
      lt_ti_name = (\<lambda>ti. ''prj''),
      lt_ti_entry = (\<lambda>ti. ti),
      lt_parse_magnet = (\<lambda>link. if take 7 link = ''magnet:'' then Inr (drop 7 link, ''abc'') else Inl ''scheme''),
      lt_hash_text = (\<lambda>h. h)\<rparr>"

definition demo_fs :: fsys where
  "demo_fs = \<lparr>fs_nodes = [[] \<mapsto> DirNode 0x1FF, [''p''] \<mapsto> RegNode ''data''], fs_umask = 0,
              fs_refuse = (\<lambda>_ _. False)\<rparr>"

definition demo_dirs :: dirs where
  "demo_dirs = \<lparr>dl_dir = ''/d'', tf_dir = ''/t'', pr_dir = ''/r''\<rparr>"

definition demo_engine :: "string engine" where
  "demo_engine = Torrent_Start (engine_init demo_fs)"

lemma demo_fs_sel:
  "fs_nodes demo_fs = [[] \<mapsto> DirNode 0x1FF, [''p''] \<mapsto> RegNode ''data'']" "fs_umask demo_fs = 0"
  "fs_refuse demo_fs = (\<lambda>_ _. False)"
  by (simp_all add: demo_fs_def)

lemma fs_ok_demo [simp]: "fs_ok demo_fs"
  by (auto simp: fs_ok_def is_dir_def demo_fs_def)

lemma demo_engine_ok [simp]: "engine_ok demo_engine"
  unfolding demo_engine_def by (intro engine_ok_start_stop engine_ok_init fs_ok_demo)

lemma demo_engine_sel [simp]:
  "t_fs demo_engine = demo_fs" "t_session demo_engine" "t_mgr demo_engine = mgr_init" "t_list demo_engine = []"
  "t_jobs demo_engine = []" "t_calls demo_engine = []" "t_isWork demo_engine"
  by (simp_all add: demo_engine_def Torrent_Start_def engine_init_def IsWork_def)

lemma demo_pieces_ok [simp]: "lt_pieces_ok demo_lt"
  by (auto simp: lt_pieces_ok_def demo_lt_def)

lemma demo_write:
  "\<exists>fs1. WriteTorrent demo_lt demo_dirs en ''prj'' demo_fs = (Inr ''/t/prj.torrent'', fs1)
     \<and> ifs_read fs1 ''/t/prj.torrent'' = en"
proof -
  have r: "resolve ''/t'' = [''t'']" "resolve ''/t/prj.torrent'' = [''t'', ''prj.torrent'']"
    by (simp_all add: resolve_def)
  let ?fs = "CreateFolder ''/t'' demo_fs"
  have fs: "?fs = demo_fs\<lparr>fs_nodes := (fs_nodes demo_fs)([''t''] \<mapsto> DirNode mode_all)\<rparr>"
    unfolding CreateFolder_mkdirs [OF fs_ok_demo] r
    by (simp add: mkdir_at_def chmod_at_def is_dir_def demo_fs_sel set_node_def mode_all_def)
  have "\<not> IsFileExist ?fs ''/t/prj.torrent''"
    by (simp add: IsFileExist_def sys_stat_def r fs demo_fs_sel)
  moreover have "can_write ?fs ''/t/prj.torrent''"
    by (simp add: can_write_def r fs needs_dir_def is_dir_def demo_fs_sel)
  ultimately show ?thesis
    by (simp add: WriteTorrent_def demo_dirs_def demo_lt_def ofs_write_read Let_def)
qed

lemma WriteTorrent_bencode:
  "lt_bencode lt = lt_bencode lt' \<Longrightarrow> WriteTorrent lt ds en name fs = WriteTorrent lt' ds en name fs"
  by (simp add: WriteTorrent_def Let_def split: prod.split sum.split)

section \<open>The stages of CreateTorrent\<close>

text \<open>The registry when the thread has announced itself, and when the pieces are hashed.\<close>

definition create_s3 :: "string \<Rightarrow> string \<Rightarrow> mgr \<Rightarrow> mgr" where
  "create_s3 uuid path s =
     modify (fst (Create uuid s)) (SetPathToProject path)
       (modify (fst (Create uuid s)) (SetStatus GENERATING) (snd (Create uuid s)))"

definition create_s4 :: "string \<Rightarrow> string \<Rightarrow> int list \<Rightarrow> int \<Rightarrow> mgr \<Rightarrow> mgr" where
  "create_s4 uuid path pieces n s = fold (\<lambda>i. UpdateCreationProgress uuid i n) pieces (create_s3 uuid path s)"

lemma create_s4_facts:
  assumes "mgr_ok s"
  shows "mgr_ok (create_s4 uuid path pieces n s)"
    and "bound (create_s4 uuid path pieces n s) uuid (fst (Create uuid s))"
    and "k \<noteq> uuid \<Longrightarrow> view (create_s4 uuid path pieces n s) k = view s k"
    and "\<exists>i. view (create_s4 uuid path pieces n s) uuid = Some i \<and> tStatus i = GENERATING \<and> pPath i = path
      \<and> tId i = tId (case view s uuid of None \<Rightarrow> TorrentInfo uuid | Some i0 \<Rightarrow> i0)
      \<and> tLink i = tLink (case view s uuid of None \<Rightarrow> TorrentInfo uuid | Some i0 \<Rightarrow> i0)"
proof -
  note st = create_start [OF assms, of uuid path]
  have s3: "mgr_ok (create_s3 uuid path s)" "bound (create_s3 uuid path s) uuid (fst (Create uuid s))"
    using st(1,2) by (simp_all add: create_s3_def)
  have v3: "view (create_s3 uuid path s) = (view s)(uuid := Some (SetPathToProject path (SetStatus GENERATING
      (case view s uuid of None \<Rightarrow> TorrentInfo uuid | Some i \<Rightarrow> i))))"
    using st(3) by (simp add: create_s3_def)
  show "mgr_ok (create_s4 uuid path pieces n s)"
    and "bound (create_s4 uuid path pieces n s) uuid (fst (Create uuid s))"
    using fold_progress [OF s3] by (simp_all add: create_s4_def)
  show "view (create_s4 uuid path pieces n s) k = view s k" if "k \<noteq> uuid"
    using fold_progress [OF s3] that v3 by (simp add: create_s4_def)
  obtain i where "view (create_s4 uuid path pieces n s) uuid = Some i" "tStatus i = GENERATING" "pPath i = path"
      "tId i = tId (case view s uuid of None \<Rightarrow> TorrentInfo uuid | Some i0 \<Rightarrow> i0)"
      "tLink i = tLink (case view s uuid of None \<Rightarrow> TorrentInfo uuid | Some i0 \<Rightarrow> i0)"
    using fold_progress_view [OF s3(1), of uuid "SetPathToProject path (SetStatus GENERATING
      (case view s uuid of None \<Rightarrow> TorrentInfo uuid | Some i \<Rightarrow> i))" n pieces] v3
    by (auto simp: create_s4_def)
  then show "\<exists>i. view (create_s4 uuid path pieces n s) uuid = Some i \<and> tStatus i = GENERATING \<and> pPath i = path
      \<and> tId i = tId (case view s uuid of None \<Rightarrow> TorrentInfo uuid | Some i0 \<Rightarrow> i0)
      \<and> tLink i = tLink (case view s uuid of None \<Rightarrow> TorrentInfo uuid | Some i0 \<Rightarrow> i0)"
    by blast
qed

lemma create_s3_facts:
  assumes "mgr_ok s"
  shows "mgr_ok (create_s3 uuid path s)"
    and "k \<noteq> uuid \<Longrightarrow> view (create_s3 uuid path s) k = view s k"
    and "\<exists>i. view (create_s3 uuid path s) uuid = Some i"
  using create_s4_facts [OF assms, where uuid = uuid and path = path and pieces = "[]" and n = 0]
  by (auto simp: create_s4_def)

text \<open>\<open>CreateTorrent\<close> by its stages.\<close>

lemma CreateTorrent_stages:
  "CreateTorrent lt ds fresh uuid path t =
     (let files = lt_add_files lt (t_fs t) path;
          s4 = create_s4 uuid path (fst (lt_hash_calls lt (t_fs t) files (GetDirectory path)))
                 (lt_num_pieces lt files) (t_mgr t)
      in if files = [] then (Ret (), t\<lparr>t_mgr := UpdateStatus uuid GENERATION_ERROR 0 (create_s3 uuid path (t_mgr t))\<rparr>)
         else if snd (lt_hash_calls lt (t_fs t) files (GetDirectory path)) \<noteq> None then (Ret (), t\<lparr>t_mgr := s4\<rparr>)
         else (case lt_generate lt (t_fs t) files (GetDirectory path) ''VerAI libtorrent'' of
                 None \<Rightarrow> (Ret (), t\<lparr>t_mgr := UpdateStatus uuid GENERATION_ERROR 0 s4\<rparr>)
               | Some e \<Rightarrow>
                   (case WriteTorrent lt ds e (GetFileName path) (t_fs t) of
                      (Inl ex, fs1) \<Rightarrow> (Throw ex, t\<lparr>t_mgr := s4, t_fs := fs1\<rparr>)
                    | (Inr fileName, fs1) \<Rightarrow>
                        finish_create lt ds fresh uuid (fst (Create uuid (t_mgr t))) fileName
                          (t\<lparr>t_mgr := s4, t_fs := fs1\<rparr>))))"
  by (simp add: CreateTorrent_def Let_def split_def create_s3_def create_s4_def)

text \<open>What the code writes when the torrent was read back.\<close>

definition generated_info :: "string \<Rightarrow> string \<Rightarrow> tinfo \<Rightarrow> tinfo" where
  "generated_info magnet fileName =
     SetStatus GENERATED \<circ> SetProgress 100 \<circ> SetPathToTFile fileName \<circ> SetLink magnet"

lemma finish_create_good:
  assumes ok: "mgr_ok (t_mgr t)" and b: "bound (t_mgr t) uuid info"
    and rd: "lt_torrent_info lt (t_fs t) fileName = Inr ti" and ses: "t_session t" and u: "uuid \<noteq> ''''"
  shows "\<exists>s. finish_create lt ds fresh uuid info fileName t =
      (Ret (), t\<lparr>t_mgr := s,
                 t_calls := t_calls t @ [Async_Add (default_params\<lparr>ap_save_path := pr_dir ds, ap_ti := Some ti, ap_seed_mode := True\<rparr>)],
                 t_list := put_param uuid (default_params\<lparr>ap_save_path := pr_dir ds, ap_ti := Some ti, ap_seed_mode := True\<rparr>) (t_list t)\<rparr>)
    \<and> mgr_ok s \<and> view s = (view (t_mgr t))(uuid := map_option (generated_info (lt_magnet lt ti) fileName) (view (t_mgr t) uuid))"
proof -
  let ?s = "modify info (SetStatus GENERATED) (modify info (SetProgress 100) (modify info (SetPathToTFile fileName)
              (modify info (SetLink (lt_magnet lt ti)) (t_mgr t))))"
  have "mgr_ok ?s" using ok by (simp add: reg.ok_alter)
  moreover have "view ?s = (view (t_mgr t))(uuid := map_option (generated_info (lt_magnet lt ti) fileName) (view (t_mgr t) uuid))"
    using ok b by (simp add: reg.obs_alter [where k = uuid] reg.ok_alter option.map_comp o_def generated_info_def)
  ultimately show ?thesis
    using rd ses u
    by (intro exI [of _ ?s]) (simp add: finish_create_def CreateInfoFromFile_def AddTorrentFile_def AddTorrent_def Let_def)
qed

lemma finish_create_bad:
  assumes "lt_torrent_info lt (t_fs t) fileName = Inl msg"
  shows "finish_create lt ds fresh uuid info fileName t =
    (Ret (), t\<lparr>t_mgr := UpdateStatus uuid GENERATION_ERROR 0 (t_mgr t)\<rparr>)"
  using assms by (simp add: finish_create_def CreateInfoFromFile_def)

lemma finish_create_other:
  assumes ok: "mgr_ok (t_mgr t)" and b: "bound (t_mgr t) uuid info" and k: "k \<noteq> uuid"
  shows "view (t_mgr (snd (finish_create lt ds fresh uuid info fileName t))) k = view (t_mgr t) k"
proof (cases "lt_torrent_info lt (t_fs t) fileName")
  case (Inl msg)
  with ok k show ?thesis by (simp add: finish_create_bad view_UpdateStatus)
next
  case (Inr ti)
  let ?s = "modify info (SetStatus GENERATED) (modify info (SetProgress 100) (modify info (SetPathToTFile fileName)
              (modify info (SetLink (lt_magnet lt ti)) (t_mgr t))))"
  have "view ?s k = view (t_mgr t) k"
    using ok b k by (simp add: reg.obs_alter [where k = uuid] reg.ok_alter)
  with Inr show ?thesis
    by (simp add: finish_create_def CreateInfoFromFile_def AddTorrentFile_def AddTorrent_def Let_def)
qed

text \<open>\<open>CreateTorrentAsync\<close> on a torrent the registry knows, and on one it does not.\<close>

lemma CreateTorrentAsync_status:
  fixes uuid :: string
  assumes "mgr_ok (t_mgr t)"
  defines "i \<equiv> (case view (t_mgr t) uuid of None \<Rightarrow> TorrentInfo uuid | Some i \<Rightarrow> i)"
  shows "t_jobs (CreateTorrentAsync uuid path t) = t_jobs t @ (if generating (tStatus i) then [] else [(uuid, path)])
    \<and> view (t_mgr (CreateTorrentAsync uuid path t)) = view (t_mgr t)"
proof -
  let ?s1 = "snd (Get uuid (t_mgr t))"
  have ok1: "mgr_ok ?s1" using assms(1) by (rule reg.ok_get)
  have "deref ?s1 (fst (Get uuid (t_mgr t))) = Some i"
    using reg.load_get [OF assms(1)] by (simp add: i_def)
  moreover have "deref (snd (Get uuid ?s1)) (fst (Get uuid (t_mgr t))) = Some i"
    using calculation mgr_ok_Get_keeps_load [OF ok1] by blast
  moreover have "deref (snd (Get uuid ?s1)) (fst (Get uuid ?s1)) = Some i"
    using reg.load_get [OF ok1, of uuid] assms(1) by (simp add: i_def reg.obs_get)
  ultimately show ?thesis
    using assms(1) ok1
    by (auto simp: CreateTorrentAsync_def Let_def split_def reg.obs_get generating_def)
qed

lemma CreateTorrentAsync_generating:
  assumes "mgr_ok (t_mgr t)" and "view (t_mgr t) uuid = Some i" and "generating (tStatus i)"
  shows "t_jobs (CreateTorrentAsync uuid path t) = t_jobs t
    \<and> view (t_mgr (CreateTorrentAsync uuid path t)) = view (t_mgr t)"
  using CreateTorrentAsync_status [OF assms(1), of uuid path] assms(2,3) by simp

text \<open>Whatever happens, the torrent is in the registry afterwards.\<close>

lemma finish_create_files:
  assumes ok: "mgr_ok (t_mgr t)" and b: "bound (t_mgr t) uuid info" and i: "view (t_mgr t) uuid = Some i"
  shows "\<exists>i'. view (t_mgr (snd (finish_create lt ds fresh uuid info fileName t))) uuid = Some i'"
proof (cases "lt_torrent_info lt (t_fs t) fileName")
  case (Inl msg)
  with ok i show ?thesis by (simp add: finish_create_bad view_UpdateStatus)
next
  case (Inr ti)
  let ?s = "modify info (SetStatus GENERATED) (modify info (SetProgress 100) (modify info (SetPathToTFile fileName)
              (modify info (SetLink (lt_magnet lt ti)) (t_mgr t))))"
  have "\<exists>i'. view ?s uuid = Some i'"
    using ok b i by (simp add: reg.obs_alter [where k = uuid] reg.ok_alter)
  with Inr show ?thesis
    by (simp add: finish_create_def CreateInfoFromFile_def AddTorrentFile_def AddTorrent_def Let_def)
qed

lemma CreateTorrent_files:
  assumes "engine_ok t"
  shows "\<exists>i. view (t_mgr (snd (CreateTorrent lt ds fresh uuid path t))) uuid = Some i"
proof -
  have ok: "mgr_ok (t_mgr t)" using engine_okD [OF assms] by auto
  note s3 = create_s3_facts [OF ok, where uuid = uuid and path = path]
  note s4 = create_s4_facts [OF ok, where uuid = uuid and path = path]
  have v4: "\<exists>i. view (create_s4 uuid path pieces n (t_mgr t)) uuid = Some i" for pieces n using s4(4) by blast
  have fin: "\<exists>i. view (t_mgr (snd (finish_create lt ds fresh uuid (fst (Create uuid (t_mgr t))) fileName
      (t\<lparr>t_mgr := create_s4 uuid path pieces n (t_mgr t), t_fs := fs1\<rparr>)))) uuid = Some i" for fileName fs1 pieces n
  proof -
    obtain i where "view (create_s4 uuid path pieces n (t_mgr t)) uuid = Some i" using v4 by blast
    then show ?thesis by (intro finish_create_files) (simp_all add: s4(1,2))
  qed
  show ?thesis
    using s3(1,3) s4(1) v4
    by (auto simp: CreateTorrent_stages Let_def view_UpdateStatus fin split: option.split prod.split sum.split)
qed

lemma DownloadAsync_stages:
  fixes uuid link :: string and t :: "'ti engine"
  defines "p \<equiv> fst (Create uuid (t_mgr t))"
  defines "s3 \<equiv> modify p (SetStatus DOWNLOADING) (modify p (SetLink link) (snd (Create uuid (t_mgr t))))"
  shows "DownloadAsync lt ds fresh uuid link t =
     (case lt_parse_magnet lt link of
        Inl msg \<Rightarrow> (Throw (Runtime_Error (''Invalid magnet URI: '' @ msg)),
                    t\<lparr>t_mgr := UpdateStatus uuid DOWNLOADING_ERROR 0 s3\<rparr>)
      | Inr (name, infoHash) \<Rightarrow>
          let resume = GetResumeFilePath lt ds infoHash;
              fs1 = CreateFolder (GetDirectory resume) (t_fs t)
          in AddTorrent fresh uuid
               (default_params\<lparr>ap_name := name, ap_info_hash := infoHash, ap_save_path := dl_dir ds,
                  ap_url := link, ap_resume := ifs_read fs1 resume\<rparr>)
               (t\<lparr>t_mgr := modify p (SetPathToProject (dl_dir ds @ ''/'' @ name)) s3, t_fs := fs1\<rparr>))"
  by (auto simp: DownloadAsync_def Let_def split_def p_def s3_def split: sum.split)

lemma DownloadAsync_started:
  assumes "engine_ok t"
  shows "\<exists>i. view (t_mgr (snd (DownloadAsync lt ds fresh uuid link t))) uuid = Some i"
proof -
  have ok: "mgr_ok (t_mgr t)" using engine_okD [OF assms] by auto
  note st = download_start [OF ok, of uuid link]
  from st(1-3) show ?thesis
    by (auto simp: DownloadAsync_stages AddTorrent_def Let_def view_UpdateStatus reg.obs_alter [where k = uuid]
        split: sum.split prod.split)
qed

lemma DownloadAsync_other:
  assumes "engine_ok t" and "k \<noteq> uuid"
  shows "view (t_mgr (snd (DownloadAsync lt ds fresh uuid link t))) k = view (t_mgr t) k"
proof -
  have ok: "mgr_ok (t_mgr t)" using engine_okD [OF assms(1)] by auto
  note st = download_start [OF ok, of uuid link]
  from st(1-3) assms(2) show ?thesis
    by (auto simp: DownloadAsync_stages AddTorrent_def Let_def view_UpdateStatus reg.obs_alter [where k = uuid]
        split: sum.split prod.split)
qed

text \<open>A finished download, for the torrent it names and for the others.\<close>

lemma view_Finished:
  assumes ok: "mgr_ok (t_mgr t)" and i: "GetIdByName t name \<noteq> ''''"
  shows "view (t_mgr (snd (handle_alert lt ds (Torrent_Finished name h) t))) =
    (view (t_mgr t))(GetIdByName t name := map_option
      (SetPathToTFile (tf_dir ds @ ''/'' @ name) \<circ> (SetProgress 100 \<circ> SetStatus DOWNLOADED))
      (view (t_mgr t) (GetIdByName t name)))"
proof -
  let ?t2 = "status_if_known (GetIdByName t name) DOWNLOADED 100 (log_call h No_Flags t)"
  have "mgr_ok (t_mgr ?t2)" using ok by (simp add: mgr_ok_alert_parts)
  note reg.obs_get_alter [OF this, of "GetIdByName t name" "SetPathToTFile (tf_dir ds @ ''/'' @ name)"]
  moreover have "view (t_mgr ?t2) = (view (t_mgr t))(GetIdByName t name :=
      map_option (SetProgress 100 \<circ> SetStatus DOWNLOADED) (view (t_mgr t) (GetIdByName t name)))"
    using ok i by (simp add: view_status_if_known)
  ultimately show ?thesis by (simp add: Let_def split_def option.map_comp)
qed

lemma view_Finished_other:
  assumes ok: "mgr_ok (t_mgr t)" and k: "GetIdByName t name \<noteq> k"
  shows "view (t_mgr (snd (handle_alert lt ds (Torrent_Finished name h) t))) k = view (t_mgr t) k"
proof -
  let ?t2 = "status_if_known (GetIdByName t name) DOWNLOADED 100 (log_call h No_Flags t)"
  have ok2: "mgr_ok (t_mgr ?t2)" using ok by (simp add: mgr_ok_alert_parts)
  have "view (t_mgr ?t2) k = view (t_mgr t) k" using ok k by (simp add: view_status_if_known)
  with k reg.obs_get_alter [OF ok2, of "GetIdByName t name"] show ?thesis by (simp add: Let_def split_def)
qed

lemma view_id: "mgr_ok s \<Longrightarrow> view s k = Some i \<Longrightarrow> tId i = k"
  by (auto simp: view_def split: option.splits elim: mgr_ok_entry)

lemma CreateFolder_walk:
  assumes "fs_ok fs"
  shows "way_free fs [] (resolve dir) \<Longrightarrow> is_dir (CreateFolder dir fs) (resolve dir)"
    and "fs_ok (CreateFolder dir fs)"
    and "fs_nodes fs q = Some n \<Longrightarrow> fs_nodes (CreateFolder dir fs) q = Some n"
    and "fs_nodes fs q = None \<Longrightarrow> fs_nodes (CreateFolder dir fs) q = Some n \<Longrightarrow> \<exists>k. q = take k (resolve dir)"
    and "fs_refuse (CreateFolder dir fs) = fs_refuse fs"
  using mkdirs_reaches [of fs "[]" "resolve dir"] mkdirs_ok [OF assms] mkdirs_keeps
    mkdirs_only_prefixes [of fs q "[]" "resolve dir" n] assms
  by (auto simp: CreateFolder_mkdirs)

section \<open>CreateTorrent\<close>

lemma CreateTorrent_generates:
  assumes "engine_ok t" and "t_session t" and "uuid \<noteq> ''''"
    and "lt_add_files lt (t_fs t) path = files" and "files \<noteq> []"
    and "lt_hash_calls lt (t_fs t) files (GetDirectory path) = (pieces, None)"
    and "lt_generate lt (t_fs t) files (GetDirectory path) ''VerAI libtorrent'' = Some e"
    and "WriteTorrent lt ds e (GetFileName path) (t_fs t) = (Inr fileName, fs1)"
    and "lt_torrent_info lt fs1 fileName = Inr ti"
  shows "\<exists>t' i. CreateTorrent lt ds fresh uuid path t = (Ret (), t')
    \<and> view (t_mgr t') uuid = Some i \<and> tStatus i = GENERATED \<and> tProgress i = 100
    \<and> tLink i = lt_magnet lt ti \<and> tPath i = fileName \<and> pPath i = path
    \<and> (\<forall>k. k \<noteq> uuid \<longrightarrow> view (t_mgr t') k = view (t_mgr t) k)
    \<and> map_option st_param (map_find (t_list t') uuid)
        = Some (default_params\<lparr>ap_save_path := pr_dir ds, ap_ti := Some ti, ap_seed_mode := True\<rparr>)
    \<and> t_calls t' = t_calls t @ [Async_Add (default_params\<lparr>ap_save_path := pr_dir ds, ap_ti := Some ti, ap_seed_mode := True\<rparr>)]
    \<and> t_fs t' = fs1"
proof -
  let ?s4 = "create_s4 uuid path pieces (lt_num_pieces lt files) (t_mgr t)"
  let ?t4 = "t\<lparr>t_mgr := ?s4, t_fs := fs1\<rparr>"
  have ok: "mgr_ok (t_mgr t)" and l: "map_ok (t_list t)" using engine_okD [OF assms(1)] by auto
  note s4 = create_s4_facts [OF ok, where uuid = uuid and path = path and pieces = pieces
      and n = "lt_num_pieces lt files"]
  obtain i4 where i4: "view ?s4 uuid = Some i4" "pPath i4 = path" using s4(4) by blast
  obtain s where fin: "finish_create lt ds fresh uuid (fst (Create uuid (t_mgr t))) fileName ?t4 =
      (Ret (), ?t4\<lparr>t_mgr := s,
         t_calls := t_calls t @ [Async_Add (default_params\<lparr>ap_save_path := pr_dir ds, ap_ti := Some ti, ap_seed_mode := True\<rparr>)],
         t_list := put_param uuid (default_params\<lparr>ap_save_path := pr_dir ds, ap_ti := Some ti, ap_seed_mode := True\<rparr>) (t_list t)\<rparr>)"
    and v: "view s = (view ?s4)(uuid := map_option (generated_info (lt_magnet lt ti) fileName) (view ?s4 uuid))"
    using finish_create_good [of ?t4 uuid "fst (Create uuid (t_mgr t))" lt fileName ti ds fresh] s4(1,2) assms(2,3,9)
    by auto
  have "CreateTorrent lt ds fresh uuid path t =
      finish_create lt ds fresh uuid (fst (Create uuid (t_mgr t))) fileName ?t4"
    using assms(4-8) by (simp add: CreateTorrent_stages)
  with fin v i4 s4(3) find_put_param [OF l, of uuid "default_params\<lparr>ap_save_path := pr_dir ds, ap_ti := Some ti, ap_seed_mode := True\<rparr>" uuid]
  show ?thesis by (auto simp: generated_info_def)
qed

text \<open>C3: when the files are there, hashing succeeds, the torrent is generated, written and read back,
  \<open>CreateTorrent\<close> returns with the torrent filed as \<open>GENERATED\<close> at 100 percent with its magnet link, its
  torrent file and its project path, adds it once to the session as a seed under its id, and leaves the
  information about every other torrent as it was.\<close>

theorem CreateTorrent_success:
  assumes "engine_ok t" and "t_session t" and "uuid \<noteq> ''''"
    and "lt_add_files lt (t_fs t) path = files" and "files \<noteq> []"
    and "lt_hash_calls lt (t_fs t) files (GetDirectory path) = (pieces, None)"
    and "lt_generate lt (t_fs t) files (GetDirectory path) ''VerAI libtorrent'' = Some e"
    and "WriteTorrent lt ds e (GetFileName path) (t_fs t) = (Inr fileName, fs1)"
    and "lt_torrent_info lt fs1 fileName = Inr ti"
  shows "\<exists>t' i. CreateTorrent lt ds fresh uuid path t = (Ret (), t')
    \<and> view (t_mgr t') uuid = Some i \<and> tStatus i = GENERATED \<and> tProgress i = 100
    \<and> tLink i = lt_magnet lt ti \<and> tPath i = fileName \<and> pPath i = path
    \<and> (\<forall>k. k \<noteq> uuid \<longrightarrow> view (t_mgr t') k = view (t_mgr t) k)
    \<and> map_option st_param (map_find (t_list t') uuid)
        = Some (default_params\<lparr>ap_save_path := pr_dir ds, ap_ti := Some ti, ap_seed_mode := True\<rparr>)
    \<and> t_calls t' = t_calls t @ [Async_Add (default_params\<lparr>ap_save_path := pr_dir ds, ap_ti := Some ti, ap_seed_mode := True\<rparr>)]
    \<and> t_fs t' = fs1"
  by (rule CreateTorrent_generates [OF assms])

theorem CreateTorrent_success_witness:
  "\<exists>t' i. CreateTorrent (demo_lt\<lparr>lt_add_files := \<lambda>_ _. [''a'']\<rparr>) demo_dirs ''f'' ''u'' ''/x/prj'' demo_engine = (Ret (), t')
    \<and> view (t_mgr t') ''u'' = Some i \<and> tStatus i = GENERATED"
proof -
  let ?lt = "demo_lt\<lparr>lt_add_files := \<lambda>_ _. [''a'']\<rparr>"
  obtain fs1 where w: "WriteTorrent demo_lt demo_dirs ''VerAI libtorrent'' ''prj'' demo_fs = (Inr ''/t/prj.torrent'', fs1)"
    "ifs_read fs1 ''/t/prj.torrent'' = ''VerAI libtorrent''" using demo_write by blast
  have "WriteTorrent ?lt demo_dirs ''VerAI libtorrent'' (GetFileName ''/x/prj'') (t_fs demo_engine) = (Inr ''/t/prj.torrent'', fs1)"
    using w(1) WriteTorrent_bencode [of ?lt demo_lt] by (simp add: GetFileName_def)
  from CreateTorrent_success [of demo_engine "''u''" ?lt "''/x/prj''" "[''a'']" "[0]" "''VerAI libtorrent''" demo_dirs
      "''/t/prj.torrent''" fs1 "''VerAI libtorrent''" "''f''", OF _ _ _ _ _ _ _ this]
  show ?thesis using w(2) by (auto simp: demo_lt_def)
qed

text \<open>When no file is found, the torrent cannot be generated, or the written file cannot be read
  back, \<open>CreateTorrent\<close> still returns, files the torrent as \<open>GENERATION_ERROR\<close> at 0 percent and adds
  nothing to the session.\<close>

lemma CreateTorrent_failure:
  assumes "engine_ok t" and "lt_add_files lt (t_fs t) path = files"
    and "lt_hash_calls lt (t_fs t) files (GetDirectory path) = (pieces, None)"
    and "files = []
       \<or> lt_generate lt (t_fs t) files (GetDirectory path) ''VerAI libtorrent'' = None
       \<or> (\<exists>e fileName fs1 msg.
            lt_generate lt (t_fs t) files (GetDirectory path) ''VerAI libtorrent'' = Some e
            \<and> WriteTorrent lt ds e (GetFileName path) (t_fs t) = (Inr fileName, fs1)
            \<and> lt_torrent_info lt fs1 fileName = Inl msg)"
  shows "\<exists>t' i. CreateTorrent lt ds fresh uuid path t = (Ret (), t')
    \<and> view (t_mgr t') uuid = Some i \<and> tStatus i = GENERATION_ERROR \<and> tProgress i = 0
    \<and> t_list t' = t_list t \<and> t_calls t' = t_calls t"
proof -
  let ?s4 = "create_s4 uuid path pieces (lt_num_pieces lt files) (t_mgr t)"
  have ok: "mgr_ok (t_mgr t)" using engine_okD [OF assms(1)] by auto
  note s3 = create_s3_facts [OF ok, where uuid = uuid and path = path]
  note s4 = create_s4_facts [OF ok, where uuid = uuid and path = path and pieces = pieces
      and n = "lt_num_pieces lt files"]
  from s3(3) s4(4) obtain i3 i4 where i: "view (create_s3 uuid path (t_mgr t)) uuid = Some i3"
    "view ?s4 uuid = Some i4" by blast
  show ?thesis
    using assms(2-4) i s3(1) s4(1)
    by (cases "files = []") (auto simp: CreateTorrent_stages finish_create_bad view_UpdateStatus)
qed

text \<open>C25: a hashing error leaves the torrent \<open>GENERATING\<close>: the error branch does not update the status,
  and from then on every request to generate this torrent is dropped, because \<open>CreateTorrentAsync\<close> only
  starts a thread for a torrent that is neither \<open>GENERATING\<close> nor \<open>GENERATED\<close>.\<close>

theorem CreateTorrent_hash_error_sticks:
  assumes "engine_ok t" and "lt_add_files lt (t_fs t) path = files" and "files \<noteq> []"
    and "lt_hash_calls lt (t_fs t) files (GetDirectory path) = (pieces, Some msg)"
  shows "\<exists>t' i. CreateTorrent lt ds fresh uuid path t = (Ret (), t')
    \<and> view (t_mgr t') uuid = Some i \<and> tStatus i = GENERATING
    \<and> t_jobs (CreateTorrentAsync uuid path2 t') = t_jobs t'
    \<and> view (t_mgr (CreateTorrentAsync uuid path2 t')) = view (t_mgr t')"
proof -
  let ?s4 = "create_s4 uuid path pieces (lt_num_pieces lt files) (t_mgr t)"
  have ok: "mgr_ok (t_mgr t)" using engine_okD [OF assms(1)] by auto
  note s4 = create_s4_facts [OF ok, where uuid = uuid and path = path and pieces = pieces
      and n = "lt_num_pieces lt files"]
  obtain i4 where i4: "view ?s4 uuid = Some i4" "tStatus i4 = GENERATING" using s4(4) by blast
  have "CreateTorrent lt ds fresh uuid path t = (Ret (), t\<lparr>t_mgr := ?s4\<rparr>)"
    using assms(2-4) by (simp add: CreateTorrent_stages)
  with CreateTorrentAsync_generating [of "t\<lparr>t_mgr := ?s4\<rparr>" uuid i4 path2] s4(1) i4 show ?thesis
    by (auto simp: generating_def)
qed

theorem CreateTorrent_hash_error_sticks_witness:
  "\<exists>t' i. CreateTorrent (demo_lt\<lparr>lt_hash_calls := \<lambda>_ _ _. ([0], Some ''io'')\<rparr>) demo_dirs ''f'' ''u'' ''/p'' demo_engine = (Ret (), t')
    \<and> view (t_mgr t') ''u'' = Some i \<and> tStatus i = GENERATING \<and> t_jobs (CreateTorrentAsync ''u'' ''/p'' t') = t_jobs t'"
  using CreateTorrent_hash_error_sticks [of demo_engine "demo_lt\<lparr>lt_hash_calls := \<lambda>_ _ _. ([0], Some ''io'')\<rparr>" "''/p''"
      "[''/p'']" "[0]" "''io''" demo_dirs "''f''" "''u''" "''/p''"]
  by (auto simp: demo_lt_def sys_stat_def resolve_def needs_dir_def demo_fs_def)

text \<open>Generating one torrent never changes the information about another one, on any branch.\<close>

lemma CreateTorrent_isolated:
  assumes "engine_ok t" and "k \<noteq> uuid"
  shows "view (t_mgr (snd (CreateTorrent lt ds fresh uuid path t))) k = view (t_mgr t) k"
proof -
  have ok: "mgr_ok (t_mgr t)" using engine_okD [OF assms(1)] by auto
  note s3 = create_s3_facts [OF ok, where uuid = uuid and path = path]
  note s4 = create_s4_facts [OF ok, where uuid = uuid and path = path]
  have fin: "view (t_mgr (snd (finish_create lt ds fresh uuid info fileName t1))) k = view (t_mgr t1) k"
    if "mgr_ok (t_mgr t1)" "bound (t_mgr t1) uuid info" for t1 fileName info
    using finish_create_other [OF that assms(2)] .
  show ?thesis
    using assms(2) s3(1,2) s4(1,2,3)
    by (auto simp: CreateTorrent_stages Let_def view_UpdateStatus fin split: option.split prod.split sum.split)
qed

section \<open>Requests to generate\<close>

text \<open>A request starts a thread, with the id and the path given, exactly when the torrent is neither
  being generated nor generated; it writes nothing to the registry and does not touch the session. As the
  status is only set by the thread itself, two requests for the same new torrent that both arrive before
  the first thread runs start two threads for it.\<close>

lemma CreateTorrentAsync_effect:
  fixes uuid :: string
  assumes "engine_ok t"
  shows "t_jobs (CreateTorrentAsync uuid path t) = t_jobs t @
      (case view (t_mgr t) uuid of
         None \<Rightarrow> [(uuid, path)]
       | Some i \<Rightarrow> if tStatus i = GENERATING \<or> tStatus i = GENERATED then [] else [(uuid, path)])
    \<and> view (t_mgr (CreateTorrentAsync uuid path t)) = view (t_mgr t)
    \<and> t_list (CreateTorrentAsync uuid path t) = t_list t \<and> t_calls (CreateTorrentAsync uuid path t) = t_calls t
    \<and> (view (t_mgr t) uuid = None \<longrightarrow>
        t_jobs (CreateTorrentAsync uuid path2 (CreateTorrentAsync uuid path t)) =
          t_jobs t @ [(uuid, path), (uuid, path2)])"
proof -
  have "t_list (CreateTorrentAsync uuid path t) = t_list t \<and> t_calls (CreateTorrentAsync uuid path t) = t_calls t"
    by (simp add: CreateTorrentAsync_def Let_def split_def split: option.split)
  moreover note first = CreateTorrentAsync_status [OF engine_okD(2) [OF assms], of uuid path]
  moreover have "mgr_ok (t_mgr (CreateTorrentAsync uuid path t))"
    using engine_ok_CreateTorrentAsync [OF assms] by (auto dest: engine_okD)
  note second = CreateTorrentAsync_status [OF this, of uuid path2]
  ultimately show ?thesis
    using first second by (auto simp: generating_def split: option.split)
qed

text \<open>For a magnet link that parses, \<open>DownloadAsync\<close> returns with the torrent filed as \<open>DOWNLOADING\<close>
  under its link and its folder, adds it to the session under its id with the name, link and resume data,
  and leaves the information about every other torrent as it was.\<close>

lemma DownloadAsync_success:
  assumes "engine_ok t" and "t_session t" and "uuid \<noteq> ''''" and "lt_parse_magnet lt link = Inr (name, infoHash)"
  shows "\<exists>t' i param. DownloadAsync lt ds fresh uuid link t = (Ret (), t')
    \<and> view (t_mgr t') uuid = Some i \<and> tStatus i = DOWNLOADING \<and> tLink i = link
    \<and> pPath i = dl_dir ds @ ''/'' @ name
    \<and> (\<forall>k. k \<noteq> uuid \<longrightarrow> view (t_mgr t') k = view (t_mgr t) k)
    \<and> (\<forall>k. map_option st_param (map_find (t_list t') k) =
          (if k = uuid then Some param else map_option st_param (map_find (t_list t) k)))
    \<and> t_calls t' = t_calls t @ [Async_Add param]
    \<and> ap_name param = name \<and> ap_url param = link \<and> ap_save_path param = dl_dir ds
    \<and> ap_resume param = ifs_read (t_fs t') (dl_dir ds @ ''/.resume/'' @ lt_hash_text lt infoHash @ ''.resume'')"
proof -
  have ok: "mgr_ok (t_mgr t)" and l: "map_ok (t_list t)" using engine_okD [OF assms(1)] by auto
  let ?p = "fst (Create uuid (t_mgr t))"
  let ?s3 = "modify ?p (SetStatus DOWNLOADING) (modify ?p (SetLink link) (snd (Create uuid (t_mgr t))))"
  let ?base = "case view (t_mgr t) uuid of None \<Rightarrow> TorrentInfo uuid | Some i \<Rightarrow> i"
  let ?s4 = "modify ?p (SetPathToProject (dl_dir ds @ ''/'' @ name)) ?s3"
  let ?fs1 = "CreateFolder (GetDirectory (GetResumeFilePath lt ds infoHash)) (t_fs t)"
  let ?param = "default_params\<lparr>ap_name := name, ap_info_hash := infoHash, ap_save_path := dl_dir ds,
                  ap_url := link, ap_resume := ifs_read ?fs1 (GetResumeFilePath lt ds infoHash)\<rparr>"
  note st = download_start [OF ok, of uuid link]
  have v: "view ?s4 = (view (t_mgr t))(uuid :=
      Some (SetPathToProject (dl_dir ds @ ''/'' @ name) (SetStatus DOWNLOADING (SetLink link ?base))))"
    using st(1-3) by (simp add: reg.obs_alter [where k = uuid])
  have "DownloadAsync lt ds fresh uuid link t =
      (Ret (), t\<lparr>t_mgr := ?s4, t_fs := ?fs1, t_calls := t_calls t @ [Async_Add ?param],
                 t_list := put_param uuid ?param (t_list t)\<rparr>)"
    using assms(2-4) by (simp add: DownloadAsync_stages AddTorrent_def Let_def)
  with v find_put_param [OF l, of uuid ?param] show ?thesis
    by (intro exI [of _ "t\<lparr>t_mgr := ?s4, t_fs := ?fs1, t_calls := t_calls t @ [Async_Add ?param],
                 t_list := put_param uuid ?param (t_list t)\<rparr>"] exI [of _ ?param] exI)
      (auto simp: GetResumeFilePath_def)
qed

lemma DownloadAsync_bad_link:
  assumes "engine_ok t" and "lt_parse_magnet lt link = Inl msg"
  shows "\<exists>t' i. DownloadAsync lt ds fresh uuid link t = (Throw (Runtime_Error (''Invalid magnet URI: '' @ msg)), t')
    \<and> view (t_mgr t') uuid = Some i \<and> tStatus i = DOWNLOADING_ERROR \<and> tProgress i = 0 \<and> tLink i = link
    \<and> (\<forall>k. k \<noteq> uuid \<longrightarrow> view (t_mgr t') k = view (t_mgr t) k)
    \<and> t_list t' = t_list t \<and> t_calls t' = t_calls t \<and> t_fs t' = t_fs t"
proof -
  have ok: "mgr_ok (t_mgr t)" using engine_okD [OF assms(1)] by auto
  note st = download_start [OF ok, of uuid link]
  show ?thesis
    using assms(2) st(1,3) by (simp add: DownloadAsync_stages view_UpdateStatus)
qed

text \<open>For a magnet link that does not parse, \<open>DownloadAsync\<close> throws a \<open>runtime_error\<close> with the parser's
  message after filing the torrent as \<open>DOWNLOADING_ERROR\<close> at 0 percent, and adds nothing to the session.\<close>

lemma DownloadAsync_error:
  assumes "engine_ok t" and "lt_parse_magnet lt link = Inl msg"
  shows "\<exists>t' i. DownloadAsync lt ds fresh uuid link t = (Throw (Runtime_Error (''Invalid magnet URI: '' @ msg)), t')
    \<and> view (t_mgr t') uuid = Some i \<and> tStatus i = DOWNLOADING_ERROR \<and> tProgress i = 0 \<and> tLink i = link
    \<and> (\<forall>k. k \<noteq> uuid \<longrightarrow> view (t_mgr t') k = view (t_mgr t) k)
    \<and> t_list t' = t_list t \<and> t_calls t' = t_calls t \<and> t_fs t' = t_fs t"
  using assms by (rule DownloadAsync_bad_link)

text \<open>The link of a torrent that is being downloaded cannot be asked for: it was added by its magnet
  link, so its parameters hold no torrent, and \<open>GetMagnetFromHandler\<close> dereferences the null pointer.\<close>

lemma GetMagnet_of_download_undefined:
  assumes "engine_ok t" and "t_session t" and "uuid \<noteq> ''''" and "lt_parse_magnet lt link = Inr (name, infoHash)"
  shows "GetMagnetFromHandler lt uuid (snd (DownloadAsync lt ds fresh uuid link t)) = Undefined"
proof -
  have ok: "mgr_ok (t_mgr t)" and l: "map_ok (t_list t)" using engine_okD [OF assms(1)] by auto
  have "ap_ti (st_param e) = None"
    if "map_find (put_param uuid (default_params\<lparr>ap_name := a, ap_info_hash := b, ap_save_path := c, ap_url := d, ap_resume := r\<rparr>) (t_list t)) uuid = Some e"
    for a b c d r e
    using find_put_param [OF l, of uuid "default_params\<lparr>ap_name := a, ap_info_hash := b, ap_save_path := c, ap_url := d, ap_resume := r\<rparr>" uuid] that
    by (simp add: default_params_def)
  moreover have "map_find (put_param uuid p (t_list t)) uuid \<noteq> None" for p
    using find_put_param [OF l, of uuid p uuid] by auto
  ultimately show ?thesis
    using assms(2-4)
    by (auto simp: DownloadAsync_stages AddTorrent_def Let_def GetMagnetFromHandler_def split: option.split)
qed

section \<open>Names and alerts\<close>

text \<open>A name is resolved to the least id among the torrents added under that name, and to the empty
  string when there is none.\<close>

lemma GetIdByName_least:
  assumes "engine_ok t"
  shows "(\<exists>e. map_find (t_list t) (GetIdByName t name) = Some e \<and> ap_name (st_param e) = name
      \<and> (\<forall>k e'. map_find (t_list t) k = Some e' \<and> ap_name (st_param e') = name \<longrightarrow> GetIdByName t name \<le> k))
    \<or> GetIdByName t name = '''' \<and> (\<forall>k e. map_find (t_list t) k = Some e \<longrightarrow> ap_name (st_param e) \<noteq> name)"
proof (cases "map_first (\<lambda>e. ap_name (st_param e) = name) (t_list t)")
  case None
  with std_map.first_none [OF engine_okD(3) [OF assms] None] show ?thesis
    by (simp add: GetIdByName_def)
next
  case (Some k)
  from std_map.first_least [OF engine_okD(3) [OF assms] Some] Some show ?thesis
    by (auto simp: GetIdByName_def)
qed

definition demo_two :: "string engine" where
  "demo_two = snd (DownloadAsync demo_lt demo_dirs ''f'' ''b'' ''magnet:prj''
     (snd (DownloadAsync demo_lt demo_dirs ''f'' ''a'' ''magnet:prj'' demo_engine)))"

lemma demo_two_ok [simp]: "engine_ok demo_two"
  unfolding demo_two_def by (intro engine_ok_DownloadAsync demo_engine_ok)

lemma demo_two_list:
  "map fst (t_list demo_two) = [''a'', ''b'']" "map (ap_name \<circ> st_param \<circ> snd) (t_list demo_two) = [''prj'', ''prj'']"
proof -
  have less: "''a'' < ''b''" "\<not> ''b'' < ''a''" by (simp_all add: less_char_def)
  have "lt_parse_magnet demo_lt ''magnet:prj'' = Inr (''prj'', ''abc'')" by (simp add: demo_lt_def)
  then show "map fst (t_list demo_two) = [''a'', ''b'']"
    and "map (ap_name \<circ> st_param \<circ> snd) (t_list demo_two) = [''prj'', ''prj'']"
    using less by (simp_all add: demo_two_def DownloadAsync_stages AddTorrent_def Let_def put_param_def)
qed

lemma demo_two_find:
  "map_option (ap_name \<circ> st_param) (map_find (t_list demo_two) k) =
     (if k = ''a'' \<or> k = ''b'' then Some ''prj'' else None)" "GetIdByName demo_two ''prj'' = ''a''"
proof -
  from demo_two_list obtain x y where "t_list demo_two = [(''a'', x), (''b'', y)]"
    "ap_name (st_param x) = ''prj''" "ap_name (st_param y) = ''prj''"
    by (auto simp: map_eq_Cons_conv)
  then show "map_option (ap_name \<circ> st_param) (map_find (t_list demo_two) k) =
     (if k = ''a'' \<or> k = ''b'' then Some ''prj'' else None)" "GetIdByName demo_two ''prj'' = ''a''"
    by (simp_all add: GetIdByName_def)
qed

text \<open>When two torrents were added under one name, an alert that carries this name is always taken for
  the one with the lesser id: the completion of the other torrent never reaches its own status.\<close>

lemma same_name_alert_lost:
  assumes "engine_ok t" and "map_find (t_list t) k1 = Some e1" and "map_find (t_list t) k2 = Some e2"
    and "ap_name (st_param e1) = name" and "ap_name (st_param e2) = name" and "k1 < k2"
  shows "view (t_mgr (snd (handle_alert lt ds (Torrent_Finished name h) t))) k2 = view (t_mgr t) k2"
proof -
  have ok: "mgr_ok (t_mgr t)" and l: "map_ok (t_list t)" using engine_okD [OF assms(1)] by auto
  obtain k' where "map_first (\<lambda>e. ap_name (st_param e) = name) (t_list t) = Some k'" "k' \<le> k1"
    using std_map.first_found [OF l, of k1 e1 "\<lambda>e. ap_name (st_param e) = name"] assms(2,4) by blast
  then have "GetIdByName t name \<noteq> k2" using assms(6) by (simp add: GetIdByName_def)
  from view_Finished_other [OF ok this] show ?thesis .
qed

text \<open>A finished download is filed as \<open>DOWNLOADED\<close> at 100 percent; the path it is given as its torrent
  file lacks the extension: the file \<open>WriteTorrent\<close> writes for this name is that path followed by
  \<open>.torrent\<close>.\<close>

lemma finished_alert_effect:
  assumes "engine_ok t" and "GetIdByName t name \<noteq> ''''" and "view (t_mgr t) (GetIdByName t name) = Some i"
    and "WriteTorrent lt ds en name fs = (Inr fileName, fs1)"
  shows "\<exists>t' i'. handle_alert lt ds (Torrent_Finished name h) t = (Ret (), t')
    \<and> view (t_mgr t') (GetIdByName t name) = Some i' \<and> tStatus i' = DOWNLOADED \<and> tProgress i' = 100
    \<and> tLink i' = tLink i \<and> pPath i' = pPath i \<and> tPath i' @ ''.torrent'' = fileName"
proof -
  have ok: "mgr_ok (t_mgr t)" using engine_okD [OF assms(1)] by auto
  have "fileName = tf_dir ds @ ''/'' @ name @ ''.torrent''"
    using assms(4) by (auto simp: WriteTorrent_def Let_def split: prod.splits sum.splits)
  with view_Finished [OF ok assms(2), of lt ds h] assms(3) show ?thesis
    by (cases "handle_alert lt ds (Torrent_Finished name h) t") (auto simp: Let_def split_def)
qed

text \<open>No sequence of alerts changes the information about a torrent that the daemon generated itself:
  such a torrent was added without a name, and alerts are matched by name.\<close>

lemma alerts_spare_seeds:
  assumes "engine_ok t" and "k \<noteq> ''''" and "map_find (t_list t) k = Some e" and "ap_name (st_param e) = ''''"
    and "list_all alert_named as"
  shows "view (t_mgr (snd (handle_alerts lt ds as t))) k = view (t_mgr t) k"
  using kept_handle_alerts [of t k "as" lt ds] engine_okD [OF assms(1)] assms(2-5)
  by (simp add: kept_def param_name_def)

section \<open>Every reachable state\<close>

text \<open>In every state the engine can reach from start-up, through any interleaving of starts, stops,
  requests, generating threads, downloads, queries and alerts, the information about a torrent is filed
  under its own id with a progress of at most 100, the list of torrents stays ordered by id, the file system
  stays a tree, and a working engine has a session.\<close>

lemma engine_reachable_ok:
  assumes "engine_reach lt ds fs t" and "lt_pieces_ok lt" and "fs_ok fs"
  shows "(\<forall>k i. view (t_mgr t) k = Some i \<longrightarrow> GetId i = k \<and> GetProgress i \<le> 100)
    \<and> map_ok (t_list t) \<and> fs_ok (t_fs t) \<and> (IsWork t \<longrightarrow> t_session t)"
  using engine_reach_ok [OF assms] view_id
  by (auto simp: engine_ok_def IsWork_def intro: mgr_sane_view)

section \<open>WriteTorrent\<close>

text \<open>When the folder of torrent files can be made and the file's place is free or holds a regular
  file that may be replaced, \<open>WriteTorrent\<close> returns the file's name, the file then holds exactly the
  encoded torrent, whatever it held before, and every other file and folder is left as it was.\<close>

lemma WriteTorrent_effect:
  assumes "fs_ok fs" and "way_free fs [] (resolve (tf_dir ds))" and "CHR ''/'' \<notin> set name"
    and "F = resolve (tf_dir ds) @ [name @ ''.torrent'']"
    and "\<not> is_dir fs F" and "\<not> fs_refuse fs SysRemove F" and "\<not> fs_refuse fs SysOpen F"
  shows "\<exists>fs1. WriteTorrent lt ds en name fs = (Inr (tf_dir ds @ ''/'' @ name @ ''.torrent''), fs1)
    \<and> ifs_read fs1 (tf_dir ds @ ''/'' @ name @ ''.torrent'') = lt_bencode lt en
    \<and> (\<forall>q n. q \<noteq> F \<and> fs_nodes fs q = Some n \<longrightarrow> fs_nodes fs1 q = Some n)"
proof -
  let ?D = "resolve (tf_dir ds)" and ?name = "tf_dir ds @ ''/'' @ name @ ''.torrent''"
  let ?fs = "CreateFolder (tf_dir ds) fs"
  note eff = CreateFolder_walk [OF assms(1), where dir = "tf_dir ds"]
  have plain: "CHR ''/'' \<notin> set (name @ ''.torrent'')" using assms(3) by simp
  have res: "resolve ?name = F"
    using resolve_append [of "tf_dir ds" "name @ ''.torrent''"] resolve_plain [OF plain] assms(4) by simp
  have nd: "\<not> needs_dir ?name"
    using needs_dir_file [OF plain, of "tf_dir ds"] by (simp add: append_eq_Cons_conv)
  have dir: "is_dir ?fs ?D" using eff(1) assms(2) .
  have ok: "fs_ok ?fs" using eff(2) .
  have F: "F \<noteq> []" "butlast F = ?D" "F \<noteq> ?D" using assms(4) by simp_all
  have nF: "\<not> is_dir ?fs F"
  proof
    assume "is_dir ?fs F"
    then obtain m where m: "fs_nodes ?fs F = Some (DirNode m)" by (auto dest: is_dirD)
    show False
    proof (cases "fs_nodes fs F")
      case None
      with m eff(4) obtain k where "F = take k ?D" by blast
      then have "length F \<le> length ?D" by simp
      with assms(4) show False by simp
    next
      case (Some n)
      with eff(3) m have "n = DirNode m" by fastforce
      with Some assms(5) show False by (simp add: is_dir_def)
    qed
  qed
  have ref: "fs_refuse ?fs = fs_refuse fs" using eff(5) .
  let ?fs2 = "if IsFileExist ?fs ?name then del_node F ?fs else ?fs"
  have rm: "(if IsFileExist ?fs ?name then Remove ?name ?fs else (Inr (), ?fs)) = (Inr (), ?fs2)"
  proof (cases "sys_stat ?fs ?name")
    case (Some n)
    with res nF obtain d where "n = RegNode d"
      by (auto simp: is_dir_def dest!: sys_statD split: node.splits)
    with Some F(1) assms(6) res ref show ?thesis
      by (simp add: IsFileExist_def Remove_def sys_remove_def)
  qed (simp add: IsFileExist_def)
  have wr: "can_write ?fs2 ?name"
    using nd F nF dir res ref assms(7) by (simp add: can_write_def is_dir_del_node)
  have "WriteTorrent lt ds en name fs = (Inr ?name, ofs_write ?fs2 ?name (lt_bencode lt en))"
    unfolding WriteTorrent_def Let_def rm by simp
  moreover have "ifs_read (ofs_write ?fs2 ?name (lt_bencode lt en)) ?name = lt_bencode lt en"
    using wr by (rule ofs_write_read)
  moreover have "fs_nodes (ofs_write ?fs2 ?name (lt_bencode lt en)) q = Some n"
    if "q \<noteq> F" "fs_nodes fs q = Some n" for q n
    using that eff(3) res by (simp add: ofs_write_def)
  ultimately show ?thesis by blast
qed

end
