(* ===== verification/Config_Daemon.thy ===== *)
theory Config_Daemon
  imports Config_Store
begin

text \<open>
  \<^verbatim>\<open>Daemon/config/config_daemon.{h,cpp}\<close>: the daemon's own settings. The random UUID and the version
  the build defines are arguments.
\<close>

datatype dkey = DVersion | DUUID | DKey | DServerName | DServerPort

fun dkey_int :: "dkey \<Rightarrow> int" where
  "dkey_int DVersion = 0"
| "dkey_int DUUID = 1"
| "dkey_int DKey = 2"
| "dkey_int DServerName = 3"
| "dkey_int DServerPort = 4"

lemma dkey_int_inj: "dkey_int a = dkey_int b \<longleftrightarrow> a = b"
  by (cases a; cases b) auto

text \<open>The enumerators are ordered as \<^verbatim>\<open>std::map\<close> needs them, by their values.\<close>

instantiation dkey :: linorder
begin

definition less_eq_dkey :: "dkey \<Rightarrow> dkey \<Rightarrow> bool" where
  "less_eq_dkey a b \<longleftrightarrow> dkey_int a \<le> dkey_int b"

definition less_dkey :: "dkey \<Rightarrow> dkey \<Rightarrow> bool" where
  "less_dkey a b \<longleftrightarrow> dkey_int a < dkey_int b"

instance
  by intro_classes (auto simp: less_eq_dkey_def less_dkey_def dkey_int_inj)

end

definition sectionDaemon :: "string \<Rightarrow> string" where
  "sectionDaemon = Section ''daemon''"

definition sectionRPC :: "string \<Rightarrow> string" where
  "sectionRPC = Section (sectionDaemon ''server'')"

definition daemon_keys :: "(dkey, string) smap" where
  "daemon_keys =
     map_put DVersion (sectionDaemon ''version'')
      (map_put DUUID (sectionDaemon ''uuid'')
        (map_put DKey (sectionDaemon ''key'')
          (map_put DServerName (sectionRPC ''domainName'')
            (map_put DServerPort (sectionRPC ''port'') []))))"

definition dpath :: "dkey \<Rightarrow> string result" where
  "dpath = Key daemon_keys dkey_int"

text \<open>A getter resolves its key, which may throw, and reads the store.\<close>

definition daemon_get ::
  "('pt, 'd) ptree_api \<Rightarrow> dkey \<Rightarrow> string \<Rightarrow> ('pt, 'd) config \<Rightarrow> string result" where
  "daemon_get api k defValue c =
     (case dpath k of Inl e \<Rightarrow> Inl e | Inr p \<Rightarrow> Inr (GetString api p defValue c))"

definition GetVersion :: "('pt, 'd) ptree_api \<Rightarrow> ('pt, 'd) config \<Rightarrow> string result" where
  "GetVersion api c = daemon_get api DVersion '''' c"

definition GetUUID :: "('pt, 'd) ptree_api \<Rightarrow> ('pt, 'd) config \<Rightarrow> string result" where
  "GetUUID api c = daemon_get api DUUID '''' c"

definition GetKey :: "('pt, 'd) ptree_api \<Rightarrow> ('pt, 'd) config \<Rightarrow> string result" where
  "GetKey api c = daemon_get api DKey '''' c"

definition GetServerDomainName :: "('pt, 'd) ptree_api \<Rightarrow> ('pt, 'd) config \<Rightarrow> string result" where
  "GetServerDomainName api c = daemon_get api DServerName ''192.168.150.130'' c"

definition GetServerPort :: "('pt, 'd) ptree_api \<Rightarrow> ('pt, 'd) config \<Rightarrow> string result" where
  "GetServerPort api c = daemon_get api DServerPort ''50051'' c"

definition GetLogFolder :: string where
  "GetLogFolder = GetFolder"

definition daemon_put ::
  "('pt, 'd) ptree_api \<Rightarrow> dkey \<Rightarrow> string \<Rightarrow> ('pt, 'd) config \<Rightarrow> unit result \<times> ('pt, 'd) config" where
  "daemon_put api k v c =
     (case dpath k of Inl e \<Rightarrow> (Inl e, c) | Inr p \<Rightarrow> WriteString api p v c)"

definition CreateUUID ::
  "('pt, 'd) ptree_api \<Rightarrow> string \<Rightarrow> ('pt, 'd) config \<Rightarrow> unit result \<times> ('pt, 'd) config" where
  "CreateUUID api uid c = daemon_put api DUUID uid c"

definition daemon_Init ::
  "('pt, 'd) ptree_api \<Rightarrow> string \<Rightarrow> string \<Rightarrow> ('pt, 'd) config \<Rightarrow> unit result \<times> ('pt, 'd) config" where
  "daemon_Init api version uid c =
     (case GetVersion api c of
        Inl e \<Rightarrow> (Inl e, c)
      | Inr curVersion \<Rightarrow>
          (let (r, c1) = (if curVersion = '''' \<or> curVersion \<noteq> version
                          then daemon_put api DVersion version c else (Inr (), c))
           in (case r of
                 Inl e \<Rightarrow> (Inl e, c1)
               | Inr _ \<Rightarrow>
                   (case GetUUID api c1 of
                      Inl e \<Rightarrow> (Inl e, c1)
                    | Inr u \<Rightarrow> if u = '''' then CreateUUID api uid c1 else (Inr (), c1)))))"

section \<open>Every key resolves\<close>

lemma dpath_eq:
  "dpath DVersion = Inr ''daemon.version''" "dpath DUUID = Inr ''daemon.uuid''"
  "dpath DKey = Inr ''daemon.key''" "dpath DServerName = Inr ''daemon.server.domainName''"
  "dpath DServerPort = Inr ''daemon.server.port''"
  by (simp_all add: dpath_def Key_def daemon_keys_def sectionDaemon_def sectionRPC_def Section_def less_dkey_def)

lemma dpath_total: "\<exists>p. dpath k = Inr p"
  by (cases k) (simp_all add: dpath_eq)

lemma dpath_inj: "dpath k = dpath k' \<longleftrightarrow> k = k'"
  by (cases k; cases k') (simp_all add: dpath_eq)

text \<open>No path is above another, so the settings are independent.\<close>

lemma dpath_apart: "dpath k = Inr p \<Longrightarrow> dpath k' = Inr p' \<Longrightarrow> \<not> above p' p"
  by (cases k; cases k') (auto simp: dpath_eq above_def Cons_eq_append_conv)

section \<open>Initialisation over any store with the contract\<close>

context property_tree
begin

lemma daemon_get_put:
  "daemon_get api k dv (snd (daemon_put api k' v c)) =
     (if k = k' then Inr v else daemon_get api k dv c)"
proof -
  obtain p p' where p: "dpath k = Inr p" "dpath k' = Inr p'" using dpath_total by blast
  then have "\<not> above p p'" using dpath_apart by blast
  with p dpath_inj [of k k'] show ?thesis
    by (auto simp: daemon_get_def daemon_put_def rd_wr)
qed

lemma daemon_put_done:
  assumes "daemon_put api k' v c = (Inr (), c')"
  shows "synced api c'" and "daemon_get api k dv c' = (if k = k' then Inr v else daemon_get api k dv c)"
  using assms dpath_total [of k'] synced_WriteString daemon_get_put [of k dv k' v c]
  by (auto simp: daemon_put_def)

lemma GetUUID_total: "\<exists>u. GetUUID api c = Inr u"
  by (simp add: GetUUID_def daemon_get_def dpath_eq)

text \<open>\<open>Init\<close> by cases: the version is written or not, then the UUID is.\<close>

lemma daemon_Init_done:
  assumes "daemon_Init api version uid c = (Inr (), c')"
  obtains c1 where "c1 = c \<and> GetVersion api c = Inr version \<and> version \<noteq> '''' \<or> daemon_put api DVersion version c = (Inr (), c1)"
    and "c' = c1 \<and> GetUUID api c1 \<noteq> Inr '''' \<or> GetUUID api c1 = Inr '''' \<and> daemon_put api DUUID uid c1 = (Inr (), c')"
proof -
  obtain v where v: "GetVersion api c = Inr v" by (auto simp: GetVersion_def daemon_get_def dpath_eq)
  obtain r c1 where put: "(if v = '''' \<or> v \<noteq> version then daemon_put api DVersion version c else (Inr (), c)) = (r, c1)"
    by fastforce
  with assms v have r: "r = Inr ()" by (auto simp: daemon_Init_def split: sum.splits)
  obtain u where u: "GetUUID api c1 = Inr u" using GetUUID_total by blast
  have "u = '''' \<and> daemon_put api DUUID uid c1 = (Inr (), c') \<or> u \<noteq> '''' \<and> c' = c1"
    using assms v put r u by (auto simp: daemon_Init_def CreateUUID_def split: if_splits)
  then show thesis using v put r u by (intro that [of c1]) (auto split: if_splits)
qed

lemma daemon_Init_result:
  assumes "daemon_Init api version uid c = (Inr (), c')"
  shows "GetVersion api c' = Inr version"
    and "GetUUID api c' = (if GetUUID api c = Inr '''' then Inr uid else GetUUID api c)"
    and "k \<notin> {DVersion, DUUID} \<Longrightarrow> daemon_get api k dv c' = daemon_get api k dv c"
    and "c' = c \<and> version \<noteq> '''' \<and> GetVersion api c = Inr version \<and> GetUUID api c \<noteq> Inr '''' \<or> synced api c'"
proof -
  obtain c1 where c1: "c1 = c \<and> GetVersion api c = Inr version \<and> version \<noteq> '''' \<or> daemon_put api DVersion version c = (Inr (), c1)"
    and c': "c' = c1 \<and> GetUUID api c1 \<noteq> Inr '''' \<or> GetUUID api c1 = Inr '''' \<and> daemon_put api DUUID uid c1 = (Inr (), c')"
    using daemon_Init_done [OF assms] .
  have v1: "GetVersion api c1 = Inr version" and u1: "GetUUID api c1 = GetUUID api c"
    and k1: "k \<notin> {DVersion, DUUID} \<Longrightarrow> daemon_get api k dv c1 = daemon_get api k dv c" for k dv
    using c1 daemon_put_done(2) [of DVersion version c c1] by (auto simp: GetVersion_def GetUUID_def)
  show "GetVersion api c' = Inr version"
    and "GetUUID api c' = (if GetUUID api c = Inr '''' then Inr uid else GetUUID api c)"
    and "k \<notin> {DVersion, DUUID} \<Longrightarrow> daemon_get api k dv c' = daemon_get api k dv c"
    using c' v1 u1 k1 daemon_put_done(2) [of DUUID uid c1 c'] by (auto simp: GetVersion_def GetUUID_def)
  show "c' = c \<and> version \<noteq> '''' \<and> GetVersion api c = Inr version \<and> GetUUID api c \<noteq> Inr '''' \<or> synced api c'"
    using c1 c' daemon_put_done(1) u1 by auto
qed

text \<open>A configuration that came from no file reads as its defaults.\<close>

lemma GetUUID_fresh: "\<not> pt_exists api d \<Longrightarrow> Config_Init api d fs = (Inr (), c) \<Longrightarrow> GetUUID api c = Inr ''''"
  by (simp add: GetUUID_def daemon_get_def dpath_eq GetString_empty)

lemma synced_after_boot:
  assumes "Config_Init api d fs = (Inr (), c)" and "daemon_Init api version uid c = (Inr (), c')"
  shows "synced api c'"
  using daemon_Init_result(4) [OF assms(2)] synced_Config_Init [OF assms(1)] GetUUID_fresh [OF _ assms(1)] by auto

end

section \<open>Start-up\<close>

text \<open>When the start-up of the daemon's configuration succeeds, the stored version is the running one,
  the daemon has a non-empty UUID, one it had before is kept, and no other setting has changed.\<close>

lemma daemon_Init_effect:
  assumes "property_tree api" and "daemon_Init api version uid c = (Inr (), c')" and "uid \<noteq> ''''"
  shows "GetVersion api c' = Inr version
    \<and> (\<exists>u. GetUUID api c' = Inr u \<and> u \<noteq> '''')
    \<and> (\<forall>u. GetUUID api c = Inr u \<and> u \<noteq> '''' \<longrightarrow> GetUUID api c' = Inr u)
    \<and> GetKey api c' = GetKey api c \<and> GetServerDomainName api c' = GetServerDomainName api c
    \<and> GetServerPort api c' = GetServerPort api c"
  using property_tree.daemon_Init_result [OF assms(1,2)] property_tree.GetUUID_total [OF assms(1), of c] assms(3)
  by (auto simp: GetKey_def GetServerDomainName_def GetServerPort_def)

definition demo_config :: "(ptree, pfile) config" where
  "demo_config = \<lparr>c_root = PNode '''' [], c_file = \<lparr>pf_content = No_File, pf_open = True\<rparr>, c_fs = root_fs\<rparr>"

lemma tree_api_tree: "property_tree tree_api"
  by (rule boost_tree.property_tree_axioms)

lemma demo_daemon_Init: "\<exists>c'. daemon_Init tree_api ''1.0'' ''u-1'' demo_config = (Inr (), c')"
  by (simp add: daemon_Init_def GetVersion_def GetUUID_def daemon_get_def dpath_eq daemon_put_def CreateUUID_def
      GetString_def WriteString_def tree_api_def demo_config_def Let_def)

text \<open>C40: the UUID outlives the process: after a start-up, whatever the configuration file held before, a
  second start-up from the file the first one left, with another version and another random UUID, finds
  the same UUID.\<close>

theorem uuid_survives_restart:
  assumes "property_tree api" and "Config_Init api d fs = (Inr (), c0)"
    and "daemon_Init api version uid c0 = (Inr (), c1)" and "uid \<noteq> ''''"
  shows "\<exists>c2. Config_Init api (c_file c1) fs2 = (Inr (), c2)
    \<and> (\<forall>c3. daemon_Init api version2 uid2 c2 = (Inr (), c3) \<longrightarrow> GetUUID api c3 = GetUUID api c1)"
proof -
  have "synced api c1" by (rule property_tree.synced_after_boot [OF assms(1-3)])
  then obtain c2 where c2: "Config_Init api (c_file c1) fs2 = (Inr (), c2)"
    "\<forall>k dv. GetString api k dv c2 = GetString api k dv c1"
    using synced_reload by blast
  then have "GetUUID api c2 = GetUUID api c1" by (simp add: GetUUID_def daemon_get_def dpath_eq)
  moreover have "GetUUID api c1 \<noteq> Inr ''''"
    using property_tree.daemon_Init_result(2) [OF assms(1,3)] assms(4) by auto
  ultimately show ?thesis using c2(1) property_tree.daemon_Init_result(2) [OF assms(1)] by auto
qed

theorem uuid_survives_restart_witness:
  "\<exists>c1 c2. daemon_Init tree_api ''1.0'' ''u-1'' demo_config = (Inr (), c1)
     \<and> Config_Init tree_api (c_file c1) root_fs = (Inr (), c2)
     \<and> (\<forall>c3. daemon_Init tree_api ''2.0'' ''u-2'' c2 = (Inr (), c3) \<longrightarrow> GetUUID tree_api c3 = GetUUID tree_api c1)"
proof -
  obtain c1 where c1: "daemon_Init tree_api ''1.0'' ''u-1'' demo_config = (Inr (), c1)" using demo_daemon_Init by blast
  let ?d = "\<lparr>pf_content = No_File, pf_open = True\<rparr>"
  have "\<exists>fs c0. Config_Init tree_api ?d fs = (Inr (), c0) \<and> daemon_Init tree_api ''1.0'' ''u-1'' c0 = (Inr (), c0\<lparr>c_root := c_root c1, c_file := c_file c1\<rparr>)"
    using c1
    by (intro exI [of _ root_fs])
      (auto simp: Config_Init_def daemon_Init_def GetVersion_def GetUUID_def daemon_get_def dpath_eq daemon_put_def
        CreateUUID_def GetString_def WriteString_def tree_api_def demo_config_def Let_def)
  then obtain fs c0 where c0: "Config_Init tree_api ?d fs = (Inr (), c0)"
    "daemon_Init tree_api ''1.0'' ''u-1'' c0 = (Inr (), c0\<lparr>c_root := c_root c1, c_file := c_file c1\<rparr>)" by blast
  from uuid_survives_restart [OF tree_api_tree c0, of root_fs "''2.0''" "''u-2''"] c1
  show ?thesis by (simp add: GetUUID_def daemon_get_def dpath_eq GetString_def)
qed

end
