(* ===== verification/Controller.thy ===== *)
theory Controller
  imports Grpc_Client Torrent_Laws Config_Daemon
begin

text \<open>
  \<^verbatim>\<open>Daemon/src/controller.{h,cpp}\<close>: the object that owns the torrent engine and the client, and answers the
  client's callbacks. The world of theory \<open>Grpc_Client\<close> is what they act on: the engine behind the
  \<^verbatim>\<open>unique_ptr\<close> (\<open>None\<close> when null), whether the pointer to the client is set, and the server \<open>'srv\<close>. The
  UUID is what the configuration returns. The constructor's logger is not modelled.
\<close>

record ('ti, 'srv) world =
  wo_torrent :: "'ti engine option"
  wo_rpc :: bool
  wo_srv :: 'srv

definition GetClientUUID :: "string result \<Rightarrow> string outcome" where
  "GetClientUUID uuid = (case uuid of Inl e \<Rightarrow> Throw e | Inr u \<Rightarrow> Ret u)"

definition GenerateTorrent :: "rpc_tinfo \<Rightarrow> ('ti, 'srv) world \<Rightarrow> unit outcome \<times> ('ti, 'srv) world" where
  "GenerateTorrent tInfo w =
     (case wo_torrent w of
        None \<Rightarrow> (Undefined, w)
      | Some t \<Rightarrow> (Ret (), w\<lparr>wo_torrent := Some (CreateTorrentAsync (ri_id tInfo) (ri_pathToProject tInfo) t)\<rparr>))"

text \<open>Only a \<^verbatim>\<open>runtime_error\<close> is caught; the report sent is what the server sent.\<close>

definition DownloadTorrent ::
  "('en, 'ti) lt_api \<Rightarrow> dirs \<Rightarrow> string \<Rightarrow> ('ti, 'srv) world sender \<Rightarrow> rpc_tinfo \<Rightarrow> ('ti, 'srv) world
   \<Rightarrow> unit outcome \<times> ('ti, 'srv) world" where
  "DownloadTorrent lt ds fresh send tInfo w =
     (case wo_torrent w of
        None \<Rightarrow> (Undefined, w)
      | Some t \<Rightarrow>
          (case DownloadAsync lt ds fresh (ri_id tInfo) (ri_link tInfo) t of
             (Throw (Runtime_Error msg), t1) \<Rightarrow>
               if wo_rpc w then send tInfo (w\<lparr>wo_torrent := Some t1\<rparr>)
               else (Undefined, w\<lparr>wo_torrent := Some t1\<rparr>)
           | (r, t1) \<Rightarrow> (r, w\<lparr>wo_torrent := Some t1\<rparr>)))"

fun ConvertTorrentStatus :: "tstatus \<Rightarrow> rpc_status" where
  "ConvertTorrentStatus DOWNLOADED = RS_DOWNLOADED"
| "ConvertTorrentStatus DOWNLOADING = RS_DOWNLOADING"
| "ConvertTorrentStatus DOWNLOADING_ERROR = RS_ERROR"
| "ConvertTorrentStatus GENERATED = RS_GENERATED"
| "ConvertTorrentStatus GENERATING = RS_GENERATING"
| "ConvertTorrentStatus GENERATION_ERROR = RS_ERROR"
| "ConvertTorrentStatus PAUSED = RS_PAUSED"
| "ConvertTorrentStatus _ = RS_NONE"

definition ConvertTorrentInfo :: "tinfo \<Rightarrow> rpc_tinfo" where
  "ConvertTorrentInfo info =
     \<lparr>ri_id = GetId info, ri_link = GetLink info, ri_pathToTFile = GetPathToTFile info,
      ri_status = ConvertTorrentStatus (GetStatus info), ri_workProgress = GetProgress info,
      ri_pathToProject = GetPathToProject info\<rparr>"

definition UpdateTorrentInfo :: "rpc_tinfo \<Rightarrow> ('ti, 'srv) world \<Rightarrow> rpc_tinfo outcome \<times> ('ti, 'srv) world" where
  "UpdateTorrentInfo tInfo w =
     (case wo_torrent w of
        None \<Rightarrow> (Undefined, w)
      | Some t \<Rightarrow>
          (case GetTorrentInfo (ri_id tInfo) t of
             (None, t1) \<Rightarrow> (Undefined, w\<lparr>wo_torrent := Some t1\<rparr>)
           | (Some newInfo, t1) \<Rightarrow> (Ret (ConvertTorrentInfo newInfo), w\<lparr>wo_torrent := Some t1\<rparr>)))"

definition controller_cb ::
  "('en, 'ti) lt_api \<Rightarrow> dirs \<Rightarrow> string \<Rightarrow> string result \<Rightarrow> ('ti, 'srv) world callback_api" where
  "controller_cb lt ds fresh uuid =
     \<lparr>cb_GetClientUUID = (\<lambda>w. GetClientUUID uuid), cb_GenerateTorrent = GenerateTorrent,
      cb_DownloadTorrent = DownloadTorrent lt ds fresh, cb_UpdateTorrentInfo = UpdateTorrentInfo\<rparr>"

text \<open>The stub acts on the server alone.\<close>

definition on_srv :: "('srv \<Rightarrow> 'b \<times> 'srv) \<Rightarrow> ('ti, 'srv) world \<Rightarrow> 'b \<times> ('ti, 'srv) world" where
  "on_srv f w = (let (r, s) = f (wo_srv w) in (r, w\<lparr>wo_srv := s\<rparr>))"

definition world_stub :: "'srv stub_api \<Rightarrow> ('ti, 'srv) world stub_api" where
  "world_stub api =
     \<lparr>sa_Handshake = (\<lambda>u. on_srv (sa_Handshake api u)),
      sa_GetTaskList = (\<lambda>di. on_srv (sa_GetTaskList api di)),
      sa_GetInfoForGenerateTorrents = (\<lambda>di. on_srv (sa_GetInfoForGenerateTorrents api di)),
      sa_GetTorrentsForDownload = (\<lambda>di. on_srv (sa_GetTorrentsForDownload api di)),
      sa_GetTorrentsForUpdateStatus = (\<lambda>di. on_srv (sa_GetTorrentsForUpdateStatus api di)),
      sa_UpdateTorrentStatus = (\<lambda>di ti. on_srv (sa_UpdateTorrentStatus api di ti))\<rparr>"

text \<open>
  \<open>Start\<close> builds the engine and the client; the server name and port are what the configuration returns.
  \<open>Stop\<close> releases the engine without destroying it, then destroys the client: its pointer is null from
  then on, and its last member, the worker, is stopped and drained first.
\<close>

definition Controller_Start :: "fsys \<Rightarrow> string \<Rightarrow> string \<Rightarrow> 'srv \<Rightarrow> grpc \<times> ('ti, 'srv) world" where
  "Controller_Start fs domainName port srv =
     (Client_Start (grpc_new domainName port),
      \<lparr>wo_torrent = Some (Torrent_Start (engine_init fs)), wo_rpc = True, wo_srv = srv\<rparr>)"

definition Controller_Stop :: "grpc \<times> ('ti, 'srv) world \<Rightarrow> grpc \<times> ('ti, 'srv) world" where
  "Controller_Stop = (\<lambda>(g, w). (g\<lparr>g_worker := Stop (g_worker g)\<rparr>, w\<lparr>wo_torrent := None, wo_rpc := False\<rparr>))"

section \<open>The controller meets the client's contract\<close>

definition world_ok :: "('ti, 'srv) world \<Rightarrow> bool" where
  "world_ok w \<longleftrightarrow> (case wo_torrent w of None \<Rightarrow> True | Some t \<Rightarrow> engine_ok t)"

lemma world_ok_on_srv [simp]: "world_ok (snd (on_srv f w)) = world_ok w"
  by (simp add: on_srv_def world_ok_def split_def Let_def)

lemma world_ok_engine: "engine_ok t \<Longrightarrow> world_ok (w\<lparr>wo_torrent := Some t\<rparr>)"
  by (simp add: world_ok_def)

lemma world_ok_download:
  assumes "\<And>t v. world_ok v \<Longrightarrow> world_ok (snd (send t v))" and "world_ok w"
  shows "world_ok (snd (DownloadTorrent lt ds fresh send ti w))"
proof (cases "wo_torrent w")
  case (Some t)
  with assms(2) have "engine_ok t" by (simp add: world_ok_def)
  then have "engine_ok (snd (DownloadAsync lt ds fresh (ri_id ti) (ri_link ti) t))" by (rule engine_ok_DownloadAsync)
  then show ?thesis
    using Some assms(1)
    by (cases "DownloadAsync lt ds fresh (ri_id ti) (ri_link ti) t")
      (auto simp: DownloadTorrent_def world_ok_engine split: outcome.split exn.split)
qed (use assms in \<open>simp add: DownloadTorrent_def\<close>)

lemma world_ok_update: "world_ok w \<Longrightarrow> world_ok (snd (UpdateTorrentInfo ti w))"
proof (cases "wo_torrent w")
  case (Some t)
  assume "world_ok w"
  with Some engine_ok_GetTorrentInfo [of t "ri_id ti"] have "engine_ok (snd (GetTorrentInfo (ri_id ti) t))"
    by (simp add: world_ok_def)
  with Some show ?thesis
    by (cases "GetTorrentInfo (ri_id ti) t") (auto simp: UpdateTorrentInfo_def world_ok_engine split: option.split)
qed (simp add: UpdateTorrentInfo_def)

interpretation ctl: rpc_client "world_stub api" "controller_cb lt ds fresh uuid" world_ok
  for api :: "'srv stub_api" and lt :: "('en, 'ti) lt_api" and ds :: dirs and fresh :: string and uuid :: "string result"
proof unfold_locales
  fix w :: "('ti, 'srv) world" and ti
  assume "world_ok w"
  then show "world_ok (snd (cb_GenerateTorrent (controller_cb lt ds fresh uuid) ti w))"
    by (auto simp: controller_cb_def GenerateTorrent_def world_ok_def engine_ok_CreateTorrentAsync split: option.split)
qed (simp_all add: world_stub_def controller_cb_def world_ok_download world_ok_update)

section \<open>Reports\<close>

text \<open>What the registry says of a torrent, as the server is told.\<close>

definition report_of :: "'ti engine \<Rightarrow> string \<Rightarrow> rpc_tinfo" where
  "report_of t k = ConvertTorrentInfo (case view (t_mgr t) k of None \<Rightarrow> TorrentInfo k | Some i \<Rightarrow> i)"

lemma GetTorrentInfo_eq:
  assumes "engine_ok t"
  shows "fst (GetTorrentInfo k t) = Some (case view (t_mgr t) k of None \<Rightarrow> TorrentInfo k | Some i \<Rightarrow> i)"
    and "view (t_mgr (snd (GetTorrentInfo k t))) = view (t_mgr t)" and "engine_ok (snd (GetTorrentInfo k t))"
  using reg.load_get [OF engine_okD(2) [OF assms], of k] reg.obs_get [OF engine_okD(2) [OF assms], of k]
    engine_ok_GetTorrentInfo [OF assms, of k]
  by (simp_all add: GetTorrentInfo_def Let_def split_def)

lemma UpdateTorrentInfo_report:
  assumes "wo_torrent w = Some t" and "engine_ok t"
  shows "\<exists>t1. UpdateTorrentInfo ti w = (Ret (report_of t (ri_id ti)), w\<lparr>wo_torrent := Some t1\<rparr>)
    \<and> engine_ok t1 \<and> view (t_mgr t1) = view (t_mgr t)"
  using assms(1) GetTorrentInfo_eq [OF assms(2), of "ri_id ti"]
  by (cases "GetTorrentInfo (ri_id ti) t") (auto simp: UpdateTorrentInfo_def report_of_def)

text \<open>The task that reports: one message for each torrent asked for, and the registry as it was.\<close>

lemma report_all:
  assumes "g_stub g" and "wo_torrent w = Some t" and "engine_ok t"
    and "sa_GetTorrentsForUpdateStatus srv (GetClientInfo g) (wo_srv w) = ((tis, status_ok), s1)"
  shows "\<exists>w' t'. run_body (world_stub srv) (controller_cb lt ds fresh uuid) UPDATE_TORRENT_STATUS (g, w) = (Ret (), (g, w'))
    \<and> wo_srv w' = fold (\<lambda>ti s. snd (sa_UpdateTorrentStatus srv (GetClientInfo g) (report_of t (ri_id ti)) s)) tis s1
    \<and> wo_torrent w' = Some t' \<and> view (t_mgr t') = view (t_mgr t)"
proof -
  let ?api = "world_stub srv" and ?cb = "controller_cb lt ds fresh uuid"
  let ?f = "\<lambda>ti w. and_then (cb_UpdateTorrentInfo ?cb ti w) (UpdateTorrentStatus ?api g)"
  have loop: "\<exists>w' t'. for_each ?f tis v = (Ret (), w')
      \<and> wo_srv w' = fold (\<lambda>ti s. snd (sa_UpdateTorrentStatus srv (GetClientInfo g) (report_of t (ri_id ti)) s)) tis (wo_srv v)
      \<and> wo_torrent w' = Some t' \<and> view (t_mgr t') = view (t_mgr t)"
    if "wo_torrent v = Some u" "engine_ok u" "view (t_mgr u) = view (t_mgr t)" for v u and tis :: "rpc_tinfo list"
    using that
  proof (induction tis arbitrary: v u)
    case (Cons ti tis)
    have same: "report_of u = report_of t" using Cons.prems(3) by (simp add: report_of_def fun_eq_iff)
    obtain u1 where u1: "UpdateTorrentInfo ti v = (Ret (report_of t (ri_id ti)), v\<lparr>wo_torrent := Some u1\<rparr>)"
      "engine_ok u1" "view (t_mgr u1) = view (t_mgr t)"
      using UpdateTorrentInfo_report [OF Cons.prems(1,2), of ti] Cons.prems(3) same by auto
    let ?v = "(v\<lparr>wo_torrent := Some u1\<rparr>)\<lparr>wo_srv := snd (sa_UpdateTorrentStatus srv (GetClientInfo g) (report_of t (ri_id ti)) (wo_srv v))\<rparr>"
    have "?f ti v = (Ret (), ?v)"
      using u1(1) assms(1)
      by (simp add: controller_cb_def UpdateTorrentStatus_def world_stub_def on_srv_def split_def Let_def)
    moreover have "wo_torrent ?v = Some u1" by simp
    note Cons.IH [OF this u1(2,3)]
    ultimately show ?case by simp
  qed simp
  have "run_body ?api ?cb UPDATE_TORRENT_STATUS (g, w) = (let (r, w2) = for_each ?f tis (w\<lparr>wo_srv := s1\<rparr>) in (r, (g, w2)))"
    using assms(1,4) by (simp add: UpdateTorrentTask_def world_stub_def on_srv_def)
  moreover from loop [of "w\<lparr>wo_srv := s1\<rparr>" t tis] assms(2,3) obtain w' t' where
    "for_each ?f tis (w\<lparr>wo_srv := s1\<rparr>) = (Ret (), w')"
    "wo_srv w' = fold (\<lambda>ti s. snd (sa_UpdateTorrentStatus srv (GetClientInfo g) (report_of t (ri_id ti)) s)) tis s1"
    "wo_torrent w' = Some t'" "view (t_mgr t') = view (t_mgr t)" by auto
  ultimately show ?thesis by (intro exI [of _ w'] exI [of _ t'] conjI) simp_all
qed

lemma report_of_status:
  assumes "engine_ok t"
  shows "ri_id (report_of t k) = k
    \<and> ri_status (report_of t k) =
         (case view (t_mgr t) k of None \<Rightarrow> RS_NONE | Some i \<Rightarrow> ConvertTorrentStatus (tStatus i))
    \<and> (ri_status (report_of t k) = RS_ERROR \<longleftrightarrow>
         (\<exists>i. view (t_mgr t) k = Some i \<and> (tStatus i = DOWNLOADING_ERROR \<or> tStatus i = GENERATION_ERROR)))"
proof (cases "view (t_mgr t) k")
  case (Some i)
  with view_id [OF engine_okD(2) [OF assms] Some] show ?thesis
    by (cases "tStatus i") (simp_all add: report_of_def ConvertTorrentInfo_def)
qed (simp add: report_of_def ConvertTorrentInfo_def)

text \<open>C19: when the server asks for the status of torrents, each one it names is reported exactly once, in the
  order of the request, under the client's credentials and with what the registry holds of it: an unknown
  torrent as \<open>NONE\<close>, either kind of failure as \<open>ERROR\<close>; the registry is not changed by it.\<close>

theorem status_reports:
  assumes "g_stub g" and "wo_torrent w = Some t" and "engine_ok t"
    and "sa_GetTorrentsForUpdateStatus srv (GetClientInfo g) (wo_srv w) = ((tis, status_ok), s1)"
  shows "\<exists>w' t'. run_body (world_stub srv) (controller_cb lt ds fresh uuid) UPDATE_TORRENT_STATUS (g, w) = (Ret (), (g, w'))
    \<and> wo_srv w' = fold (\<lambda>ti s. snd (sa_UpdateTorrentStatus srv (GetClientInfo g) (report_of t (ri_id ti)) s)) tis s1
    \<and> wo_torrent w' = Some t' \<and> view (t_mgr t') = view (t_mgr t)
    \<and> (\<forall>k. ri_id (report_of t k) = k
        \<and> ri_status (report_of t k) =
            (case view (t_mgr t) k of None \<Rightarrow> RS_NONE | Some i \<Rightarrow> ConvertTorrentStatus (tStatus i))
        \<and> (ri_status (report_of t k) = RS_ERROR \<longleftrightarrow>
            (\<exists>i. view (t_mgr t) k = Some i \<and> (tStatus i = DOWNLOADING_ERROR \<or> tStatus i = GENERATION_ERROR))))"
  using report_all [OF assms, of lt ds fresh uuid] report_of_status [OF assms(3)] by blast

text \<open>A server that asks for one torrent and lists the reports it receives.\<close>

definition one_torrent :: "string \<Rightarrow> rpc_tinfo" where
  "one_torrent k = \<lparr>ri_id = k, ri_link = ''bad'', ri_pathToTFile = '''', ri_status = RS_NONE, ri_workProgress = 0, ri_pathToProject = ''/q''\<rparr>"

definition ask_stub :: "rpc_tinfo list stub_api" where
  "ask_stub = demo_stub\<lparr>sa_GetTorrentsForUpdateStatus := (\<lambda>di w. (([one_torrent ''a''], True), w)),
     sa_GetTorrentsForDownload := (\<lambda>di w. (([one_torrent ''a''], True), w)),
     sa_GetInfoForGenerateTorrents := (\<lambda>di w. (([one_torrent ''a''], True), w))\<rparr>"

definition demo_world :: "(string, rpc_tinfo list) world" where
  "demo_world = \<lparr>wo_torrent = Some demo_engine, wo_rpc = True, wo_srv = []\<rparr>"

theorem status_reports_witness:
  "\<exists>w'. run_body (world_stub ask_stub) (controller_cb demo_lt demo_dirs ''f'' (Inr ''u'')) UPDATE_TORRENT_STATUS (demo_client, demo_world)
      = (Ret (), (demo_client, w'))
    \<and> map (\<lambda>r. (ri_id r, ri_status r)) (wo_srv w') = [(''a'', RS_NONE)]"
proof -
  have "g_stub demo_client" by (simp add: demo_client_def client_eval demo_stub_def demo_cb_def)
  moreover have "wo_torrent demo_world = Some demo_engine" by (simp add: demo_world_def)
  moreover have "sa_GetTorrentsForUpdateStatus ask_stub (GetClientInfo demo_client) (wo_srv demo_world)
      = (([one_torrent ''a''], True), [])" by (simp add: ask_stub_def demo_world_def)
  moreover have "sa_UpdateTorrentStatus ask_stub di ti s = (True, s @ [ti])" for di ti s
    by (simp add: ask_stub_def demo_stub_def)
  ultimately show ?thesis
    using status_reports [of demo_client demo_world demo_engine ask_stub _ _ _ demo_lt demo_dirs "''f''" "Inr ''u''"]
    by (fastforce simp: one_torrent_def report_of_def ConvertTorrentInfo_def)
qed

section \<open>Downloads that fail\<close>

text \<open>When the link the server sent does not parse, the torrent is filed as \<open>DOWNLOADING_ERROR\<close>, the
  exception goes no further, and one report is sent at once; but it repeats the message the server sent, not
  the error status the registry now holds.\<close>

lemma bad_link_reported:
  assumes "g_stub g" and "wo_rpc w" and "wo_torrent w = Some t" and "engine_ok t"
    and "lt_parse_magnet lt (ri_link ti) = Inl msg"
  shows "\<exists>t1 i. cb_DownloadTorrent (controller_cb lt ds fresh uuid) (UpdateTorrentStatus (world_stub srv) g) ti w
      = (Ret (), w\<lparr>wo_torrent := Some t1, wo_srv := snd (sa_UpdateTorrentStatus srv (GetClientInfo g) ti (wo_srv w))\<rparr>)
    \<and> view (t_mgr t1) (ri_id ti) = Some i \<and> tStatus i = DOWNLOADING_ERROR
    \<and> ri_status (report_of t1 (ri_id ti)) = RS_ERROR"
proof -
  obtain t1 i where t1: "DownloadAsync lt ds fresh (ri_id ti) (ri_link ti) t
      = (Throw (Runtime_Error (''Invalid magnet URI: '' @ msg)), t1)"
    "view (t_mgr t1) (ri_id ti) = Some i" "tStatus i = DOWNLOADING_ERROR"
    using DownloadAsync_bad_link [OF assms(4,5)] by blast
  with assms(1-3) show ?thesis
    by (intro exI [of _ t1] exI [of _ i])
      (simp add: controller_cb_def DownloadTorrent_def UpdateTorrentStatus_def world_stub_def on_srv_def split_def Let_def
        report_of_def ConvertTorrentInfo_def)
qed

section \<open>Stopping\<close>

text \<open>Stopping the controller with work queued crashes it: the engine's pointer is released first, and the
  worker then runs what is queued; a request to generate, to download or to report any torrent dereferences
  the null pointer.\<close>

lemma Controller_Stop_crashes:
  assumes "g_stub g" and "w_pc (g_worker g) = WLoop" and "queueMessages (w_queue (g_worker g)) = Some x # q"
    and "x = GENERATE_MAGENT \<and> sa_GetInfoForGenerateTorrents srv (GetClientInfo g) (wo_srv w) = ((ti # tis, ok), s1)
      \<or> x = DOWNLOAD_TORRENT \<and> sa_GetTorrentsForDownload srv (GetClientInfo g) (wo_srv w) = ((ti # tis, ok), s1)
      \<or> x = UPDATE_TORRENT_STATUS \<and> sa_GetTorrentsForUpdateStatus srv (GetClientInfo g) (wo_srv w) = ((ti # tis, ok), s1)"
  shows "\<exists>s. g_run srt (world_stub srv) (controller_cb lt ds fresh uuid) [GWork, GWork, GWork] (Controller_Stop (g, w))
    = Some (Undefined, s)"
proof -
  let ?api = "world_stub srv" and ?cb = "controller_cb lt ds fresh uuid"
  let ?w = "w\<lparr>wo_torrent := None, wo_rpc := False\<rparr>"
  have crash: "\<exists>s. run_body ?api ?cb x (h, ?w) = (Undefined, s)" if "g_stub h" "GetClientInfo h = GetClientInfo g" for h
    using that assms(4)
    by (auto simp: CreateTorrentTask_def DownloadTorrentTask_def UpdateTorrentTask_def world_stub_def on_srv_def
        controller_cb_def GenerateTorrents_def DownloadTorrents_def GenerateTorrent_def DownloadTorrent_def UpdateTorrentInfo_def)
  define t where "t = Stop (g_worker g)"
  have t: "w_pc t = WLoop" "\<not> w_isRunning t" "queueMessages (w_queue t) = Some x # (q @ [None])"
    using assms(2,3) by (simp_all add: t_def Stop_def Let_def Push_def)
  obtain t3 where t3: "worker_steps t t3" "w_log t3 = w_log t @ [x]"
    using Stop_next [OF t] by blast
  obtain s where "run_body ?api ?cb x (g\<lparr>g_worker := t3\<rparr>, ?w) = (Undefined, s)"
    using crash [of "g\<lparr>g_worker := t3\<rparr>"] assms(1) by (auto simp: GetClientInfo_def)
  then have "g_run srt ?api ?cb [GWork, GWork, GWork] (g\<lparr>g_worker := t\<rparr>, ?w) = Some (Undefined, s)"
    using t3 by (auto simp: worker_steps_def Client_work_def)
  then show ?thesis by (auto simp: Controller_Stop_def t_def)
qed

end
