(* ===== verification/Lock_Programs.thy ===== *)
theory Lock_Programs
  imports Prelude "HOL-Library.Multiset"
begin

text \<open>
  Threads with recursive mutexes. A program is a tree of the operations on mutexes and of the reads and writes of
  the shared state between them; a system has one program for each thread, and one step is the first operation
  of one of them. Programs that take mutexes in one order never block each other for good, and programs that do
  all their work under one mutex behave as if they ran one after the other.
\<close>

section \<open>Recursive mutexes\<close>

record 'o rmutex =
  mx_owner :: "'o option"
  mx_count :: nat

definition mx_free :: "'o rmutex" where
  "mx_free = \<lparr>mx_owner = None, mx_count = 0\<rparr>"

text \<open>\<^verbatim>\<open>std::recursive_mutex\<close>: \<open>None\<close> where \<^verbatim>\<open>lock\<close> blocks.\<close>

definition mx_lock :: "'o \<Rightarrow> 'o rmutex \<Rightarrow> 'o rmutex option" where
  "mx_lock t m =
     (case mx_owner m of
        None \<Rightarrow> Some \<lparr>mx_owner = Some t, mx_count = 1\<rparr>
      | Some u \<Rightarrow> if u = t then Some (m\<lparr>mx_count := Suc (mx_count m)\<rparr>) else None)"

definition mx_unlock :: "'o rmutex \<Rightarrow> 'o rmutex" where
  "mx_unlock m = (if mx_count m \<le> 1 then mx_free else m\<lparr>mx_count := mx_count m - 1\<rparr>)"

section \<open>Programs\<close>

datatype ('m, 's, 'r) prog =
    Return 'r
  | Lock 'm "('m, 's, 'r) prog"
  | Unlock 'm "('m, 's, 'r) prog"
  | Read "'s \<Rightarrow> ('m, 's, 'r) prog"
  | Write "'s \<Rightarrow> 's" "('m, 's, 'r) prog"

primrec bind :: "('m, 's, 'a) prog \<Rightarrow> ('a \<Rightarrow> ('m, 's, 'b) prog) \<Rightarrow> ('m, 's, 'b) prog" where
  "bind (Return r) f = f r"
| "bind (Lock m p) f = Lock m (bind p f)"
| "bind (Unlock m p) f = Unlock m (bind p f)"
| "bind (Read q) f = Read (\<lambda>s. bind (q s) f)"
| "bind (Write g p) f = Write g (bind p f)"

text \<open>A block with a \<^verbatim>\<open>lock_guard\<close>, and a loop over a list.\<close>

definition locked :: "'m \<Rightarrow> ('m, 's, 'a) prog \<Rightarrow> ('m, 's, 'a) prog" where
  "locked m p = Lock m (bind p (\<lambda>r. Unlock m (Return r)))"

primrec each :: "('a \<Rightarrow> ('m, 's, unit) prog) \<Rightarrow> 'a list \<Rightarrow> ('m, 's, unit) prog" where
  "each f [] = Return ()"
| "each f (x # xs) = bind (f x) (\<lambda>_. each f xs)"

text \<open>The result and the state of a program that runs without others.\<close>

primrec alone :: "('m, 's, 'r) prog \<Rightarrow> 's \<Rightarrow> 'r \<times> 's" where
  "alone (Return r) s = (r, s)"
| "alone (Lock m p) s = alone p s"
| "alone (Unlock m p) s = alone p s"
| "alone (Read q) s = alone (q s) s"
| "alone (Write g p) s = alone p (g s)"

lemma alone_bind [simp]: "alone (bind p f) s = (case alone p s of (r, s1) \<Rightarrow> alone (f r) s1)"
  by (induction p arbitrary: s) auto

lemma alone_locked [simp]: "alone (locked m p) s = alone p s"
  by (simp add: locked_def split: prod.split)

lemma alone_each [simp]: "alone (each f xs) s = ((), fold (\<lambda>x s. snd (alone (f x) s)) xs s)"
  by (induction xs arbitrary: s) (auto split: prod.split)

lemma bind_assoc: "bind (bind p f) g = bind p (\<lambda>r. bind (f r) g)"
  by (induction p) auto

section \<open>Systems\<close>

record ('m, 's, 'r) locks =
  lk_state :: 's
  lk_mutex :: "'m \<Rightarrow> nat rmutex"
  lk_threads :: "('m, 's, 'r) prog list"

definition lk_start :: "('m, 's, 'r) prog list \<Rightarrow> 's \<Rightarrow> ('m, 's, 'r) locks" where
  "lk_start ps s = \<lparr>lk_state = s, lk_mutex = (\<lambda>_. mx_free), lk_threads = ps\<rparr>"

text \<open>One step of thread \<open>i\<close>; \<open>None\<close> where it has ended or waits for a mutex.\<close>

fun prog_step :: "nat \<Rightarrow> ('m, 's, 'r) prog \<Rightarrow> ('m \<Rightarrow> nat rmutex) \<times> 's \<Rightarrow> (('m, 's, 'r) prog \<times> ('m \<Rightarrow> nat rmutex) \<times> 's) option" where
  "prog_step i (Return r) (mx, s) = None"
| "prog_step i (Lock m p) (mx, s) = map_option (\<lambda>k. (p, mx(m := k), s)) (mx_lock i (mx m))"
| "prog_step i (Unlock m p) (mx, s) = Some (p, mx(m := mx_unlock (mx m)), s)"
| "prog_step i (Read q) (mx, s) = Some (q s, mx, s)"
| "prog_step i (Write g p) (mx, s) = Some (p, mx, g s)"

definition lk_step :: "nat \<Rightarrow> ('m, 's, 'r) locks \<Rightarrow> ('m, 's, 'r) locks option" where
  "lk_step i k =
     (if i < length (lk_threads k)
      then map_option (\<lambda>(p, mx, s). \<lparr>lk_state = s, lk_mutex = mx, lk_threads = (lk_threads k)[i := p]\<rparr>)
             (prog_step i (lk_threads k ! i) (lk_mutex k, lk_state k))
      else None)"

fun lk_run :: "nat list \<Rightarrow> ('m, 's, 'r) locks \<Rightarrow> ('m, 's, 'r) locks option" where
  "lk_run [] k = Some k"
| "lk_run (i # is1) k = (case lk_step i k of None \<Rightarrow> None | Some k1 \<Rightarrow> lk_run is1 k1)"

lemma lk_run_append: "lk_run (xs @ ys) k = (case lk_run xs k of None \<Rightarrow> None | Some k1 \<Rightarrow> lk_run ys k1)"
  by (induction xs arbitrary: k) (auto split: option.split)

lemma lk_run_invariant:
  assumes "lk_run is1 k = Some k1" and "I k" and "\<And>i k k1. I k \<Longrightarrow> lk_step i k = Some k1 \<Longrightarrow> I k1"
  shows "I k1"
  using assms(1,2) by (induction is1 arbitrary: k) (auto dest: assms(3) split: option.splits)

text \<open>Every run ends: a step replaces a program by a part of it.\<close>

inductive_set part :: "(('m, 's, 'r) prog \<times> ('m, 's, 'r) prog) set" where
  "(p, Lock m p) \<in> part"
| "(p, Unlock m p) \<in> part"
| "(q s, Read q) \<in> part"
| "(p, Write g p) \<in> part"

inductive_cases part_cases: "(q, Return r) \<in> part" "(q, Lock m p) \<in> part" "(q, Unlock m p) \<in> part" "(q, Read f) \<in> part"
  "(q, Write g p) \<in> part"

lemma wf_part: "wf (part :: (('m, 's, 'r) prog \<times> ('m, 's, 'r) prog) set)"
proof (rule wfUNIVI)
  fix P :: "('m, 's, 'r) prog \<Rightarrow> bool" and p :: "('m, 's, 'r) prog"
  assume step: "\<forall>x. (\<forall>y. (y, x) \<in> part \<longrightarrow> P y) \<longrightarrow> P x"
  show "P p"
    by (induction p; rule step [rule_format]) (auto elim: part_cases)
qed

lemma prog_step_part: "prog_step i p (mx, s) = Some (p1, mx1, s1) \<Longrightarrow> (p1, p) \<in> part"
  by (cases p) (auto intro: part.intros)

lemma lk_step_threads:
  assumes "lk_step i k = Some k1"
  shows "i < length (lk_threads k)
    \<and> (\<exists>p. lk_threads k1 = (lk_threads k)[i := p] \<and> prog_step i (lk_threads k ! i) (lk_mutex k, lk_state k) = Some (p, lk_mutex k1, lk_state k1))"
  using assms by (auto simp: lk_step_def split: if_splits)

lemma lk_step_less:
  assumes "lk_step i k = Some k1"
  shows "(mset (lk_threads k1), mset (lk_threads k)) \<in> mult part"
proof -
  from lk_step_threads [OF assms] obtain p where i: "i < length (lk_threads k)" "lk_threads k1 = (lk_threads k)[i := p]"
    "prog_step i (lk_threads k ! i) (lk_mutex k, lk_state k) = Some (p, lk_mutex k1, lk_state k1)" by blast
  let ?M = "mset (lk_threads k) - {#lk_threads k ! i#}"
  have "mset (lk_threads k1) = ?M + {#p#}" using i by (simp add: mset_update)
  moreover have "mset (lk_threads k) = ?M + {#lk_threads k ! i#}" using i(1) by simp
  moreover have "(?M + {#p#}, ?M + {#lk_threads k ! i#}) \<in> mult part"
    using prog_step_part [OF i(3)] by (intro one_step_implies_mult) auto
  ultimately show ?thesis by simp
qed

lemma runs_end: "wf {(k1, k). \<exists>i. lk_step i k = Some k1}"
proof (rule wf_subset)
  show "wf (inv_image (mult part) (\<lambda>k. mset (lk_threads k)))" by (intro wf_inv_image wf_mult wf_part)
qed (use lk_step_less in \<open>auto simp: inv_image_def\<close>)

lemma run_to_end: "\<exists>ls k1. lk_run ls k = Some k1 \<and> (\<forall>i. lk_step i k1 = None)"
proof (induction k rule: wf_induct_rule [OF runs_end])
  case (1 k)
  show ?case
  proof (cases "\<forall>i. lk_step i k = None")
    case True
    then show ?thesis by (intro exI [of _ "[]"]) simp
  next
    case False
    then obtain i k1 where step: "lk_step i k = Some k1" by auto
    with 1 [of k1] obtain ls k2 where "lk_run ls k1 = Some k2" "\<forall>i. lk_step i k2 = None" by auto
    with step show ?thesis by (intro exI [of _ "i # ls"]) simp
  qed
qed

section \<open>Programs that take mutexes in one order\<close>

text \<open>
  \<open>ordered rank p h h1\<close>: \<open>p\<close> starts with the mutexes \<open>h\<close> (how often it holds each), ends with \<open>h1\<close>, gives back only
  what it holds, and waits only for mutexes above all those it holds.
\<close>

primrec ordered :: "('m \<Rightarrow> nat) \<Rightarrow> ('m, 's, 'r) prog \<Rightarrow> ('m \<Rightarrow> nat) \<Rightarrow> ('m \<Rightarrow> nat) \<Rightarrow> bool" where
  "ordered rank (Return r) h h1 \<longleftrightarrow> h = h1"
| "ordered rank (Lock m p) h h1 \<longleftrightarrow> (0 < h m \<or> (\<forall>k. 0 < h k \<longrightarrow> rank k < rank m)) \<and> ordered rank p (h(m := Suc (h m))) h1"
| "ordered rank (Unlock m p) h h1 \<longleftrightarrow> 0 < h m \<and> ordered rank p (h(m := h m - 1)) h1"
| "ordered rank (Read q) h h1 \<longleftrightarrow> (\<forall>s. ordered rank (q s) h h1)"
| "ordered rank (Write g p) h h1 \<longleftrightarrow> ordered rank p h h1"

lemma ordered_bind:
  "ordered rank p h h1 \<Longrightarrow> (\<And>r. ordered rank (f r) h1 h2) \<Longrightarrow> ordered rank (bind p f) h h2"
  by (induction p arbitrary: h) auto

lemma ordered_locked:
  assumes "0 < h m \<or> (\<forall>k. 0 < h k \<longrightarrow> rank k < rank m)" and "ordered rank p (h(m := Suc (h m))) (h(m := Suc (h m)))"
  shows "ordered rank (locked m p) h h"
  using assms by (simp add: locked_def ordered_bind)

lemma ordered_each: "(\<And>x. ordered rank (f x) h h) \<Longrightarrow> ordered rank (each f xs) h h"
  by (induction xs) (auto intro: ordered_bind)

definition holds :: "('m, 's, 'r) locks \<Rightarrow> nat \<Rightarrow> 'm \<Rightarrow> nat" where
  "holds k i m = (if mx_owner (lk_mutex k m) = Some i then mx_count (lk_mutex k m) else 0)"

lemma holds_cong: "lk_mutex k1 = lk_mutex k \<Longrightarrow> holds k1 = holds k"
  by (simp add: holds_def fun_eq_iff)

definition well_ordered :: "('m \<Rightarrow> nat) \<Rightarrow> ('m, 's, 'r) locks \<Rightarrow> bool" where
  "well_ordered rank k \<longleftrightarrow>
     (\<forall>i<length (lk_threads k). ordered rank (lk_threads k ! i) (holds k i) (\<lambda>_. 0))
     \<and> (\<forall>m j. mx_owner (lk_mutex k m) = Some j \<longrightarrow> j < length (lk_threads k) \<and> 0 < mx_count (lk_mutex k m))"

lemma mx_lock_holds:
  assumes "mx_lock i (lk_mutex k m) = Some mx" and "\<And>j. mx_owner (lk_mutex k m) = Some j \<Longrightarrow> 0 < mx_count (lk_mutex k m)"
  shows "mx_owner mx = Some i \<and> mx_count mx = Suc (holds k i m) \<and> (\<forall>j. j \<noteq> i \<longrightarrow> holds k j m = 0)"
  using assms by (auto simp: mx_lock_def holds_def split: option.splits if_splits)

lemma mx_unlock_holds:
  assumes "0 < holds k i m"
  shows "(if mx_owner (mx_unlock (lk_mutex k m)) = Some j then mx_count (mx_unlock (lk_mutex k m)) else 0)
      = (if j = i then holds k i m - 1 else holds k j m)"
    and "mx_owner (mx_unlock (lk_mutex k m)) = Some j \<Longrightarrow> j = i \<and> 0 < mx_count (mx_unlock (lk_mutex k m))"
  using assms by (auto simp: mx_unlock_def mx_free_def holds_def split: if_splits)

lemma well_ordered_step:
  assumes ok: "well_ordered rank k" and "lk_step i k = Some k1"
  shows "well_ordered rank k1"
proof -
  from lk_step_threads [OF assms(2)] obtain p where i: "i < length (lk_threads k)" "lk_threads k1 = (lk_threads k)[i := p]"
    "prog_step i (lk_threads k ! i) (lk_mutex k, lk_state k) = Some (p, lk_mutex k1, lk_state k1)" by blast
  have ord: "\<And>j. j < length (lk_threads k) \<Longrightarrow> ordered rank (lk_threads k ! j) (holds k j) (\<lambda>_. 0)"
    and own: "\<And>m j. mx_owner (lk_mutex k m) = Some j \<Longrightarrow> j < length (lk_threads k) \<and> 0 < mx_count (lk_mutex k m)"
    using ok by (auto simp: well_ordered_def)
  have next_state: ?thesis
    if "ordered rank p (holds k1 i) (\<lambda>_. 0)" "\<And>j. j \<noteq> i \<Longrightarrow> holds k1 j = holds k j"
      "\<And>m j. mx_owner (lk_mutex k1 m) = Some j \<Longrightarrow> j < length (lk_threads k) \<and> 0 < mx_count (lk_mutex k1 m)"
    using that i(1,2) ord by (auto simp: well_ordered_def nth_list_update)
  have same: ?thesis if "lk_mutex k1 = lk_mutex k" "ordered rank p (holds k i) (\<lambda>_. 0)"
    using that own holds_cong [OF that(1)] by (intro next_state) simp_all
  note here = ord [OF i(1)]
  show ?thesis
  proof (cases "lk_threads k ! i")
    case (Lock m q)
    then obtain mx where mx: "mx_lock i (lk_mutex k m) = Some mx" "p = q" "lk_mutex k1 = (lk_mutex k)(m := mx)" using i(3) by auto
    note h = mx_lock_holds [OF mx(1)] 
    have h: "mx_owner mx = Some i" "mx_count mx = Suc (holds k i m)" "\<And>j. j \<noteq> i \<Longrightarrow> holds k j m = 0" using h own by auto
    have "holds k1 i = (holds k i)(m := Suc (holds k i m))" using mx(3) h(1,2) by (auto simp: holds_def fun_eq_iff)
    moreover have "holds k1 j = holds k j" if "j \<noteq> i" for j
      using h(3) [OF that] that mx(3) h(1) by (auto simp: holds_def fun_eq_iff)
    ultimately show ?thesis using here Lock mx(2,3) h(1,2) own i(1) by (intro next_state) (auto split: if_splits)
  next
    case (Unlock m q)
    then have p: "p = q" "lk_mutex k1 = (lk_mutex k)(m := mx_unlock (lk_mutex k m))" using i(3) by auto
    have pos: "0 < holds k i m" and rest: "ordered rank q ((holds k i)(m := holds k i m - 1)) (\<lambda>_. 0)" using here Unlock by auto
    note u = mx_unlock_holds [OF pos]
    have "holds k1 j = (if j = i then (holds k i)(m := holds k i m - 1) else holds k j)" for j
      using u(1) [of j] p(2) by (auto simp: holds_def [of k1] fun_eq_iff) (simp_all add: holds_def)
    with rest p own i(1) u(2) show ?thesis by (intro next_state) (auto split: if_splits)
  qed (use here i(3) same in auto)
qed

text \<open>In a state where no thread can move, all have ended: of the mutexes waited for take the highest; its owner
  would wait for a higher one.\<close>

lemma stuck_done:
  assumes ok: "well_ordered rank k" and stuck: "\<And>i. lk_step i k = None" and "i < length (lk_threads k)"
  shows "\<exists>r. lk_threads k ! i = Return r"
proof (rule ccontr)
  assume not_done: "\<nexists>r. lk_threads k ! i = Return r"
  let ?W = "\<lambda>m. \<exists>j p. j < length (lk_threads k) \<and> lk_threads k ! j = Lock m p"
  have waits: "\<exists>m p. lk_threads k ! j = Lock m p \<and> mx_owner (lk_mutex k m) \<noteq> None \<and> mx_owner (lk_mutex k m) \<noteq> Some j"
    if "j < length (lk_threads k)" "\<nexists>r. lk_threads k ! j = Return r" for j
    using stuck [of j] that by (cases "lk_threads k ! j") (auto simp: lk_step_def mx_lock_def split: option.splits if_splits)
  have higher: "\<exists>m1. ?W m1 \<and> rank m < rank m1" if w: "?W m" for m
  proof -
    obtain j p where j: "j < length (lk_threads k)" "lk_threads k ! j = Lock m p" using w by blast
    then obtain o1 where o1: "mx_owner (lk_mutex k m) = Some o1" "o1 \<noteq> j" using waits [of j] by fastforce
    with ok have n: "o1 < length (lk_threads k)" "0 < holds k o1 m" by (auto simp: well_ordered_def holds_def)
    then have ord: "ordered rank (lk_threads k ! o1) (holds k o1) (\<lambda>_. 0)" using ok by (simp add: well_ordered_def)
    with n(2) have "\<nexists>r. lk_threads k ! o1 = Return r" by auto
    then obtain m1 p1 where m1: "lk_threads k ! o1 = Lock m1 p1" "mx_owner (lk_mutex k m1) \<noteq> Some o1" using waits [OF n(1)] by blast
    then have "holds k o1 m1 = 0" by (simp add: holds_def)
    with ord m1(1) n show ?thesis by fastforce
  qed
  let ?R = "{rank m | m. ?W m}"
  have "?R \<subseteq> (\<lambda>j. case lk_threads k ! j of Lock m p \<Rightarrow> rank m | _ \<Rightarrow> 0) ` {..<length (lk_threads k)}" by force
  then have "finite ?R" by (rule finite_subset) simp
  moreover have "?R \<noteq> {}" using waits [OF assms(3) not_done] assms(3) by blast
  ultimately have "Max ?R \<in> ?R" by (rule Max_in)
  then obtain m where m: "?W m" "rank m = Max ?R" by force
  from higher [OF m(1)] obtain m1 where "?W m1" "rank m < rank m1" by blast
  then have "rank m1 \<le> Max ?R" using \<open>finite ?R\<close> by (intro Max_ge) blast+
  with \<open>rank m < rank m1\<close> m(2) show False by simp
qed

lemma well_ordered_start:
  assumes "list_all (\<lambda>p. ordered rank p (\<lambda>_. 0) (\<lambda>_. 0)) ps"
  shows "well_ordered rank (lk_start ps s)"
proof -
  have "holds (lk_start ps s) i = (\<lambda>_. 0)" for i by (simp add: lk_start_def mx_free_def holds_def fun_eq_iff)
  with assms show ?thesis by (simp add: well_ordered_def lk_start_def mx_free_def list_all_length)
qed

lemma no_deadlock:
  assumes "list_all (\<lambda>p. ordered rank p (\<lambda>_. 0) (\<lambda>_. 0)) ps" and "lk_run is1 (lk_start ps s) = Some k"
    and "\<And>i. lk_step i k = None" and "i < length (lk_threads k)"
  shows "\<exists>r. lk_threads k ! i = Return r"
proof (rule stuck_done)
  show "well_ordered rank k"
    by (rule lk_run_invariant [OF assms(2), of "well_ordered rank"]) (blast intro: well_ordered_start assms(1) well_ordered_step)+
qed (use assms(3,4) in auto)

section \<open>Programs under one mutex\<close>

text \<open>
  \<open>inside M p n\<close>: with \<open>M\<close> taken \<open>n\<close> times, \<open>p\<close> never gives it back for good and ends with \<open>M\<close> taken once.
\<close>

primrec inside :: "'m \<Rightarrow> ('m, 's, 'r) prog \<Rightarrow> nat \<Rightarrow> nat \<Rightarrow> bool" where
  "inside M (Return r) n n1 \<longleftrightarrow> n = n1"
| "inside M (Lock m p) n n1 \<longleftrightarrow> inside M p (if m = M then Suc n else n) n1"
| "inside M (Unlock m p) n n1 \<longleftrightarrow> (m = M \<longrightarrow> 1 < n) \<and> inside M p (if m = M then n - 1 else n) n1"
| "inside M (Read q) n n1 \<longleftrightarrow> (\<forall>s. inside M (q s) n n1)"
| "inside M (Write g p) n n1 \<longleftrightarrow> inside M p n n1"

lemma inside_bind: "inside M p n n1 \<Longrightarrow> (\<And>r. inside M (f r) n1 n2) \<Longrightarrow> inside M (bind p f) n n2"
  by (induction p arbitrary: n) auto

lemma inside_locked:
  "0 < n \<Longrightarrow> inside M p (if m = M then Suc n else n) (if m = M then Suc n else n) \<Longrightarrow> inside M (locked m p) n n"
  by (auto simp: locked_def intro: inside_bind split: if_splits)

lemma inside_each: "(\<And>x. inside M (f x) n n) \<Longrightarrow> inside M (each f xs) n n"
  by (induction xs) (auto intro: inside_bind)

definition critical :: "'m \<Rightarrow> ('m, 's, 'r) prog \<Rightarrow> bool" where
  "critical M p \<longleftrightarrow> (\<exists>q. p = locked M q \<and> inside M q 1 1)"

lemma criticalI: "inside M q 1 1 \<Longrightarrow> critical M (locked M q)"
  unfolding critical_def by blast

text \<open>A thread that runs several programs in turn and keeps their results.\<close>

primrec in_turn :: "'r list \<Rightarrow> ('m, 's, 'r) prog list \<Rightarrow> ('m, 's, 'r list) prog" where
  "in_turn acc [] = Return acc"
| "in_turn acc (p # ps) = bind p (\<lambda>r. in_turn (acc @ [r]) ps)"

lemma ordered_in_turn:
  "list_all (\<lambda>p. ordered rank p h h) ps \<Longrightarrow> ordered rank (in_turn acc ps) h h"
  by (induction ps arbitrary: acc) (auto intro: ordered_bind)

lemma bind_locked [simp]: "bind (locked M q) f = Lock M (bind q (\<lambda>r. Unlock M (f r)))"
  by (simp add: locked_def bind_assoc)

text \<open>
  The same threads one program at a time: the results so far, the programs that are left, and the state. A turn of
  thread \<open>i\<close> runs its next program.
\<close>

type_synonym ('m, 's, 'r) rounds = "'r list list \<times> ('m, 's, 'r) prog list list \<times> 's"

fun turn :: "nat \<Rightarrow> ('m, 's, 'r) rounds \<Rightarrow> ('m, 's, 'r) rounds" where
  "turn i (rs, pss, s) =
     (if i < length pss
      then (case pss ! i of
              [] \<Rightarrow> (rs, pss, s)
            | p # ps \<Rightarrow> (let (r, s1) = alone p s in (rs[i := rs ! i @ [r]], pss[i := ps], s1)))
      else (rs, pss, s))"

lemma turns_length: "length (fst (snd (fold turn xs c))) = length (fst (snd c))"
proof (induction xs arbitrary: c)
  case (Cons i xs)
  have "length (fst (snd (turn i c))) = length (fst (snd c))" by (cases c) (simp add: split_def Let_def split: list.split)
  with Cons show ?case by simp
qed simp

text \<open>
  How the system with mutexes goes along with it: a thread that does not own \<open>M\<close> is between two programs, and the one
  that owns it has come to \<open>q\<close>, from where it does what all of its program does from the state of the rounds.
\<close>

definition along :: "'m \<Rightarrow> ('m, 's, 'r) rounds \<Rightarrow> ('m, 's, 'r list) locks \<Rightarrow> bool" where
  "along M c k \<longleftrightarrow> (case c of (rs, pss, s) \<Rightarrow>
     length rs = length pss \<and> length (lk_threads k) = length pss \<and> list_all (list_all (critical M)) pss
     \<and> (\<forall>i<length pss. mx_owner (lk_mutex k M) \<noteq> Some i \<longrightarrow> lk_threads k ! i = in_turn (rs ! i) (pss ! i))
     \<and> (case mx_owner (lk_mutex k M) of
          None \<Rightarrow> lk_state k = s
        | Some j \<Rightarrow> j < length pss \<and> (\<exists>p ps q. pss ! j = p # ps
            \<and> lk_threads k ! j = bind q (\<lambda>r. Unlock M (in_turn (rs ! j @ [r]) ps))
            \<and> inside M q (mx_count (lk_mutex k M)) 1 \<and> alone q (lk_state k) = alone p s)))"

lemma along_start:
  assumes "list_all (list_all (critical M)) pss"
  shows "along M (map (\<lambda>_. []) pss, pss, s) (lk_start (map (in_turn []) pss) s)"
  using assms by (simp add: along_def lk_start_def mx_free_def)

lemma along_next: "along M (rs, pss, s) k \<Longrightarrow> i < length pss \<Longrightarrow> pss ! i = p # ps \<Longrightarrow> critical M p"
  by (fastforce simp: along_def list_all_iff dest: nth_mem)

lemma upd_eq: "f(a := b) = g \<longleftrightarrow> g a = b \<and> (\<forall>x. x \<noteq> a \<longrightarrow> g x = f x)"
  by (auto simp: fun_eq_iff)

lemma along_enter:
  assumes "along M (rs, pss, s) k" and "lk_step i k = Some k1" and "mx_owner (lk_mutex k M) \<noteq> Some i"
  shows "along M (rs, pss, s) k1"
proof -
  from lk_step_threads [OF assms(2)] obtain p where i: "i < length (lk_threads k)" "lk_threads k1 = (lk_threads k)[i := p]"
    "prog_step i (lk_threads k ! i) (lk_mutex k, lk_state k) = Some (p, lk_mutex k1, lk_state k1)" by blast
  have n: "i < length pss" "lk_threads k ! i = in_turn (rs ! i) (pss ! i)" using assms(1,3) i(1) by (auto simp: along_def)
  with i(3) obtain p0 ps where ps: "pss ! i = p0 # ps" by (cases "pss ! i") auto
  obtain q where q: "p0 = locked M q" "inside M q 1 1"
    using along_next [OF assms(1) n(1) ps] by (auto simp: critical_def)
  with i(3) n(2) ps have step: "p = bind q (\<lambda>r. Unlock M (in_turn (rs ! i @ [r]) ps))" "lk_state k1 = lk_state k"
    "\<exists>mx. mx_lock i (lk_mutex k M) = Some mx \<and> lk_mutex k1 = (lk_mutex k)(M := mx)" by auto
  then have free: "mx_owner (lk_mutex k M) = None" and taken: "mx_owner (lk_mutex k1 M) = Some i" "mx_count (lk_mutex k1 M) = 1"
    using assms(3) by (auto simp: mx_lock_def split: option.splits if_splits)
  have "lk_threads k1 ! i = bind q (\<lambda>r. Unlock M (in_turn (rs ! i @ [r]) ps))" using i(1,2) step(1) by simp
  moreover have "lk_threads k1 ! j = lk_threads k ! j" if "j \<noteq> i" for j using i(2) that by simp
  moreover have "alone q (lk_state k1) = alone p0 s" using assms(1) free q(1) step(2) by (simp add: along_def)
  ultimately show ?thesis using assms(1) free taken q(2) i(2) n(1) ps by (auto simp: along_def)
qed

lemma along_work:
  assumes "along M (rs, pss, s) k" and "lk_step i k = Some k1" and "mx_owner (lk_mutex k M) = Some i"
    and "pss ! i = p0 # ps" and "lk_threads k ! i = bind q (\<lambda>r. Unlock M (in_turn (rs ! i @ [r]) ps))"
    and "inside M q (mx_count (lk_mutex k M)) 1" and "alone q (lk_state k) = alone p0 s" and "\<nexists>r. q = Return r"
  shows "along M (rs, pss, s) k1"
proof -
  from lk_step_threads [OF assms(2)] obtain p where i: "i < length (lk_threads k)" "lk_threads k1 = (lk_threads k)[i := p]"
    "prog_step i (lk_threads k ! i) (lk_mutex k, lk_state k) = Some (p, lk_mutex k1, lk_state k1)" by blast
  have "\<exists>q1. p = bind q1 (\<lambda>r. Unlock M (in_turn (rs ! i @ [r]) ps)) \<and> inside M q1 (mx_count (lk_mutex k1 M)) 1
      \<and> alone q1 (lk_state k1) = alone q (lk_state k) \<and> mx_owner (lk_mutex k1 M) = Some i"
    using i(3) assms(3,5,6,8) by (cases q)
      (auto simp: mx_lock_def mx_unlock_def upd_eq split: option.splits if_splits dest!: sym [of _ "lk_mutex k1 M"])
  then obtain q1 where q1: "p = bind q1 (\<lambda>r. Unlock M (in_turn (rs ! i @ [r]) ps))" "inside M q1 (mx_count (lk_mutex k1 M)) 1"
    "alone q1 (lk_state k1) = alone p0 s" "mx_owner (lk_mutex k1 M) = Some i"
    using assms(7) by auto
  have "lk_threads k1 ! i = bind q1 (\<lambda>r. Unlock M (in_turn (rs ! i @ [r]) ps))" using i(1,2) q1(1) by simp
  moreover have "lk_threads k1 ! j = lk_threads k ! j" if "j \<noteq> i" for j using i(2) that by simp
  ultimately show ?thesis using assms(1,3,4) q1(2,3,4) i(2) by (auto simp: along_def)
qed

lemma along_leave:
  assumes "along M (rs, pss, s) k" and "lk_step i k = Some k1" and "mx_owner (lk_mutex k M) = Some i"
    and "pss ! i = p0 # ps" and "lk_threads k ! i = Unlock M (in_turn (rs ! i @ [r]) ps)"
    and "mx_count (lk_mutex k M) = 1" and "alone p0 s = (r, lk_state k)"
  shows "along M (turn i (rs, pss, s)) k1"
proof -
  from lk_step_threads [OF assms(2)] obtain p where i: "i < length (lk_threads k)" "lk_threads k1 = (lk_threads k)[i := p]"
    "prog_step i (lk_threads k ! i) (lk_mutex k, lk_state k) = Some (p, lk_mutex k1, lk_state k1)" by blast
  then have p: "p = in_turn (rs ! i @ [r]) ps" "lk_state k1 = lk_state k" "mx_owner (lk_mutex k1 M) = None"
    using assms(5,6) by (auto simp: mx_unlock_def mx_free_def upd_eq)
  have n: "i < length pss" "length rs = length pss" using assms(1,3) by (simp_all add: along_def)
  have "turn i (rs, pss, s) = (rs[i := rs ! i @ [r]], pss[i := ps], lk_state k)" using n(1) assms(4,7) by simp
  moreover have "list_all (list_all (critical M)) (pss[i := ps])"
  proof -
    have all: "list_all (list_all (critical M)) pss" using assms(1) by (simp add: along_def)
    then have "list_all (critical M) (p0 # ps)" using n(1) assms(4) by (metis list_all_length)
    with all show ?thesis by (auto simp: list_all_iff dest!: subsetD [OF set_update_subset_insert])
  qed
  moreover have "lk_threads k1 ! j = lk_threads k ! j" if "j \<noteq> i" for j using i(2) that by simp
  moreover have "lk_threads k1 ! i = in_turn (rs ! i @ [r]) ps" using i(1,2) p(1) by simp
  ultimately show ?thesis using assms(1,3) p(2,3) n i(2) by (auto simp: along_def nth_list_update)
qed

lemma along_step:
  assumes "along M c k" and "lk_step i k = Some k1"
  shows "along M c k1 \<or> along M (turn i c) k1"
proof -
  obtain rs pss s where c: "c = (rs, pss, s)" by (cases c)
  note al = assms(1) [unfolded c]
  show ?thesis
  proof (cases "mx_owner (lk_mutex k M) = Some i")
    case True
    then obtain p ps q where q: "pss ! i = p # ps" "lk_threads k ! i = bind q (\<lambda>r. Unlock M (in_turn (rs ! i @ [r]) ps))"
      "inside M q (mx_count (lk_mutex k M)) 1" "alone q (lk_state k) = alone p s" using al by (auto simp: along_def)
    show ?thesis
    proof (cases "\<exists>r. q = Return r")
      case left: True
      then obtain r where "q = Return r" by blast
      with q have "lk_threads k ! i = Unlock M (in_turn (rs ! i @ [r]) ps)" "mx_count (lk_mutex k M) = 1"
        "alone p s = (r, lk_state k)" by simp_all
      from along_leave [OF al assms(2) True q(1) this] show ?thesis unfolding c ..
    next
      case False
      from along_work [OF al assms(2) True q False] show ?thesis unfolding c ..
    qed
  next
    case False
    from along_enter [OF al assms(2) False] show ?thesis unfolding c ..
  qed
qed

lemma along_run:
  assumes "list_all (list_all (critical M)) pss" and "lk_run is1 (lk_start (map (in_turn []) pss) s) = Some k"
  shows "\<exists>xs. along M (fold turn xs (map (\<lambda>_. []) pss, pss, s)) k"
proof (rule lk_run_invariant [OF assms(2), of "\<lambda>k. \<exists>xs. along M (fold turn xs (map (\<lambda>_. []) pss, pss, s)) k"])
  show "\<exists>xs. along M (fold turn xs (map (\<lambda>_. []) pss, pss, s)) (lk_start (map (in_turn []) pss) s)"
    using along_start [OF assms(1)] by (intro exI [of _ "[]"]) simp
  fix i and k k1 :: "('a, 'b, 'c list) locks"
  assume "\<exists>xs. along M (fold turn xs (map (\<lambda>_. []) pss, pss, s)) k" and step: "lk_step i k = Some k1"
  then obtain xs where "along M (fold turn xs (map (\<lambda>_. []) pss, pss, s)) k" by blast
  from along_step [OF this step] show "\<exists>xs. along M (fold turn xs (map (\<lambda>_. []) pss, pss, s)) k1"
  proof
    assume "along M (turn i (fold turn xs (map (\<lambda>_. []) pss, pss, s))) k1"
    then show ?thesis by (intro exI [of _ "xs @ [i]"]) simp
  qed blast
qed

text \<open>When all have ended, it is as if they had taken turns, a whole program at a time.\<close>

lemma runs_serially:
  assumes "list_all (list_all (critical M)) pss" and "lk_run is1 (lk_start (map (in_turn []) pss) s) = Some k"
    and "\<And>i. i < length (lk_threads k) \<Longrightarrow> \<exists>r. lk_threads k ! i = Return r"
  shows "\<exists>xs rs. fold turn xs (map (\<lambda>_. []) pss, pss, s) = (rs, map (\<lambda>_. []) pss, lk_state k) \<and> lk_threads k = map Return rs"
proof -
  obtain xs where xs: "along M (fold turn xs (map (\<lambda>_. []) pss, pss, s)) k" using along_run [OF assms(1,2)] by blast
  obtain rs qss t where c: "fold turn xs (map (\<lambda>_. []) pss, pss, s) = (rs, qss, t)" by (metis surj_pair)
  note al = xs [unfolded c]
  have len: "length qss = length pss" using turns_length [of xs "(map (\<lambda>_. []) pss, pss, s)"] c by simp
  have free: "mx_owner (lk_mutex k M) = None"
  proof (rule ccontr)
    assume "mx_owner (lk_mutex k M) \<noteq> None"
    then obtain j q ps where "j < length (lk_threads k)" "lk_threads k ! j = bind q (\<lambda>r. Unlock M (in_turn (rs ! j @ [r]) ps))"
      using al by (auto simp: along_def)
    with assms(3) [of j] show False by (cases q) auto
  qed
  have ended: "qss ! i = [] \<and> lk_threads k ! i = Return (rs ! i)" if "i < length qss" for i
  proof (cases "qss ! i")
    case Nil
    then show ?thesis using al free that by (simp add: along_def)
  next
    case (Cons p ps)
    then have "critical M p" using along_next [OF al that] by blast
    with Cons al free that assms(3) [of i] show ?thesis by (auto simp: along_def critical_def)
  qed
  have "qss = map (\<lambda>_. []) pss" using ended len by (intro nth_equalityI) auto
  moreover have "lk_threads k = map Return rs" using ended al by (intro nth_equalityI) (auto simp: along_def)
  moreover have "lk_state k = t" using al free by (simp add: along_def)
  ultimately show ?thesis using c by blast
qed

end
