(* ===== verification/Torrent_Threads.thy ===== *)
theory Torrent_Threads
  imports Torrent_Laws Lock_Programs
begin

text \<open>
  \<^verbatim>\<open>Torrent::Stop\<close> and the alert thread of \<^verbatim>\<open>Daemon/src/torrent.cpp\<close> at the level of their locks. One step
  is the code between two accesses to shared state; both mutexes are recursive (theory \<open>Lock_Programs\<close>). The caller of \<open>Stop\<close>
  holds \<^verbatim>\<open>workMtx\<close> from its first line to its return, and the alert thread takes the same mutex in
  \<open>IsWork\<close>, which is the condition of its loop.
\<close>

datatype tid = Caller | Alerts

datatype spc = S_Enter | S_Test | S_Read | S_Flag | S_Join | S_Free | S_List | S_Erase | S_Leave | S_Done

datatype hpc = H_None | H_Test | H_Read | H_Wait | H_Lock | H_Handle | H_Done

record 'ti threads =
  th_workMtx :: "tid rmutex"
  th_listMtx :: "tid rmutex"
  th_stop :: spc
  th_alerts :: hpc
  th_engine :: "'ti engine"

text \<open>\<open>Stop\<close>: \<open>S_Test\<close> and \<open>S_Read\<close> are the call of \<open>IsWork\<close>, which takes the mutex once more.\<close>

definition Stop_step :: "'ti threads \<Rightarrow> 'ti threads option" where
  "Stop_step s =
     (case th_stop s of
        S_Enter \<Rightarrow> map_option (\<lambda>m. s\<lparr>th_workMtx := m, th_stop := S_Test\<rparr>) (mx_lock Caller (th_workMtx s))
      | S_Test \<Rightarrow> map_option (\<lambda>m. s\<lparr>th_workMtx := m, th_stop := S_Read\<rparr>) (mx_lock Caller (th_workMtx s))
      | S_Read \<Rightarrow> Some (s\<lparr>th_workMtx := mx_unlock (th_workMtx s),
                          th_stop := (if IsWork (th_engine s) then S_Flag else S_Leave)\<rparr>)
      | S_Flag \<Rightarrow> Some (s\<lparr>th_engine := (th_engine s)\<lparr>t_isWork := False\<rparr>, th_stop := S_Join\<rparr>)
      | S_Join \<Rightarrow> if th_alerts s = H_None \<or> th_alerts s = H_Done then Some (s\<lparr>th_alerts := H_None, th_stop := S_Free\<rparr>)
                  else None
      | S_Free \<Rightarrow> Some (s\<lparr>th_engine := (th_engine s)\<lparr>t_session := False\<rparr>, th_stop := S_List\<rparr>)
      | S_List \<Rightarrow> map_option (\<lambda>m. s\<lparr>th_listMtx := m, th_stop := S_Erase\<rparr>) (mx_lock Caller (th_listMtx s))
      | S_Erase \<Rightarrow> Some (s\<lparr>th_engine := (th_engine s)\<lparr>t_list := []\<rparr>, th_listMtx := mx_unlock (th_listMtx s),
                           th_stop := S_Leave\<rparr>)
      | S_Leave \<Rightarrow> Some (s\<lparr>th_workMtx := mx_unlock (th_workMtx s), th_stop := S_Done\<rparr>)
      | S_Done \<Rightarrow> None)"

text \<open>
  The loop of \<open>HandlerAlerts\<close>. A wait that timed out is an empty batch; a batch is handled with the mutex of
  the list taken and given back by the functions it calls, here around the batch. A batch that throws ends
  the process, so it has no next step.
\<close>

definition Alerts_step ::
  "('en, 'ti) lt_api \<Rightarrow> dirs \<Rightarrow> 'ti alert list \<Rightarrow> 'ti threads \<Rightarrow> 'ti threads option" where
  "Alerts_step lt ds batch s =
     (case th_alerts s of
        H_None \<Rightarrow> None
      | H_Test \<Rightarrow> map_option (\<lambda>m. s\<lparr>th_workMtx := m, th_alerts := H_Read\<rparr>) (mx_lock Alerts (th_workMtx s))
      | H_Read \<Rightarrow> Some (s\<lparr>th_workMtx := mx_unlock (th_workMtx s),
                          th_alerts := (if IsWork (th_engine s) then H_Wait else H_Done)\<rparr>)
      | H_Wait \<Rightarrow> Some (s\<lparr>th_alerts := (if batch = [] then H_Test else H_Lock)\<rparr>)
      | H_Lock \<Rightarrow> map_option (\<lambda>m. s\<lparr>th_listMtx := m, th_alerts := H_Handle\<rparr>) (mx_lock Alerts (th_listMtx s))
      | H_Handle \<Rightarrow>
          (case handle_alerts lt ds batch (th_engine s) of
             (Ret _, t) \<Rightarrow> Some (s\<lparr>th_engine := t, th_listMtx := mx_unlock (th_listMtx s), th_alerts := H_Test\<rparr>)
           | _ \<Rightarrow> None)
      | H_Done \<Rightarrow> None)"

text \<open>The states from the moment \<open>Start\<close> has created the alert thread and some thread calls \<open>Stop\<close>.\<close>

definition th_started :: "'ti engine \<Rightarrow> 'ti threads" where
  "th_started t = \<lparr>th_workMtx = mx_free, th_listMtx = mx_free, th_stop = S_Enter, th_alerts = H_Test,
                   th_engine = Torrent_Start t\<rparr>"

inductive th_reach :: "('en, 'ti) lt_api \<Rightarrow> dirs \<Rightarrow> 'ti engine \<Rightarrow> 'ti threads \<Rightarrow> bool"
  for lt :: "('en, 'ti) lt_api" and ds :: dirs and t :: "'ti engine" where
  th_init: "th_reach lt ds t (th_started t)"
| th_stop: "th_reach lt ds t s \<Longrightarrow> Stop_step s = Some s' \<Longrightarrow> th_reach lt ds t s'"
| th_alert: "th_reach lt ds t s \<Longrightarrow> Alerts_step lt ds batch s = Some s' \<Longrightarrow> th_reach lt ds t s'"

text \<open>
  Who owns \<^verbatim>\<open>workMtx\<close>, and: until \<open>Stop\<close> waits in its join the engine is working, so the alert thread has
  not ended.
\<close>

definition th_inv :: "'ti threads \<Rightarrow> bool" where
  "th_inv s \<longleftrightarrow>
     th_stop s \<in> {S_Enter, S_Test, S_Read, S_Flag, S_Join}
     \<and> th_alerts s \<noteq> H_None \<and> th_alerts s \<noteq> H_Done
     \<and> (th_stop s \<noteq> S_Join \<longrightarrow> t_isWork (th_engine s))
     \<and> (mx_owner (th_workMtx s) = Some Alerts \<longleftrightarrow> th_alerts s = H_Read)
     \<and> (mx_owner (th_workMtx s) = Some Caller \<longleftrightarrow> th_stop s \<noteq> S_Enter)
     \<and> (mx_count (th_workMtx s) = (if th_stop s = S_Read then 2
          else if th_stop s = S_Enter \<and> th_alerts s \<noteq> H_Read then 0 else 1))"

lemma th_inv_started: "th_inv (th_started t)"
  by (simp add: th_inv_def th_started_def mx_free_def Torrent_Start_def IsWork_def)

lemma update_progress_isWork: "t_isWork (snd (handle_alert lt ds a t)) = t_isWork t"
  by (cases a) (auto simp: Let_def split_def split: option.split sum.split)

lemma handle_alerts_isWork: "t_isWork (snd (handle_alerts lt ds as t)) = t_isWork t"
proof (induction lt ds "as" t rule: handle_alerts.induct)
  case (2 lt ds a "as" t)
  obtain r t1 where step: "handle_alert lt ds a t = (r, t1)" by fastforce
  with update_progress_isWork [of lt ds a t] 2 show ?case by (cases r) auto
qed simp

lemma th_inv_Stop: "th_inv s \<Longrightarrow> Stop_step s = Some s' \<Longrightarrow> th_inv s'"
  by (cases "th_stop s"; cases "mx_owner (th_workMtx s)")
    (auto simp: th_inv_def Stop_step_def mx_lock_def mx_unlock_def mx_free_def IsWork_def split: if_splits)

lemma th_inv_Alerts:
  assumes inv: "th_inv s" and step: "Alerts_step lt ds batch s = Some s'"
  shows "th_inv s'"
proof (cases "th_alerts s")
  case H_Test
  have own: "mx_owner (th_workMtx s) \<noteq> Some Alerts" using inv H_Test by (simp add: th_inv_def)
  show ?thesis
  proof (cases "mx_owner (th_workMtx s)")
    case None
    with inv step H_Test show ?thesis by (auto simp: th_inv_def Alerts_step_def mx_lock_def)
  next
    case (Some u)
    with own step H_Test show ?thesis by (cases u) (simp_all add: Alerts_step_def mx_lock_def)
  qed
next
  case H_Read
  then have "mx_owner (th_workMtx s) = Some Alerts" "th_stop s = S_Enter" "mx_count (th_workMtx s) = 1" "t_isWork (th_engine s)"
    using inv by (auto simp: th_inv_def)
  with H_Read step show ?thesis
    by (auto simp: th_inv_def Alerts_step_def mx_unlock_def mx_free_def IsWork_def)
next
  case H_Handle
  with step obtain u t1 where t1: "handle_alerts lt ds batch (th_engine s) = (Ret u, t1)"
    and s': "s' = s\<lparr>th_engine := t1, th_listMtx := mx_unlock (th_listMtx s), th_alerts := H_Test\<rparr>"
    by (auto simp: Alerts_step_def split: prod.splits outcome.splits)
  with handle_alerts_isWork [of lt ds batch "th_engine s"] have "t_isWork t1 = t_isWork (th_engine s)" by simp
  with inv H_Handle show ?thesis by (simp add: th_inv_def s')
next
  case H_Wait
  with step have "s' = s\<lparr>th_alerts := (if batch = [] then H_Test else H_Lock)\<rparr>" by (simp add: Alerts_step_def)
  with inv H_Wait show ?thesis by (simp add: th_inv_def)
next
  case H_Lock
  with step obtain m where "s' = s\<lparr>th_listMtx := m, th_alerts := H_Handle\<rparr>" by (auto simp: Alerts_step_def)
  with inv H_Lock show ?thesis by (simp add: th_inv_def)
qed (use inv in \<open>simp_all add: th_inv_def\<close>)

lemma th_reach_inv: "th_reach lt ds t s \<Longrightarrow> th_inv s"
  by (induction rule: th_reach.induct) (auto intro: th_inv_started th_inv_Stop th_inv_Alerts)

text \<open>The stuck state: \<open>Stop\<close> joins, the alert thread waits for the mutex.\<close>

lemma th_stuck:
  assumes "th_inv s" and "th_stop s = S_Join" and "th_alerts s = H_Test"
  shows "Stop_step s = None \<and> Alerts_step lt ds batch s = None"
  using assms by (auto simp: th_inv_def Stop_step_def Alerts_step_def mx_lock_def split: option.split)

text \<open>C32: once the engine has been started, \<open>Torrent::Stop\<close> never returns: it joins the alert thread while
  holding the mutex that this thread needs to find out that it should end. In no interleaving does either
  of them finish; a wait for alerts that times out takes the alert thread to its loop condition, and there,
  with \<open>Stop\<close> in its join, neither of them can ever move again.\<close>

theorem Torrent_Stop_deadlocks:
  assumes "th_reach lt ds t s"
  shows "th_stop s \<noteq> S_Done \<and> th_alerts s \<noteq> H_Done
    \<and> (th_stop s = S_Join \<and> th_alerts s = H_Test \<longrightarrow> Stop_step s = None \<and> (\<forall>batch. Alerts_step lt ds batch s = None))
    \<and> (th_stop s = S_Join \<and> th_alerts s = H_Wait \<longrightarrow>
        (\<exists>s'. Alerts_step lt ds [] s = Some s' \<and> th_alerts s' = H_Test \<and> th_stop s' = S_Join))"
  using th_reach_inv [OF assms] th_stuck by (auto simp: th_inv_def Alerts_step_def)

theorem Torrent_Stop_deadlocks_witness:
  "\<exists>s. th_reach demo_lt demo_dirs demo_engine s \<and> th_stop s = S_Join
     \<and> Stop_step s = None \<and> (\<forall>batch. Alerts_step demo_lt demo_dirs batch s = None)"
proof -
  define s0 where "s0 = th_started demo_engine"
  define s4 where "s4 = s0\<lparr>th_workMtx := \<lparr>mx_owner = Some Caller, mx_count = 1\<rparr>,
      th_engine := (th_engine s0)\<lparr>t_isWork := False\<rparr>, th_stop := S_Join\<rparr>"
  define s1 where "s1 = s0\<lparr>th_workMtx := \<lparr>mx_owner = Some Caller, mx_count = 1\<rparr>, th_stop := S_Test\<rparr>"
  define s2 where "s2 = s0\<lparr>th_workMtx := \<lparr>mx_owner = Some Caller, mx_count = 2\<rparr>, th_stop := S_Read\<rparr>"
  define s3 where "s3 = s0\<lparr>th_workMtx := \<lparr>mx_owner = Some Caller, mx_count = 1\<rparr>, th_stop := S_Flag\<rparr>"
  note d = s0_def s1_def s2_def s3_def s4_def th_started_def mx_free_def Stop_step_def mx_lock_def mx_unlock_def
    Torrent_Start_def IsWork_def
  have "Stop_step s0 = Some s1" "Stop_step s1 = Some s2" "Stop_step s2 = Some s3" "Stop_step s3 = Some s4"
    by (simp_all add: d)
  then have r: "th_reach demo_lt demo_dirs demo_engine s4"
    using th_init [of demo_lt demo_dirs demo_engine] by (metis s0_def th_stop)
  moreover have "th_stop s4 = S_Join" "th_alerts s4 = H_Test" by (simp_all add: d)
  ultimately show ?thesis using Torrent_Stop_deadlocks [OF r] by blast
qed

end
