(* ===== verification/Supervisor.thy ===== *)
theory Supervisor
  imports Posix_FS
begin

text \<open>
  \<^verbatim>\<open>Daemon/src/main.cpp\<close>: the process that forks the daemon's worker process and starts it again. What the
  operating system answers in one turn of the loop is a value of \<open>turn\<close>; \<open>VerAIDaemonProc\<close> runs over the
  turns there are, and is still waiting when they are used up. The child's side is \<open>WorkProc\<close> with the
  handler \<open>SignalError\<close>; both say how the child ends. \<open>daemon_main\<close> is \<^verbatim>\<open>main\<close>, which forks that process off and
  detaches it. The trace in the system log is not modelled.
\<close>

section \<open>How a process ends\<close>

datatype child_end = Exited int | Signaled nat

text \<open>
  What \<^verbatim>\<open>wait(2)\<close> stores: the low eight bits of the exit status in the second byte, or the signal in the
  low seven bits. \<^verbatim>\<open>WEXITSTATUS\<close> is the macro of the C library, which reads the second byte of either.
\<close>

fun wait_status :: "child_end \<Rightarrow> u32" where
  "wait_status (Exited n) = push_bit 8 (and (word_of_int n) 0xFF)"
| "wait_status (Signaled n) = and (word_of_nat n) 0x7F"

definition WEXITSTATUS :: "u32 \<Rightarrow> u32" where
  "WEXITSTATUS status = drop_bit 8 (and status 0xFF00)"

datatype eDaemonStatus = NeedToWork | NeedToTerminate

fun code_of :: "eDaemonStatus \<Rightarrow> int" where
  "code_of NeedToWork = 0"
| "code_of NeedToTerminate = 1"

section \<open>The worker process\<close>

text \<open>
  \<open>SignalError\<close> runs on the thread that faulted. It stops the controller; that destroys the client, if its
  pointer is still set, and with it the worker's thread, which is joined: when the fault is on that very
  thread the join throws out of a destructor, and the process is aborted (signal 6).
\<close>

definition SignalError :: "bool \<Rightarrow> bool \<Rightarrow> child_end" where
  "SignalError on_worker rpc_set =
     (if on_worker \<and> rpc_set then Signaled 6 else Exited (code_of NeedToWork))"

text \<open>
  \<open>WorkProc\<close>, given how the calls of \<open>Start\<close> and, after the signal, of \<open>Stop\<close> end, and where the thread and
  the client's pointer are when one of them faults.
\<close>

definition WorkProc :: "unit outcome \<Rightarrow> unit outcome \<Rightarrow> bool \<Rightarrow> bool \<Rightarrow> child_end" where
  "WorkProc start stop on_worker rpc_set =
     (case start of
        Undefined \<Rightarrow> SignalError on_worker rpc_set
      | Throw e \<Rightarrow> Exited (code_of NeedToTerminate)
      | Ret _ \<Rightarrow>
          (case stop of
             Undefined \<Rightarrow> SignalError on_worker rpc_set
           | _ \<Rightarrow> Exited (code_of NeedToTerminate)))"

text \<open>
  The limit of descriptors; what \<^verbatim>\<open>setrlimit\<close> makes of it is a parameter, and \<open>WorkProc\<close> does not look at
  the result.
\<close>

record rlimit =
  rlim_cur :: "64 word"
  rlim_max :: "64 word"

definition kFdLimit :: u32 where
  "kFdLimit = 2048"

definition SetFdLimit :: "(rlimit \<Rightarrow> 'o \<Rightarrow> int \<times> 'o) \<Rightarrow> u32 \<Rightarrow> 'o \<Rightarrow> int \<times> 'o" where
  "SetFdLimit setrlimit maxFd o1 =
     setrlimit \<lparr>rlim_cur = word_of_int (sint maxFd), rlim_max = word_of_int (sint maxFd)\<rparr> o1"

section \<open>The loop\<close>

datatype signo = SIGQUIT | SIGINT | SIGTERM | SIGCHLD

datatype sup_event = Fork_failed | Child_stopped | Child_restart | Got_signal signo | Daemon_stop

text \<open>What \<^verbatim>\<open>fork\<close> returns (\<open>None\<close>: \<^verbatim>\<open>-1\<close>), the signal \<^verbatim>\<open>sigwaitinfo\<close> takes, and how the child ended.\<close>

record turn =
  tn_fork :: "int option"
  tn_signal :: signo
  tn_end :: child_end

record sup =
  su_pid :: "int option"
  su_need_start :: bool
  su_status :: u32
  su_children :: "int list"
  su_terms :: "int list"
  su_log :: "sup_event list"
  su_fs :: fsys

definition kPidFile :: string where
  "kPidFile = ''/var/run/verai_daemon.pid''"

definition CreatePidFile :: "string \<Rightarrow> int \<Rightarrow> fsys \<Rightarrow> fsys" where
  "CreatePidFile fileName pid fs = ofs_write fs fileName (show_int pid)"

definition do_fork :: "int option \<Rightarrow> sup \<Rightarrow> sup" where
  "do_fork p s = s\<lparr>su_pid := p, su_children := (case p of None \<Rightarrow> su_children s | Some c \<Rightarrow> c # su_children s)\<rparr>"

definition do_wait :: "turn \<Rightarrow> sup \<Rightarrow> sup" where
  "do_wait tn s =
     s\<lparr>su_children := remove1 (the (su_pid s)) (su_children s), su_status := WEXITSTATUS (wait_status (tn_end tn))\<rparr>"

text \<open>One turn of the loop; the flag says whether it breaks.\<close>

definition sup_turn :: "turn \<Rightarrow> sup \<Rightarrow> bool \<times> sup" where
  "sup_turn tn s0 =
     (let s1 = (if su_need_start s0 then do_fork (tn_fork tn) s0 else s0);
          s = s1\<lparr>su_need_start := True\<rparr>
      in case su_pid s of
           None \<Rightarrow> (False, s\<lparr>su_log := su_log s @ [Fork_failed]\<rparr>)
         | Some pid \<Rightarrow>
             if tn_signal tn = SIGCHLD
             then (let s2 = do_wait tn s
                   in if su_status s2 = word_of_int (code_of NeedToTerminate)
                      then (True, s2\<lparr>su_log := su_log s2 @ [Child_stopped]\<rparr>)
                      else if su_status s2 = word_of_int (code_of NeedToWork)
                      then (False, s2\<lparr>su_log := su_log s2 @ [Child_restart]\<rparr>)
                      else (False, s2))
             else (True, s\<lparr>su_log := su_log s @ [Got_signal (tn_signal tn)], su_terms := su_terms s @ [pid],
                          su_status := 0\<rparr>))"

fun sup_loop :: "turn list \<Rightarrow> sup \<Rightarrow> bool \<times> sup" where
  "sup_loop [] s = (False, s)"
| "sup_loop (tn # tns) s =
     (case sup_turn tn s of
        (True, s1) \<Rightarrow> (True, s1)
      | (False, s1) \<Rightarrow> sup_loop tns s1)"

text \<open>The status returned, \<open>None\<close> while the loop goes on. The variable \<^verbatim>\<open>status\<close> starts with whatever it holds.\<close>

definition VerAIDaemonProc :: "int \<Rightarrow> u32 \<Rightarrow> turn list \<Rightarrow> fsys \<Rightarrow> u32 option \<times> sup" where
  "VerAIDaemonProc self garbage tns fs =
     (let s0 = \<lparr>su_pid = None, su_need_start = True, su_status = garbage, su_children = [], su_terms = [],
                su_log = [], su_fs = CreatePidFile kPidFile self fs\<rparr>
      in case sup_loop tns s0 of
           (False, s) \<Rightarrow> (None, s)
         | (True, s) \<Rightarrow> (Some (su_status s),
                          s\<lparr>su_log := su_log s @ [Daemon_stop], su_fs := sys_unlink kPidFile (su_fs s)\<rparr>))"

section \<open>The program\<close>

text \<open>
  What of a process \<^verbatim>\<open>main\<close> changes, beside the umask, which belongs to the file system's state: the folder it
  is in (\<open>None\<close>: the one it was started in), its session, and its open descriptors.
\<close>

record proc =
  pr_cwd :: "path option"
  pr_setsid :: bool
  pr_fds :: "int set"

definition detach :: "bool \<Rightarrow> proc \<Rightarrow> proc" where
  "detach chdir_ok p =
     (let p1 = p\<lparr>pr_setsid := True\<rparr>;
          p2 = (if chdir_ok then p1\<lparr>pr_cwd := Some []\<rparr> else p1)
      in p2\<lparr>pr_fds := pr_fds p2 - {0, 1, 2}\<rparr>)"

text \<open>
  \<open>forked\<close> is what \<^verbatim>\<open>fork\<close> returned in the process that is looked at. The result is what that process returns,
  \<open>None\<close> while it goes on, and the state of the supervisor where there is one.
\<close>

definition daemon_main ::
  "int option \<Rightarrow> bool \<Rightarrow> int \<Rightarrow> u32 \<Rightarrow> turn list \<Rightarrow> proc \<Rightarrow> fsys \<Rightarrow> u32 option \<times> proc \<times> sup option" where
  "daemon_main forked chdir_ok self garbage tns p fs =
     (case forked of
        None \<Rightarrow> (Some (-1), p, None)
      | Some pid \<Rightarrow>
          if pid = 0
          then (let (status, s) = VerAIDaemonProc self garbage tns (fs\<lparr>fs_umask := 0\<rparr>)
                in (status, detach chdir_ok p, Some s))
          else (Some 0, p, None))"

section \<open>Facts about the loop\<close>

lemma byte_masks: "(0xFF :: u32) = mask 8" "(0x7F :: u32) = mask 7" "(0xFF00 :: u32) = push_bit 8 (mask 8)"
  by (simp_all add: mask_eq_exp_minus_1 push_bit_eq_mult)

lemma WEXITSTATUS_exited [simp]: "WEXITSTATUS (wait_status (Exited n)) = and (word_of_int n) 0xFF"
  by (simp add: WEXITSTATUS_def byte_masks, rule bit_word_eqI) (auto simp: bit_simps)

lemma WEXITSTATUS_signaled [simp]: "WEXITSTATUS (wait_status (Signaled n)) = 0"
  by (simp add: WEXITSTATUS_def byte_masks, rule bit_word_eqI) (auto simp: bit_simps)

declare wait_status.simps [simp del]

text \<open>A turn after which the loop breaks.\<close>

definition breaks :: "turn \<Rightarrow> bool" where
  "breaks tn \<longleftrightarrow> tn_fork tn \<noteq> None \<and> (tn_signal tn = SIGCHLD \<longrightarrow> WEXITSTATUS (wait_status (tn_end tn)) = 1)"

text \<open>What the loop leaves after the turn it breaks with, if there is one.\<close>

definition left_children :: "turn option \<Rightarrow> int list" where
  "left_children r =
     (case r of Some tn \<Rightarrow> if tn_signal tn = SIGCHLD then [] else [the (tn_fork tn)] | None \<Rightarrow> [])"

lemma sup_turn_facts:
  assumes "su_need_start s" and "su_children s = []"
  shows "fst (sup_turn tn s) = breaks tn" and "su_need_start (snd (sup_turn tn s))"
    and "su_children (snd (sup_turn tn s)) = (if breaks tn then left_children (Some tn) else [])"
    and "su_terms (snd (sup_turn tn s)) = su_terms s @ (if breaks tn then left_children (Some tn) else [])"
    and "su_fs (snd (sup_turn tn s)) = su_fs s"
    and "breaks tn \<Longrightarrow> su_status (snd (sup_turn tn s)) = (if tn_signal tn = SIGCHLD then 1 else 0)"
  using assms
  by (cases "tn_fork tn"; cases "tn_signal tn = SIGCHLD";
      simp add: sup_turn_def Let_def do_fork_def do_wait_def breaks_def left_children_def)+

lemma sup_loop_run:
  assumes "su_need_start s" and "su_children s = []"
  shows "fst (sup_loop tns s) = (find breaks tns \<noteq> None)
    \<and> (\<forall>tn. find breaks tns = Some tn \<longrightarrow> su_status (snd (sup_loop tns s)) = (if tn_signal tn = SIGCHLD then 1 else 0))
    \<and> su_children (snd (sup_loop tns s)) = left_children (find breaks tns)
    \<and> su_terms (snd (sup_loop tns s)) = su_terms s @ left_children (find breaks tns)
    \<and> su_fs (snd (sup_loop tns s)) = su_fs s"
  using assms
proof (induction tns arbitrary: s)
  case Nil
  then show ?case by (simp add: left_children_def)
next
  case (Cons tn tns)
  note here = sup_turn_facts [OF Cons.prems, of tn]
  obtain b s1 where t: "sup_turn tn s = (b, s1)" by fastforce
  show ?case
  proof (cases "breaks tn")
    case True
    with here t show ?thesis by simp
  next
    case False
    with here t Cons.IH [of s1] show ?thesis by simp
  qed
qed

lemma VerAIDaemonProc_result:
  "fst (VerAIDaemonProc self garbage tns fs) =
     (case find breaks tns of None \<Rightarrow> None | Some tn \<Rightarrow> Some (if tn_signal tn = SIGCHLD then 1 else 0))"
  and VerAIDaemonProc_children:
  "su_children (snd (VerAIDaemonProc self garbage tns fs)) = left_children (find breaks tns)"
  "su_terms (snd (VerAIDaemonProc self garbage tns fs)) = left_children (find breaks tns)"
proof -
  define s0 where "s0 = \<lparr>su_pid = None, su_need_start = True, su_status = garbage, su_children = [], su_terms = [],
      su_log = [], su_fs = CreatePidFile kPidFile self fs\<rparr>"
  have "su_need_start s0" "su_children s0 = []" "su_terms s0 = []" by (simp_all add: s0_def)
  with sup_loop_run [of s0 tns]
  show "fst (VerAIDaemonProc self garbage tns fs) =
     (case find breaks tns of None \<Rightarrow> None | Some tn \<Rightarrow> Some (if tn_signal tn = SIGCHLD then 1 else 0))"
    and "su_children (snd (VerAIDaemonProc self garbage tns fs)) = left_children (find breaks tns)"
    and "su_terms (snd (VerAIDaemonProc self garbage tns fs)) = left_children (find breaks tns)"
    by (cases "sup_loop tns s0"; cases "find breaks tns";
        force simp: VerAIDaemonProc_def s0_def [symmetric] left_children_def)+
qed

section \<open>What the supervisor does\<close>

text \<open>C20: the supervisor starts the worker again after every way it can end but one, and after every failed
  fork: it returns after the first turn in which the worker's exit status is 1, or in which a signal arrived.
  It returns 1 in the first case, with no child left, and 0 in the second, with the one child it has sent a
  \<open>SIGTERM\<close> and not waited for; in no other turn is a child killed or kept.\<close>

theorem supervisor_run:
  "(case VerAIDaemonProc self garbage tns fs of (r, s) \<Rightarrow>
      r = (case find breaks tns of None \<Rightarrow> None | Some tn \<Rightarrow> Some (if tn_signal tn = SIGCHLD then 1 else 0))
      \<and> su_children s = (case find breaks tns of
            Some tn \<Rightarrow> if tn_signal tn = SIGCHLD then [] else [the (tn_fork tn)]
          | None \<Rightarrow> [])
      \<and> su_terms s = su_children s)"
  by (simp add: split_def VerAIDaemonProc_result VerAIDaemonProc_children left_children_def)

text \<open>
  The process that was started returns 0 as soon as it has forked, whatever becomes of the daemon; the daemon
  holds none of the standard descriptors, and what it returns is what the supervisor does.
\<close>

lemma daemon_main_effect:
  shows "0 < pid \<Longrightarrow> daemon_main (Some pid) chdir_ok self garbage tns p fs = (Some 0, p, None)"
    and "case daemon_main (Some 0) chdir_ok self garbage tns p fs of (status, p1, so) \<Rightarrow>
      status = (case find breaks tns of None \<Rightarrow> None | Some tn \<Rightarrow> Some (if tn_signal tn = SIGCHLD then 1 else 0))
      \<and> pr_fds p1 \<inter> {0, 1, 2} = {} \<and> (chdir_ok \<longrightarrow> pr_cwd p1 = Some []) \<and> pr_setsid p1"
  by (auto simp: daemon_main_def split_def detach_def Let_def VerAIDaemonProc_result)

lemma WorkProc_status:
  "WEXITSTATUS (wait_status (WorkProc start stop on_worker rpc_set)) =
     (if start = Undefined \<or> start = Ret () \<and> stop = Undefined then 0 else 1)"
  by (cases start; cases stop) (simp_all add: WorkProc_def SignalError_def)

text \<open>While the supervisor runs, the pid file holds its process number; when it has returned, the file is
  gone. The file is written once, before the first fork.\<close>

lemma pid_file_lifecycle:
  assumes "can_write fs kPidFile" and "\<not> fs_refuse fs SysRemove (resolve kPidFile)"
  shows "case VerAIDaemonProc self garbage tns fs of (r, s) \<Rightarrow>
      (r = None \<longrightarrow> ifs_read (su_fs s) kPidFile = show_int self)
      \<and> (r \<noteq> None \<longrightarrow> sys_stat (su_fs s) kPidFile = None)"
proof -
  define s0 where "s0 = \<lparr>su_pid = None, su_need_start = True, su_status = garbage, su_children = [], su_terms = [],
      su_log = [], su_fs = CreatePidFile kPidFile self fs\<rparr>"
  have "su_need_start s0" "su_children s0 = []" by (simp_all add: s0_def)
  note run = sup_loop_run [OF this, of tns]
  have fs0: "su_fs s0 = set_node (resolve kPidFile) (RegNode (show_int self)) fs"
    using assms(1) by (simp add: s0_def CreatePidFile_def ofs_write_def)
  have "\<not> needs_dir kPidFile" "kPidFile \<noteq> ''''" using assms(1) by (simp_all add: can_write_def)
  then have "sys_stat (su_fs s0) kPidFile = Some (RegNode (show_int self))" by (simp add: sys_stat_def fs0)
  moreover from this have "sys_stat (sys_unlink kPidFile (su_fs s0)) kPidFile = None"
    using assms(2) by (simp add: sys_unlink_def fs0) (simp add: sys_stat_def)
  ultimately show ?thesis
    using run by (cases "sup_loop tns s0"; cases "fst (sup_loop tns s0)")
      (auto simp: VerAIDaemonProc_def s0_def [symmetric] ifs_read_def)
qed

definition run_fs :: fsys where
  "run_fs = \<lparr>fs_nodes = [[] \<mapsto> DirNode 0, [''var''] \<mapsto> DirNode 0, [''var'', ''run''] \<mapsto> DirNode 0],
             fs_umask = 0, fs_refuse = (\<lambda>_ _. False)\<rparr>"

definition chld :: "child_end \<Rightarrow> turn" where
  "chld e = \<lparr>tn_fork = Some 7, tn_signal = SIGCHLD, tn_end = e\<rparr>"

end
