(* ===== verification/Daemon.thy ===== *)
theory Daemon
  imports Controller Torrent_Threads Supervisor
begin

text \<open>
  The worker process as a whole: the threads of the client's worker, the threads that generate torrents and
  the alert thread take turns on the controller's state. One label is one turn: a step of the client with the
  callbacks of the controller, one generating thread from its start to its end, or one batch of alerts. An
  exception that leaves a generating thread or the alert thread ends the process, so a run stops there.
\<close>

datatype 'ti dlabel = DClient string glabel | DJob string nat | DAlerts "'ti alert list"

definition with_engine ::
  "('ti engine \<Rightarrow> unit outcome \<times> 'ti engine) \<Rightarrow> grpc \<times> ('ti, 'srv) world \<Rightarrow> (unit outcome \<times> (grpc \<times> ('ti, 'srv) world)) option" where
  "with_engine f = (\<lambda>(g, w).
     case wo_torrent w of
       None \<Rightarrow> None
     | Some t \<Rightarrow> (let (r, t1) = f t in Some (r, (g, w\<lparr>wo_torrent := Some t1\<rparr>))))"

fun d_step ::
  "(task_type option deferred list \<Rightarrow> task_type option deferred list) \<Rightarrow> 'srv stub_api \<Rightarrow> ('en, 'ti) lt_api \<Rightarrow> dirs
   \<Rightarrow> string result \<Rightarrow> 'ti dlabel \<Rightarrow> grpc \<times> ('ti, 'srv) world \<Rightarrow> (unit outcome \<times> (grpc \<times> ('ti, 'srv) world)) option" where
  "d_step srt srv lt ds uuid (DClient fresh l) s = g_step srt (world_stub srv) (controller_cb lt ds fresh uuid) l s"
| "d_step srt srv lt ds uuid (DJob fresh n) s = with_engine (run_job lt ds fresh n) s"
| "d_step srt srv lt ds uuid (DAlerts as) s = with_engine (handle_alerts lt ds as) s"

fun d_run ::
  "(task_type option deferred list \<Rightarrow> task_type option deferred list) \<Rightarrow> 'srv stub_api \<Rightarrow> ('en, 'ti) lt_api \<Rightarrow> dirs
   \<Rightarrow> string result \<Rightarrow> 'ti dlabel list \<Rightarrow> grpc \<times> ('ti, 'srv) world \<Rightarrow> (unit outcome \<times> (grpc \<times> ('ti, 'srv) world)) option" where
  "d_run srt srv lt ds uuid [] s = Some (Ret (), s)"
| "d_run srt srv lt ds uuid (l # ls) s =
     (case d_step srt srv lt ds uuid l s of
        None \<Rightarrow> None
      | Some (Ret _, s1) \<Rightarrow> d_run srt srv lt ds uuid ls s1
      | Some r \<Rightarrow> Some r)"

text \<open>Batches whose progress reports are parts of a million.\<close>

fun dlabel_ok :: "'ti dlabel \<Rightarrow> bool" where
  "dlabel_ok (DAlerts as) \<longleftrightarrow> list_all alert_ok as"
| "dlabel_ok _ \<longleftrightarrow> True"

section \<open>The invariant of the engine\<close>

lemma with_engine_ok:
  assumes "with_engine f (g, w) = Some (r, (g1, w1))" and "world_ok w"
    and "\<And>t. engine_ok t \<Longrightarrow> engine_ok (snd (f t))"
  shows "world_ok w1"
proof (cases "wo_torrent w")
  case (Some t)
  with assms show ?thesis by (cases "f t") (auto simp: with_engine_def world_ok_def, metis snd_conv)
qed (use assms in \<open>simp add: with_engine_def\<close>)

lemma d_step_ok:
  assumes "d_step srt srv lt ds uuid l (g, w) = Some (r, (g1, w1))" and "dlabel_ok l" and "lt_pieces_ok lt"
    and "world_ok w"
  shows "world_ok w1"
proof (cases l)
  case (DClient fresh gl)
  with assms(1) have "g_step srt (world_stub srv) (controller_cb lt ds fresh uuid) gl (g, w) = Some (r, (g1, w1))" by simp
  from ctl.inv_step [OF this assms(4)] show ?thesis .
next
  case (DJob fresh n)
  with assms show ?thesis by (auto intro: with_engine_ok engine_ok_run_job)
next
  case (DAlerts "as")
  with assms show ?thesis by (auto intro: with_engine_ok engine_ok_handle_alerts)
qed

lemma d_run_ok:
  assumes "d_run srt srv lt ds uuid ls (g, w) = Some (r, (g1, w1))" and "list_all dlabel_ok ls" and "lt_pieces_ok lt"
    and "world_ok w"
  shows "world_ok w1"
  using assms
proof (induction ls arbitrary: g w)
  case (Cons l ls)
  obtain r' h v where s: "d_step srt srv lt ds uuid l (g, w) = Some (r', (h, v))"
    using Cons.prems(1) by (cases "d_step srt srv lt ds uuid l (g, w)") auto
  have "world_ok v" using d_step_ok [OF s _ Cons.prems(3,4)] Cons.prems(2) by simp
  with s Cons show ?case by (cases r') auto
qed simp



section \<open>From a request to the magnet link\<close>

lemma CreateTorrentAsync_rest:
  "t_fs (CreateTorrentAsync uuid path t) = t_fs t" "t_session (CreateTorrentAsync uuid path t) = t_session t"
  by (simp_all add: CreateTorrentAsync_def Let_def split_def split: option.split)

lemma generate_request:
  assumes "g_stub g" and "wo_torrent w = Some t"
    and "sa_GetInfoForGenerateTorrents srv (GetClientInfo g) (wo_srv w) = (([ti], ok1), s1)"
  shows "run_body (world_stub srv) (controller_cb lt ds fresh uuid) GENERATE_MAGENT (g, w) =
    (Ret (), (AddTaskAfterTimeOut UPDATE_TORRENT_STATUS 30 g,
              w\<lparr>wo_torrent := Some (CreateTorrentAsync (ri_id ti) (ri_pathToProject ti) t), wo_srv := s1\<rparr>))"
  using assms
  by (simp add: CreateTorrentTask_def world_stub_def on_srv_def controller_cb_def GenerateTorrents_def GenerateTorrent_def)

text \<open>C1: a server that asks for a new torrent gets its magnet link. The task that asks what to generate starts
  the thread and enqueues a status task with a delay of 30; when the thread has hashed the project and written
  the torrent file, the status task reports the torrent to the server as \<open>GENERATED\<close> at 100 percent, with the
  magnet link, the torrent file and the project path, under the client's credentials.\<close>

theorem generate_end_to_end:
  fixes lt :: "('en, 'ti) lt_api"
  assumes "g_stub g" and "wo_torrent w = Some t" and "engine_ok t" and "t_session t" and "t_jobs t = []"
    and "lt_pieces_ok lt" and "view (t_mgr t) (ri_id ti) = None" and "ri_id ti \<noteq> ''''"
    and "sa_GetInfoForGenerateTorrents srv (GetClientInfo g) (wo_srv w) = (([ti], ok1), s1)"
    and "lt_add_files lt (t_fs t) (ri_pathToProject ti) = files" and "files \<noteq> []"
    and "lt_hash_calls lt (t_fs t) files (GetDirectory (ri_pathToProject ti)) = (pieces, None)"
    and "lt_generate lt (t_fs t) files (GetDirectory (ri_pathToProject ti)) ''VerAI libtorrent'' = Some e"
    and "WriteTorrent lt ds e (GetFileName (ri_pathToProject ti)) (t_fs t) = (Inr fileName, fs1)"
    and "lt_torrent_info lt fs1 fileName = Inr x"
    and "sa_GetTorrentsForUpdateStatus srv (GetClientInfo g) s1 = (([ti2], ok2), s2)" and "ri_id ti2 = ri_id ti"
  shows "\<exists>g1 w1 w2 w3.
      run_body (world_stub srv) (controller_cb lt ds fresh uuid) GENERATE_MAGENT (g, w) = (Ret (), (g1, w1))
    \<and> h_list (w_handler (g_worker g1)) = h_list (w_handler (g_worker g)) @ [\<lparr>taskToRun = Some UPDATE_TORRENT_STATUS, ms = 30\<rparr>]
    \<and> d_step srt srv lt ds uuid (DJob fresh 0) (g1, w1) = Some (Ret (), (g1, w2))
    \<and> run_body (world_stub srv) (controller_cb lt ds fresh uuid) UPDATE_TORRENT_STATUS (g1, w2) = (Ret (), (g1, w3))
    \<and> wo_srv w3 = snd (sa_UpdateTorrentStatus srv (GetClientInfo g)
          \<lparr>ri_id = ri_id ti, ri_link = lt_magnet lt x, ri_pathToTFile = fileName, ri_status = RS_GENERATED,
           ri_workProgress = 100, ri_pathToProject = ri_pathToProject ti\<rparr> s2)"
proof -
  let ?u = "ri_id ti" and ?p = "ri_pathToProject ti"
  let ?g1 = "AddTaskAfterTimeOut UPDATE_TORRENT_STATUS 30 g"
  let ?t1 = "CreateTorrentAsync ?u ?p t"
  let ?w1 = "w\<lparr>wo_torrent := Some ?t1, wo_srv := s1\<rparr>"
  have ok1: "engine_ok ?t1" using assms(3) by (rule engine_ok_CreateTorrentAsync)
  have jobs: "t_jobs ?t1 = [(?u, ?p)]"
    using CreateTorrentAsync_status [OF engine_okD(2) [OF assms(3)], of ?u ?p] assms(5,7)
    by (simp add: generating_def)
  let ?t2 = "?t1\<lparr>t_jobs := []\<rparr>"
  have "engine_ok ?t2" "t_session ?t2" "t_fs ?t2 = t_fs t" using ok1 assms(4) by (simp_all add: CreateTorrentAsync_rest)
  with CreateTorrent_generates [of ?t2 ?u lt ?p files pieces e ds fileName fs1 x fresh] assms(8,10-15)
  obtain t3 i where t3: "CreateTorrent lt ds fresh ?u ?p ?t2 = (Ret (), t3)" "view (t_mgr t3) ?u = Some i"
    "tStatus i = GENERATED" "tProgress i = 100" "tLink i = lt_magnet lt x" "tPath i = fileName" "pPath i = ?p"
    by auto
  have ok3: "engine_ok t3" using engine_ok_CreateTorrent [OF \<open>engine_ok ?t2\<close> assms(6)] t3(1) by (metis snd_conv)
  let ?w2 = "?w1\<lparr>wo_torrent := Some t3\<rparr>"
  have job: "d_step srt srv lt ds uuid (DJob fresh 0) (?g1, ?w1) = Some (Ret (), (?g1, ?w2))"
    using t3(1) jobs by (simp add: with_engine_def run_job_def)
  have rep: "report_of t3 ?u = \<lparr>ri_id = ?u, ri_link = lt_magnet lt x, ri_pathToTFile = fileName,
      ri_status = RS_GENERATED, ri_workProgress = 100, ri_pathToProject = ?p\<rparr>"
    using t3(2-7) view_id [OF engine_okD(2) [OF ok3] t3(2)] by (simp add: report_of_def ConvertTorrentInfo_def)
  have "g_stub ?g1" "GetClientInfo ?g1 = GetClientInfo g" using assms(1) by (simp_all add: GetClientInfo_def)
  with report_all [of ?g1 ?w2 t3 srv "[ti2]" ok2 s2 lt ds fresh uuid] ok3 assms(16,17) rep
  obtain w3 where "run_body (world_stub srv) (controller_cb lt ds fresh uuid) UPDATE_TORRENT_STATUS (?g1, ?w2) = (Ret (), (?g1, w3))"
    "wo_srv w3 = snd (sa_UpdateTorrentStatus srv (GetClientInfo g)
      \<lparr>ri_id = ?u, ri_link = lt_magnet lt x, ri_pathToTFile = fileName, ri_status = RS_GENERATED,
       ri_workProgress = 100, ri_pathToProject = ?p\<rparr> s2)"
    by auto
  with generate_request [OF assms(1,2,9)] job show ?thesis
    by (intro exI [of _ ?g1] exI [of _ ?w1] exI [of _ ?w2] exI [of _ w3])
      (simp add: AddTaskAfterTimeOut_def EnqueueTaskAfterTimeOut_def add_deferred_def)
qed

definition gen_torrent :: rpc_tinfo where
  "gen_torrent = (one_torrent ''u'')\<lparr>ri_pathToProject := ''/x/prj''\<rparr>"

definition gen_stub :: "rpc_tinfo list stub_api" where
  "gen_stub = demo_stub\<lparr>sa_GetInfoForGenerateTorrents := (\<lambda>di w. (([gen_torrent], True), w)),
     sa_GetTorrentsForUpdateStatus := (\<lambda>di w. (([gen_torrent], True), w))\<rparr>"

theorem generate_end_to_end_witness:
  "\<exists>g1 w2 w3.
      run_body (world_stub gen_stub) (controller_cb (demo_lt\<lparr>lt_add_files := \<lambda>_ _. [''a'']\<rparr>) demo_dirs ''f'' (Inr ''u''))
        UPDATE_TORRENT_STATUS (g1, w2) = (Ret (), (g1, w3))
    \<and> map ri_status (wo_srv w3) = [RS_GENERATED]"
proof -
  let ?lt = "demo_lt\<lparr>lt_add_files := \<lambda>_ _. [''a'']\<rparr>"
  obtain fs1 where w: "WriteTorrent demo_lt demo_dirs ''VerAI libtorrent'' ''prj'' demo_fs = (Inr ''/t/prj.torrent'', fs1)"
    "ifs_read fs1 ''/t/prj.torrent'' = ''VerAI libtorrent''" using demo_write by blast
  have g: "g_stub demo_client" by (simp add: demo_client_def client_eval demo_stub_def demo_cb_def)
  have wr: "WriteTorrent ?lt demo_dirs ''VerAI libtorrent'' (GetFileName (ri_pathToProject gen_torrent)) (t_fs demo_engine)
      = (Inr ''/t/prj.torrent'', fs1)"
    using w(1) WriteTorrent_bencode [of ?lt demo_lt] by (simp add: GetFileName_def gen_torrent_def)
  have lt: "lt_pieces_ok ?lt" "lt_torrent_info ?lt fs1 ''/t/prj.torrent'' = Inr ''VerAI libtorrent''"
    using w(2) by (auto simp: lt_pieces_ok_def demo_lt_def)
  have t: "wo_torrent demo_world = Some demo_engine" "view (t_mgr demo_engine) (ri_id gen_torrent) = None"
    "ri_id gen_torrent \<noteq> []"
    by (simp_all add: demo_world_def gen_torrent_def one_torrent_def)
  have srv: "sa_GetInfoForGenerateTorrents gen_stub (GetClientInfo demo_client) (wo_srv demo_world) = (([gen_torrent], True), [])"
    "sa_GetTorrentsForUpdateStatus gen_stub (GetClientInfo demo_client) [] = (([gen_torrent], True), [])"
    "sa_UpdateTorrentStatus gen_stub di ti s = (True, s @ [ti])" for di ti s
    by (simp_all add: gen_stub_def demo_world_def demo_stub_def)
  have files: "lt_add_files ?lt (t_fs demo_engine) (ri_pathToProject gen_torrent) = [''a'']"
    "lt_hash_calls ?lt (t_fs demo_engine) [''a''] (GetDirectory (ri_pathToProject gen_torrent)) = ([0], None)"
    "lt_generate ?lt (t_fs demo_engine) [''a''] (GetDirectory (ri_pathToProject gen_torrent)) ''VerAI libtorrent''
      = Some ''VerAI libtorrent''"
    by (simp_all add: demo_lt_def)
  from generate_end_to_end [OF g t(1) demo_engine_ok demo_engine_sel(2) demo_engine_sel(5) lt(1) t(2,3) srv(1) files(1) _
      files(2,3) wr lt(2) srv(2) refl, where fresh = "''f''" and uuid = "Inr ''u''" and srt = "sort_by ms_compare"]
  obtain g1 w2 w3 where
    "run_body (world_stub gen_stub) (controller_cb ?lt demo_dirs ''f'' (Inr ''u'')) UPDATE_TORRENT_STATUS (g1, w2) = (Ret (), (g1, w3))"
    "map ri_status (wo_srv w3) = [RS_GENERATED]"
    by (auto simp: srv(3))
  then show ?thesis by (intro exI conjI)
qed

section \<open>A request to stop\<close>

lemma SignalError_restarts:
  "\<not> breaks \<lparr>tn_fork = Some p, tn_signal = SIGCHLD, tn_end = WorkProc (Ret ()) Undefined on_worker rpc_set\<rparr>"
  by (simp add: breaks_def WorkProc_status)

text \<open>C24: a worker process that is asked to stop while a task for a torrent is queued faults instead: \<open>Stop\<close>
  releases the engine before the client's worker has run what is queued, and the task dereferences the null
  pointer. The handler of the fault exits with the status that means a restart, so the supervisor forks the
  worker again: the request to stop has no effect.\<close>

theorem stop_request_restarts:
  assumes "g_stub g" and "w_pc (g_worker g) = WLoop" and "queueMessages (w_queue (g_worker g)) = Some x # q"
    and "x = GENERATE_MAGENT \<and> sa_GetInfoForGenerateTorrents srv (GetClientInfo g) (wo_srv w) = ((ti # tis, ok), s1)
      \<or> x = DOWNLOAD_TORRENT \<and> sa_GetTorrentsForDownload srv (GetClientInfo g) (wo_srv w) = ((ti # tis, ok), s1)
      \<or> x = UPDATE_TORRENT_STATUS \<and> sa_GetTorrentsForUpdateStatus srv (GetClientInfo g) (wo_srv w) = ((ti # tis, ok), s1)"
  shows "\<exists>r s. d_run srt srv lt ds uuid [DClient fresh GWork, DClient fresh GWork, DClient fresh GWork] (Controller_Stop (g, w))
      = Some (r, s)
    \<and> (\<forall>on_worker rpc_set.
        fst (VerAIDaemonProc self garbage
          [\<lparr>tn_fork = Some p, tn_signal = SIGCHLD, tn_end = WorkProc (Ret ()) r on_worker rpc_set\<rparr>] fs) = None)"
proof -
  obtain s where "g_run srt (world_stub srv) (controller_cb lt ds fresh uuid) [GWork, GWork, GWork] (Controller_Stop (g, w))
      = Some (Undefined, s)"
    using Controller_Stop_crashes [OF assms] by blast
  then have "d_run srt srv lt ds uuid [DClient fresh GWork, DClient fresh GWork, DClient fresh GWork] (Controller_Stop (g, w))
      = Some (Undefined, s)"
    by (auto split: option.splits prod.splits outcome.splits)
  then show ?thesis by (auto simp: VerAIDaemonProc_result SignalError_restarts)
qed

theorem stop_request_restarts_witness:
  "\<exists>r s. d_run (sort_by ms_compare) ask_stub demo_lt demo_dirs (Inr ''u'')
      [DClient ''f'' GWork, DClient ''f'' GWork, DClient ''f'' GWork]
      (Controller_Stop (AddTask GENERATE_MAGENT (demo_client\<lparr>g_worker := ClearQueueTasks (g_worker demo_client)\<rparr>), demo_world))
      = Some (r, s)
    \<and> fst (VerAIDaemonProc 42 0 [\<lparr>tn_fork = Some 7, tn_signal = SIGCHLD, tn_end = WorkProc (Ret ()) r True False\<rparr>] run_fs) = None"
proof -
  let ?g = "AddTask GENERATE_MAGENT (demo_client\<lparr>g_worker := ClearQueueTasks (g_worker demo_client)\<rparr>)"
  have g: "g_stub ?g" "w_pc (g_worker ?g) = WLoop" "queueMessages (w_queue (g_worker ?g)) = Some GENERATE_MAGENT # []"
    using demo_client_run
    by (simp_all add: AddTask_def EnqueueTask_def ClearQueueTasks_def Push_def Clear_def)
      (simp add: demo_client_def client_eval demo_stub_def demo_cb_def)
  have "sa_GetInfoForGenerateTorrents ask_stub (GetClientInfo ?g) (wo_srv demo_world) = ((one_torrent ''a'' # [], True), [])"
    by (simp add: ask_stub_def demo_world_def)
  with stop_request_restarts [OF g, where srv = ask_stub and w = demo_world and lt = demo_lt and ds = demo_dirs
      and srt = "sort_by ms_compare" and uuid = "Inr ''u''" and fresh = "''f''" and fs = run_fs and self = 42 and garbage = 0
      and p = 7]
  show ?thesis by blast
qed

end
