(* ===== verification/Posix_IO.thy ===== *)
theory Posix_IO
  imports Posix_FS
begin

text \<open>
  The system calls on descriptors, over the file system of theory \<open>Posix_FS\<close>: \<open>osys\<close> is the file system with
  the open descriptors of the process. The number of a new descriptor and how much of a write the kernel
  takes are fields, so any answer is covered. No other process renames or removes a file that is open.
\<close>

section \<open>The system calls\<close>

record fdesc =
  fd_path :: path
  fd_off :: nat
  fd_write :: bool
  fd_append :: bool

record osys =
  os_fs :: fsys
  os_fds :: "int \<Rightarrow> fdesc option"
  os_next :: nat
  os_takes :: "nat \<Rightarrow> nat"
  os_dir_size :: int

definition O_ACCMODE :: u32 where "O_ACCMODE = 3"
definition O_WRONLY :: u32 where "O_WRONLY = 1"
definition O_RDWR :: u32 where "O_RDWR = 2"
definition O_CREAT :: u32 where "O_CREAT = 0x40"
definition O_EXCL :: u32 where "O_EXCL = 0x80"
definition O_TRUNC :: u32 where "O_TRUNC = 0x200"
definition O_APPEND :: u32 where "O_APPEND = 0x400"

definition has_flag :: "u32 \<Rightarrow> u32 \<Rightarrow> bool" where
  "has_flag flags b \<longleftrightarrow> and flags b \<noteq> 0"

definition open_at :: "fsys \<Rightarrow> string \<Rightarrow> u32 \<Rightarrow> fsys option" where
  "open_at fs p flags =
     (if p = '''' \<or> fs_refuse fs SysOpen (resolve p) then None
      else (case fs_nodes fs (resolve p) of
              None \<Rightarrow>
                if has_flag flags O_CREAT \<and> \<not> needs_dir p \<and> is_dir fs (butlast (resolve p))
                then Some (set_node (resolve p) (RegNode '''') fs) else None
            | Some (RegNode d) \<Rightarrow>
                if needs_dir p \<or> has_flag flags O_CREAT \<and> has_flag flags O_EXCL then None
                else Some (if has_flag flags O_TRUNC then set_node (resolve p) (RegNode '''') fs else fs)
            | Some (DirNode m) \<Rightarrow>
                if and flags O_ACCMODE \<noteq> 0 \<or> has_flag flags O_CREAT then None else Some fs))"

definition sys_open :: "string \<Rightarrow> u32 \<Rightarrow> osys \<Rightarrow> int \<times> osys" where
  "sys_open p flags os =
     (case open_at (os_fs os) p flags of
        None \<Rightarrow> (-1, os)
      | Some fs1 \<Rightarrow>
          (int (os_next os),
           os\<lparr>os_fs := fs1, os_next := Suc (os_next os),
              os_fds := (os_fds os)(int (os_next os) \<mapsto>
                \<lparr>fd_path = resolve p, fd_off = 0, fd_write = (and flags O_ACCMODE \<noteq> 0), fd_append = has_flag flags O_APPEND\<rparr>)\<rparr>))"

text \<open>
  \<^verbatim>\<open>write(2)\<close> returns how many bytes were taken, which may be fewer than asked for, or \<^verbatim>\<open>-1\<close>. A gap is
  filled with zeros.
\<close>

definition put_bytes :: "nat \<Rightarrow> string \<Rightarrow> string \<Rightarrow> string" where
  "put_bytes off bytes d =
     take off (d @ replicate (off - length d) (char_of (0 :: nat))) @ bytes @ drop (off + length bytes) d"

definition sys_write :: "int \<Rightarrow> string \<Rightarrow> osys \<Rightarrow> int \<times> osys" where
  "sys_write fd data os =
     (case os_fds os fd of
        None \<Rightarrow> (-1, os)
      | Some e \<Rightarrow>
          (case fs_nodes (os_fs os) (fd_path e) of
             Some (RegNode d) \<Rightarrow>
               if \<not> fd_write e \<or> fs_refuse (os_fs os) SysWrite (fd_path e) then (-1, os)
               else (let bytes = take (os_takes os (length data)) data;
                         off = (if fd_append e then length d else fd_off e)
                     in (int (length bytes),
                         os\<lparr>os_fs := set_node (fd_path e) (RegNode (put_bytes off bytes d)) (os_fs os),
                            os_fds := (os_fds os)(fd \<mapsto> e\<lparr>fd_off := off + length bytes\<rparr>)\<rparr>))
           | _ \<Rightarrow> (-1, os)))"

text \<open>\<^verbatim>\<open>lseek(fd, 0, SEEK_END)\<close>\<close>

definition sys_seek_end :: "int \<Rightarrow> osys \<Rightarrow> int \<times> osys" where
  "sys_seek_end fd os =
     (case os_fds os fd of
        None \<Rightarrow> (-1, os)
      | Some e \<Rightarrow>
          (case fs_nodes (os_fs os) (fd_path e) of
             Some (RegNode d) \<Rightarrow> (int (length d), os\<lparr>os_fds := (os_fds os)(fd \<mapsto> e\<lparr>fd_off := length d\<rparr>)\<rparr>)
           | _ \<Rightarrow> (-1, os)))"

text \<open>\<^verbatim>\<open>close(2)\<close> gives the descriptor back even when it reports an error, as Linux does.\<close>

definition sys_close :: "int \<Rightarrow> osys \<Rightarrow> bool \<times> osys" where
  "sys_close fd os =
     (case os_fds os fd of
        None \<Rightarrow> (False, os)
      | Some e \<Rightarrow> (\<not> fs_refuse (os_fs os) SysClose (fd_path e), os\<lparr>os_fds := (os_fds os)(fd := None)\<rparr>))"

definition sys_truncate :: "string \<Rightarrow> fsys \<Rightarrow> fsys option" where
  "sys_truncate p fs =
     (case sys_stat fs p of
        Some (RegNode d) \<Rightarrow>
          if fs_refuse fs SysTruncate (resolve p) then None else Some (set_node (resolve p) (RegNode '''') fs)
      | _ \<Rightarrow> None)"

text \<open>\<^verbatim>\<open>rename(2)\<close> moves what is at and below the old name.\<close>

definition move_tree :: "path \<Rightarrow> path \<Rightarrow> fsys \<Rightarrow> fsys" where
  "move_tree a b fs = fs\<lparr>fs_nodes := (\<lambda>q.
     if take (length b) q = b then fs_nodes fs (a @ drop (length b) q)
     else if take (length a) q = a then None else fs_nodes fs q)\<rparr>"

definition rename_ok :: "fsys \<Rightarrow> string \<Rightarrow> string \<Rightarrow> node \<Rightarrow> bool" where
  "rename_ok fs old new n \<longleftrightarrow>
     new \<noteq> '''' \<and> resolve old \<noteq> [] \<and> resolve new \<noteq> [] \<and> \<not> fs_refuse fs SysRename (resolve old)
     \<and> is_dir fs (butlast (resolve new))
     \<and> take (length (resolve old)) (resolve new) \<noteq> resolve old
     \<and> (case n of
          RegNode d \<Rightarrow> \<not> needs_dir new \<and> \<not> is_dir fs (resolve new)
        | DirNode m \<Rightarrow> fs_nodes fs (resolve new) = None
            \<or> is_dir fs (resolve new) \<and> (\<forall>c. fs_nodes fs (resolve new @ [c]) = None))"

definition sys_rename :: "string \<Rightarrow> string \<Rightarrow> fsys \<Rightarrow> fsys option" where
  "sys_rename old new fs =
     (case sys_stat fs old of
        None \<Rightarrow> None
      | Some n \<Rightarrow>
          if new \<noteq> '''' \<and> resolve old = resolve new then Some fs
          else if rename_ok fs old new n then Some (move_tree (resolve old) (resolve new) fs) else None)"

end
