(* ===== verification/File_Object.thy ===== *)
theory File_Object
  imports Filesystem Posix_IO
begin

text \<open>
  Class \<^verbatim>\<open>File\<close> of \<^verbatim>\<open>Daemon/common/filesystem.{h,cpp}\<close>: an object that opens its file when it is first
  written to. The object is \<open>fobj\<close>; the system calls are those of theory \<open>Posix_IO\<close>. A write that the kernel
  takes only in part is not noticed by the class.
\<close>

section \<open>The object\<close>

record fobj =
  m_openFileParams :: u32
  m_fullPath :: string
  m_fileName :: string
  m_dirName :: string
  m_fileDescriptor :: int

text \<open>The getters and setters.\<close>

definition GetFullPath :: "fobj \<Rightarrow> string" where
  "GetFullPath f = m_fullPath f"

definition File_GetFileName :: "fobj \<Rightarrow> string" where
  "File_GetFileName f = m_fileName f"

definition File_GetDirectory :: "fobj \<Rightarrow> string" where
  "File_GetDirectory f = m_dirName f"

definition SetFileDescriptor :: "int \<Rightarrow> fobj \<Rightarrow> fobj" where
  "SetFileDescriptor fd f = f\<lparr>m_fileDescriptor := fd\<rparr>"

definition GetFileDescriptor :: "fobj \<Rightarrow> int" where
  "GetFileDescriptor f = m_fileDescriptor f"

definition SetFileParameters :: "u32 \<Rightarrow> fobj \<Rightarrow> fobj" where
  "SetFileParameters params f = f\<lparr>m_openFileParams := params\<rparr>"

definition GetFileParameters :: "fobj \<Rightarrow> u32" where
  "GetFileParameters f = m_openFileParams f"

lemmas file_fields [simp] = GetFullPath_def File_GetFileName_def File_GetDirectory_def SetFileDescriptor_def GetFileDescriptor_def
  SetFileParameters_def GetFileParameters_def

definition default_flags :: u32 where
  "default_flags = or O_CREAT (or O_RDWR O_TRUNC)"

definition File_new :: "string \<Rightarrow> u32 \<Rightarrow> fobj" where
  "File_new fullPath params =
     (let (dir, name) = (case find_last_of (CHR ''/'') fullPath of
            Some pos \<Rightarrow> (take pos fullPath, drop (pos + 1) fullPath)
          | None \<Rightarrow> (''./'', fullPath))
      in \<lparr>m_openFileParams = params, m_fullPath = fullPath, m_fileName = name, m_dirName = dir, m_fileDescriptor = -1\<rparr>)"

definition IsOpened :: "fobj \<Rightarrow> bool" where
  "IsOpened f \<longleftrightarrow> -1 \<noteq> m_fileDescriptor f"

definition File_Open :: "fobj \<times> osys \<Rightarrow> unit outcome \<times> (fobj \<times> osys)" where
  "File_Open = (\<lambda>(f, os).
     if IsOpened f then (Ret (), (f, os))
     else (let os1 = os\<lparr>os_fs := CreateFolder (m_dirName f) (os_fs os)\<rparr>;
               (fd, os2) = sys_open (m_fullPath f) (m_openFileParams f) os1
           in if fd = -1 then (Throw (Ios_Failure (''Can't open file: '' @ m_fullPath f)), (f, os2))
              else (Ret (), (f\<lparr>m_fileDescriptor := fd\<rparr>, os2))))"

text \<open>Reading past the terminating zero of the string is undefined.\<close>

definition File_Write :: "string \<Rightarrow> int \<Rightarrow> fobj \<times> osys \<Rightarrow> unit outcome \<times> (fobj \<times> osys)" where
  "File_Write data len s0 =
     and_then (File_Open s0) (\<lambda>_ (f, os).
       if \<not> IsOpened f then (Throw (Ios_Failure (''File does not open: '' @ m_fullPath f)), (f, os))
       else (let bufLength = (if len = -1 then int (length data) else len)
             in if bufLength > 0
                then if bufLength > int (length data) + 1 then (Undefined, (f, os))
                     else (let (n, os1) = sys_write (m_fileDescriptor f) (take (nat bufLength) (data @ [char_of (0 :: nat)])) os
                           in if n = -1 then (Throw (Ios_Failure (''Can't write data to file: '' @ m_fileName f)), (f, os1))
                              else (Ret (), (f, os1)))
                else (Ret (), (f, os))))"

definition File_Trunc :: "fobj \<times> osys \<Rightarrow> unit outcome \<times> (fobj \<times> osys)" where
  "File_Trunc = (\<lambda>(f, os).
     case sys_truncate (m_fullPath f) (os_fs os) of
       None \<Rightarrow> (Throw (Ios_Failure (''Can't truncate file: '' @ m_fullPath f)), (f, os))
     | Some fs1 \<Rightarrow> (Ret (), (f, os\<lparr>os_fs := fs1\<rparr>)))"

definition File_Close :: "fobj \<times> osys \<Rightarrow> unit outcome \<times> (fobj \<times> osys)" where
  "File_Close = (\<lambda>(f, os).
     if IsOpened f
     then (case sys_close (m_fileDescriptor f) os of
             (False, os1) \<Rightarrow> (Throw (Ios_Failure (''Can't close file: '' @ m_fullPath f)), (f, os1))
           | (True, os1) \<Rightarrow> (Ret (), (f\<lparr>m_fileDescriptor := -1\<rparr>, os1)))
     else (Ret (), (f, os)))"

text \<open>The destructor closes; an exception that would leave it ends the process (\<open>None\<close>).\<close>

definition File_destroy :: "fobj \<times> osys \<Rightarrow> osys option" where
  "File_destroy s =
     (case File_Close s of
        (Ret _, (f, os)) \<Rightarrow> Some os
      | _ \<Rightarrow> None)"

definition File_ForceClose :: "fobj \<times> osys \<Rightarrow> fobj \<times> osys" where
  "File_ForceClose s =
     (case File_Close s of
        (Throw e, (f, os)) \<Rightarrow> (f\<lparr>m_fileDescriptor := -1\<rparr>, os)
      | (r, s1) \<Rightarrow> s1)"

definition File_Remove :: "fobj \<times> osys \<Rightarrow> unit outcome \<times> (fobj \<times> osys)" where
  "File_Remove s =
     and_then (File_Close s) (\<lambda>_ (f, os).
       case Remove (m_fileName f) (os_fs os) of
         (Inl e, fs1) \<Rightarrow> (Throw e, (f, os\<lparr>os_fs := fs1\<rparr>))
       | (Inr _, fs1) \<Rightarrow> (Ret (), (f, os\<lparr>os_fs := fs1\<rparr>)))"

definition File_Move :: "string \<Rightarrow> fobj \<times> osys \<Rightarrow> unit outcome \<times> (fobj \<times> osys)" where
  "File_Move newPath s =
     and_then (if IsOpened (fst s) then File_Close s else (Ret (), s)) (\<lambda>_ (f, os).
       case sys_rename (m_fullPath f) newPath (os_fs os) of
         None \<Rightarrow> (Throw (Ios_Failure (''Can't rename '' @ m_fullPath f @ '' to '' @ newPath)), (f, os))
       | Some fs1 \<Rightarrow> (Ret (), (f, os\<lparr>os_fs := fs1\<rparr>)))"

text \<open>The size is returned as an \<^verbatim>\<open>int\<close>.\<close>

definition GetFileSize :: "fobj \<times> osys \<Rightarrow> int outcome" where
  "GetFileSize = (\<lambda>(f, os).
     case os_fds os (m_fileDescriptor f) of
       None \<Rightarrow> Throw (Ios_Failure (''Can't get stat of file: '' @ m_fullPath f))
     | Some e \<Rightarrow>
         (case fs_nodes (os_fs os) (fd_path e) of
            Some (RegNode d) \<Rightarrow> Ret (sint (word_of_nat (length d) :: u32))
          | _ \<Rightarrow> Ret (os_dir_size os)))"

section \<open>Paths of the object\<close>

lemma File_new_path:
  assumes "p \<noteq> ''''" and "\<not> needs_dir p"
  shows "resolve p \<noteq> []" and "resolve (m_dirName (File_new p flags)) = butlast (resolve p)"
    and "CHR ''/'' \<in> set p \<Longrightarrow> m_fileName (File_new p flags) = last (resolve p)"
proof -
  have dot: "resolve ''./'' = []" by (simp add: resolve_def)
  have "resolve p \<noteq> [] \<and> resolve (m_dirName (File_new p flags)) = butlast (resolve p)
      \<and> (CHR ''/'' \<in> set p \<longrightarrow> m_fileName (File_new p flags) = last (resolve p))"
  proof (cases "find_last_of (CHR ''/'') p")
    case None
    then have plain: "CHR ''/'' \<notin> set p" by (simp add: find_last_of_None)
    then have "p \<noteq> ''.''" using assms(2) by (auto simp: needs_dir_def split_on_plain)
    with plain assms(1) None dot show ?thesis by (simp add: File_new_def resolve_plain)
  next
    case (Some i)
    let ?n = "drop (i + 1) p"
    from find_last_of_Some [OF Some] have split: "p = take i p @ CHR ''/'' # ?n" and plain: "CHR ''/'' \<notin> set ?n"
      by (auto simp: Cons_nth_drop_Suc id_take_nth_drop)
    have "?n \<noteq> ''''" "?n \<noteq> ''.''" using assms(2) needs_dir_file [OF plain, of "take i p"] split by auto
    then have "resolve p = resolve (take i p) @ [?n]"
      using resolve_append [of "take i p" ?n] resolve_plain [OF plain] split by simp
    with Some show ?thesis by (simp add: File_new_def)
  qed
  then show "resolve p \<noteq> []" and "resolve (m_dirName (File_new p flags)) = butlast (resolve p)"
    and "CHR ''/'' \<in> set p \<Longrightarrow> m_fileName (File_new p flags) = last (resolve p)" by blast+
qed

lemma File_new_name_plain: "CHR ''/'' \<notin> set (m_fileName (File_new p flags))"
  by (auto simp: File_new_def find_last_of_None split: option.split dest!: find_last_of_Some)

lemma default_flags_has [simp]:
  "has_flag default_flags O_CREAT" "has_flag default_flags O_TRUNC" "\<not> has_flag default_flags O_EXCL"
  "\<not> has_flag default_flags O_APPEND" "and default_flags O_ACCMODE \<noteq> 0"
  by (simp_all add: has_flag_def default_flags_def O_CREAT_def O_RDWR_def O_TRUNC_def O_EXCL_def O_APPEND_def O_ACCMODE_def)

section \<open>Writing\<close>

text \<open>The object has its file open at the end of the content \<open>c\<close>.\<close>

definition writing :: "path \<Rightarrow> string \<Rightarrow> fobj \<times> osys \<Rightarrow> bool" where
  "writing F c = (\<lambda>(f, os).
     IsOpened f \<and> fs_nodes (os_fs os) F = Some (RegNode c)
     \<and> os_fds os (m_fileDescriptor f) = Some \<lparr>fd_path = F, fd_off = length c, fd_write = True, fd_append = False\<rparr>
     \<and> \<not> fs_refuse (os_fs os) SysWrite F \<and> \<not> fs_refuse (os_fs os) SysClose F \<and> os_takes os = (\<lambda>n. n))"

lemma writing_Write:
  assumes "writing F c (f, os)"
  shows "\<exists>os1. File_Write d (-1) (f, os) = (Ret (), (f, os1)) \<and> writing F (c @ d) (f, os1)
    \<and> (\<forall>q. q \<noteq> F \<longrightarrow> fs_nodes (os_fs os1) q = fs_nodes (os_fs os) q)"
  using assms
  by (cases "d = ''''") (auto simp: writing_def File_Write_def File_Open_def sys_write_def put_bytes_def Let_def)

lemma writing_all:
  assumes "writing F c (f, os)"
  shows "\<exists>os1. for_each (\<lambda>d. File_Write d (-1)) ds (f, os) = (Ret (), (f, os1)) \<and> writing F (c @ concat ds) (f, os1)
    \<and> (\<forall>q. q \<noteq> F \<longrightarrow> fs_nodes (os_fs os1) q = fs_nodes (os_fs os) q)"
  using assms
proof (induction ds arbitrary: c os)
  case (Cons d ds)
  obtain os1 where o1: "File_Write d (-1) (f, os) = (Ret (), (f, os1))" "writing F (c @ d) (f, os1)"
    "\<forall>q. q \<noteq> F \<longrightarrow> fs_nodes (os_fs os1) q = fs_nodes (os_fs os) q"
    using writing_Write [OF Cons.prems, of d] by blast
  from Cons.IH [OF o1(2)] o1 show ?case by auto
qed simp

lemma writing_Open:
  assumes "fs_ok (os_fs os)" and "p \<noteq> ''''" and "\<not> needs_dir p" and "F = resolve p"
    and "way_free (os_fs os) [] (butlast F)" and "\<not> is_dir (os_fs os) F" and "os_takes os = (\<lambda>n. n)"
    and "\<not> fs_refuse (os_fs os) SysOpen F" and "\<not> fs_refuse (os_fs os) SysWrite F" and "\<not> fs_refuse (os_fs os) SysClose F"
  shows "\<exists>f os1. File_Open (File_new p default_flags, os) = (Ret (), (f, os1)) \<and> writing F '''' (f, os1)
    \<and> (\<forall>q n. q \<noteq> F \<and> fs_nodes (os_fs os) q = Some n \<longrightarrow> fs_nodes (os_fs os1) q = Some n)"
proof -
  note path = File_new_path(1) [OF assms(2,3)] File_new_path(2) [OF assms(2,3), of default_flags]
  let ?fs = "CreateFolder (m_dirName (File_new p default_flags)) (os_fs os)"
  have eq: "?fs = mkdirs (os_fs os) [] (butlast F)"
    using CreateFolder_mkdirs [OF assms(1)] path(2) assms(4) by simp
  have refuse: "fs_refuse ?fs = fs_refuse (os_fs os)" by (simp add: eq)
  have dir: "is_dir ?fs (butlast F)"
    using mkdirs_reaches [of "os_fs os" "[]" "butlast F"] assms(1,5) by (simp add: eq fs_ok_root)
  have keeps: "fs_nodes (os_fs os) q = Some n \<Longrightarrow> fs_nodes ?fs q = Some n" for q n
    by (simp add: eq mkdirs_keeps)
  have F: "F \<noteq> []" using path(1) assms(4) by simp
  have nF: "\<not> is_dir ?fs F"
  proof (cases "fs_nodes (os_fs os) F")
    case None
    show ?thesis
    proof
      assume "is_dir ?fs F"
      then obtain m where "fs_nodes ?fs F = Some (DirNode m)" by (auto dest: is_dirD)
      with mkdirs_only_prefixes [of "os_fs os" F "[]" "butlast F"] None
      obtain k where "F = take k (butlast F)" by (auto simp: eq)
      then have "length F \<le> length (butlast F)" by (metis length_take min.cobounded1)
      then have "length F \<le> length F - 1" by (simp only: length_butlast)
      moreover have "0 < length F" using F by simp
      ultimately show False by arith
    qed
  next
    case (Some n)
    with keeps [OF Some] assms(6) show ?thesis by (auto simp: is_dir_def)
  qed
  have node: "fs_nodes ?fs F = None \<or> (\<exists>d. fs_nodes ?fs F = Some (RegNode d))"
    using nF by (auto simp: is_dir_def split: option.splits node.splits)
  have "open_at ?fs p default_flags = Some (set_node F (RegNode '''') ?fs)"
    using node assms(2-4,8) dir refuse by (auto simp: open_at_def)
  moreover have "m_fullPath (File_new p default_flags) = p" "m_openFileParams (File_new p default_flags) = default_flags"
    "\<not> IsOpened (File_new p default_flags)"
    by (simp_all add: File_new_def IsOpened_def split_def Let_def)
  ultimately show ?thesis
    using assms(4,7,9,10) refuse keeps
    by (auto simp: File_Open_def sys_open_def writing_def IsOpened_def)
qed

section \<open>What the class promises\<close>


definition demo_os :: osys where
  "demo_os = \<lparr>os_fs = root_fs, os_fds = (\<lambda>_. None), os_next = 3, os_takes = (\<lambda>n. n), os_dir_size = 4096\<rparr>"


text \<open>\<open>Remove\<close> of a \<open>File\<close> in a folder other than the root does not remove it: it passes the file's base
  name alone to the function that removes a path, so the file stays, and a file of that name in the working
  directory is removed in its place.\<close>

lemma File_Remove_misses:
  assumes "p \<noteq> ''''" and "\<not> needs_dir p" and "CHR ''/'' \<in> set p" and "butlast (resolve p) \<noteq> []"
    and "fs_nodes fs (resolve p) = Some n" and "fs_nodes fs [last (resolve p)] = Some (RegNode d)"
    and "\<not> fs_refuse fs SysRemove [last (resolve p)]"
  shows "\<exists>f1 os1. File_Remove (File_new p flags, os\<lparr>os_fs := fs\<rparr>) = (Ret (), (f1, os1))
    \<and> fs_nodes (os_fs os1) (resolve p) = Some n \<and> fs_nodes (os_fs os1) [last (resolve p)] = None"
proof -
  let ?n = "m_fileName (File_new p flags)"
  have n: "?n = last (resolve p)" "resolve p \<noteq> []"
    using File_new_path(3) [OF assms(1,2,3)] File_new_path(1) [OF assms(1,2)] by simp_all
  have "last (resolve p) \<in> set (resolve p)" using n(2) by simp
  then have w: "?n \<noteq> ''''" "?n \<noteq> ''.''" using n(1) by (auto simp: resolve_def)
  have plain: "CHR ''/'' \<notin> set ?n" by (rule File_new_name_plain)
  have r: "resolve ?n = [last (resolve p)]" "\<not> needs_dir ?n"
    using resolve_plain [OF plain] split_on_plain [OF plain] n(1) w by (auto simp: needs_dir_def)
  then have "sys_remove fs ?n = Some (del_node [last (resolve p)] fs)"
    using assms(6,7) w(1) by (simp add: sys_remove_def sys_stat_def)
  moreover have "resolve p \<noteq> [last (resolve p)]" using assms(4) n(2) by (metis butlast.simps(2))
  moreover have "\<not> IsOpened (File_new p flags)" by (simp add: File_new_def IsOpened_def split_def Let_def)
  ultimately show ?thesis
    using assms(5) by (auto simp: File_Remove_def File_Close_def Remove_def)
qed

end
