(* ===== verification/Log_Text.thy ===== *)
theory Log_Text
  imports Prelude
begin

text \<open>
  The text the daemon's logger writes: \<^verbatim>\<open>plog/include/plog/Severity.h\<close>, \<^verbatim>\<open>Record.h\<close>, the string functions
  of \<^verbatim>\<open>Util.h\<close>, the formatters and the UTF-8 converter, as they are built on Linux. The broken-down local
  time is the result of the parameter \<open>localtime\<close>; an object's address comes as the text the stream prints.
  A \<^verbatim>\<open>const char*\<close> taken from a \<^verbatim>\<open>std::string\<close> ends at its first zero, which is \<open>c_str\<close>.
\<close>

abbreviation dquote :: char where "dquote \<equiv> CHR 0x22"
abbreviation newline :: char where "newline \<equiv> CHR 0x0A"
abbreviation semicolon :: char where "semicolon \<equiv> CHR 0x3B"

definition c_str :: "string \<Rightarrow> string" where
  "c_str s = takeWhile (\<lambda>c. c \<noteq> CHR 0x00) s"

section \<open>Severity\<close>

datatype severity = none | fatal | error | warning | info | debug | verbose

fun sev_num :: "severity \<Rightarrow> nat" where
  "sev_num none = 0" | "sev_num fatal = 1" | "sev_num error = 2" | "sev_num warning = 3"
| "sev_num info = 4" | "sev_num debug = 5" | "sev_num verbose = 6"

fun severityToString :: "severity \<Rightarrow> string" where
  "severityToString fatal = ''FATAL''"
| "severityToString error = ''ERROR''"
| "severityToString warning = ''WARN''"
| "severityToString info = ''INFO''"
| "severityToString debug = ''DEBUG''"
| "severityToString verbose = ''VERB''"
| "severityToString none = ''NONE''"

text \<open>The loop over the severities compares first characters; that of an empty string is the terminating zero.\<close>

definition first_char :: "string \<Rightarrow> char" where
  "first_char s = (case c_str s of [] \<Rightarrow> CHR 0x00 | c # _ \<Rightarrow> c)"

definition severityFromString :: "string \<Rightarrow> severity" where
  "severityFromString str =
     (case find (\<lambda>s. first_char (severityToString s) = first_char str) [fatal, error, warning, info, debug, verbose] of
        Some s \<Rightarrow> s
      | None \<Rightarrow> none)"

section \<open>Names of functions and files\<close>

text \<open>\<open>processFuncName\<close>: what stands between the last space before the first parenthesis and that parenthesis.\<close>

definition processFuncName :: "string \<Rightarrow> string" where
  "processFuncName func =
     (case find_first (CHR ''('') func of
        None \<Rightarrow> func
      | Some funcEnd \<Rightarrow>
          (case find_last_of (CHR '' '') (take funcEnd func) of
             None \<Rightarrow> take funcEnd func
           | Some i \<Rightarrow> drop (i + 1) (take funcEnd func)))"

definition findExtensionDot :: "string \<Rightarrow> nat option" where
  "findExtensionDot fileName = find_last_of (CHR ''.'') fileName"

definition splitFileName :: "string \<Rightarrow> string \<times> string" where
  "splitFileName fileName =
     (case findExtensionDot fileName of
        Some dot \<Rightarrow> (take dot fileName, drop (dot + 1) fileName)
      | None \<Rightarrow> (fileName, ''''))"

definition isCsv :: "string \<Rightarrow> bool" where
  "isCsv fileName =
     (case findExtensionDot fileName of
        Some dot \<Rightarrow> drop dot fileName = ''.csv''
      | None \<Rightarrow> False)"

section \<open>Records\<close>

record log_time =
  tm_year :: int
  tm_mon :: int
  tm_mday :: int
  tm_hour :: int
  tm_min :: int
  tm_sec :: int

record log_record =
  m_time :: int
  m_millitm :: "16 word"
  m_severity :: severity
  m_tid :: u32
  m_object :: string
  m_line :: nat
  m_message :: string
  m_func :: string

text \<open>
  The constructor takes the time of the day, in seconds and microseconds, and the number of the thread from
  the system; the milliseconds are kept in 16 bits.
\<close>

definition ftime :: "int \<times> int \<Rightarrow> int \<times> 16 word" where
  "ftime tv = (fst tv, word_of_int (snd tv div 1000))"

definition Record_new :: "int \<times> int \<Rightarrow> u32 \<Rightarrow> severity \<Rightarrow> string \<Rightarrow> nat \<Rightarrow> string \<Rightarrow> log_record" where
  "Record_new timeofday tid sev func line obj =
     \<lparr>m_time = fst (ftime timeofday), m_millitm = snd (ftime timeofday), m_severity = sev, m_tid = tid,
      m_object = obj, m_line = line, m_message = '''', m_func = func\<rparr>"

definition getMessage :: "log_record \<Rightarrow> string" where
  "getMessage r = c_str (m_message r)"

definition getFunc :: "log_record \<Rightarrow> string" where
  "getFunc r = c_str (processFuncName (c_str (m_func r)))"

text \<open>
  The free operators that write to a record: a null pointer is written as \<^verbatim>\<open>(null)\<close>, a string up to its
  first zero, a character as a string of length one or zero.
\<close>

definition put_cstring :: "string option \<Rightarrow> log_record \<Rightarrow> log_record" where
  "put_cstring data r = r\<lparr>m_message := m_message r @ (case data of None \<Rightarrow> ''(null)'' | Some s \<Rightarrow> c_str s)\<rparr>"

definition put_string :: "string \<Rightarrow> log_record \<Rightarrow> log_record" where
  "put_string data r = put_cstring (Some (c_str data)) r"

definition put_char :: "char \<Rightarrow> log_record \<Rightarrow> log_record" where
  "put_char c r = put_cstring (Some [c]) r"

section \<open>Formatters\<close>

text \<open>\<^verbatim>\<open>setw\<close> with \<^verbatim>\<open>setfill\<close>, right-aligned and left-aligned.\<close>

definition pad_left :: "char \<Rightarrow> nat \<Rightarrow> string \<Rightarrow> string" where
  "pad_left c w s = replicate (w - length s) c @ s"

definition pad_right :: "char \<Rightarrow> nat \<Rightarrow> string \<Rightarrow> string" where
  "pad_right c w s = s @ replicate (w - length s) c"

definition two :: "int \<Rightarrow> string" where
  "two n = pad_left (CHR ''0'') 2 (show_int n)"

definition show_date :: "char \<Rightarrow> log_time \<Rightarrow> string" where
  "show_date sep t = show_int (tm_year t + 1900) @ [sep] @ two (tm_mon t + 1) @ [sep] @ two (tm_mday t)"

definition show_clock :: "log_time \<Rightarrow> 16 word \<Rightarrow> string" where
  "show_clock t millitm =
     two (tm_hour t) @ '':'' @ two (tm_min t) @ '':'' @ two (tm_sec t) @ ''.'' @ pad_left (CHR ''0'') 3 (show_nat (unat millitm))"

definition TxtFormatter_header :: string where
  "TxtFormatter_header = ''''"

definition TxtFormatter_format :: "(int \<Rightarrow> log_time) \<Rightarrow> log_record \<Rightarrow> string" where
  "TxtFormatter_format localtime r =
     (let t = localtime (m_time r)
      in show_date (CHR ''-'') t @ '' '' @ show_clock t (m_millitm r) @ '' ''
         @ pad_right (CHR '' '') 5 (severityToString (m_severity r)) @ '' ''
         @ ''['' @ show_nat (unat (m_tid r)) @ ''] ''
         @ ''['' @ getFunc r @ ''@'' @ show_nat (m_line r) @ ''] ''
         @ getMessage r @ [newline])"

definition FuncMessage_header :: string where
  "FuncMessage_header = ''''"

definition FuncMessage_format :: "log_record \<Rightarrow> string" where
  "FuncMessage_format r = getFunc r @ ''@'' @ show_nat (m_line r) @ '': '' @ getMessage r @ [newline]"

definition MessageOnly_header :: string where
  "MessageOnly_header = ''''"

definition MessageOnly_format :: "log_record \<Rightarrow> string" where
  "MessageOnly_format r = getMessage r @ [newline]"

definition CsvFormatter_header :: string where
  "CsvFormatter_header = ''Date;Time;Severity;TID;This;Function;Message'' @ [newline]"

definition kMaxMessageSize :: nat where
  "kMaxMessageSize = 32000"

definition csv_message :: "string \<Rightarrow> string" where
  "csv_message message =
     (if length message > kMaxMessageSize then take kMaxMessageSize message @ ''...'' else message)"

text \<open>The loop over \<^verbatim>\<open>std::getline\<close> with the double quote as the separator: it ends with the read that meets the end.\<close>

function csv_split :: "string \<Rightarrow> string" where
  "csv_split s =
     (case find_first dquote s of
        Some pos \<Rightarrow> [dquote] @ take pos s @ [dquote] @ csv_split (drop (pos + 1) s)
      | None \<Rightarrow> [dquote] @ s @ [dquote])"
  by pat_completeness auto
termination
  by (relation "measure length") (auto dest!: find_first_Some)

declare csv_split.simps [simp del]

definition CsvFormatter_format :: "(int \<Rightarrow> log_time) \<Rightarrow> log_record \<Rightarrow> string" where
  "CsvFormatter_format localtime r =
     (let t = localtime (m_time r)
      in show_date (CHR ''/'') t @ [semicolon] @ show_clock t (m_millitm r) @ [semicolon]
         @ severityToString (m_severity r) @ [semicolon]
         @ show_nat (unat (m_tid r)) @ [semicolon]
         @ m_object r @ [semicolon]
         @ getFunc r @ ''@'' @ show_nat (m_line r) @ [semicolon]
         @ csv_split (csv_message (getMessage r))
         @ [newline])"

section \<open>The converter\<close>

definition UTF8_header :: "string \<Rightarrow> string" where
  "UTF8_header str = [CHR 0xEF, CHR 0xBB, CHR 0xBF] @ str"

definition UTF8_convert :: "string \<Rightarrow> string" where
  "UTF8_convert str = str"

section \<open>Facts\<close>

lemma show_nat_semicolon: "CHR 0x3B \<notin> set (show_nat n)"
  by (auto dest: show_nat_free)

lemma show_int_free: "CHR 0x3B \<notin> set (show_int n)"
  by (simp add: show_int_def show_nat_semicolon)

lemma clock_free: "CHR 0x3B \<notin> set (show_clock t n)" "sep \<noteq> CHR 0x3B \<Longrightarrow> CHR 0x3B \<notin> set (show_date sep t)"
  by (simp_all add: show_clock_def show_date_def two_def pad_left_def show_nat_semicolon show_int_free)

lemma severity_free: "CHR 0x3B \<notin> set (severityToString s)"
  by (cases s) simp_all

text \<open>A reader of one quoted field: two quotes stand for one, a single quote ends it.\<close>

fun csv_body :: "string \<Rightarrow> (string \<times> string) option" where
  "csv_body [] = None"
| "csv_body [c] = (if c = dquote then Some ('''', '''') else None)"
| "csv_body (c # d # s) =
     (if c \<noteq> dquote then map_option (\<lambda>(m, r). (c # m, r)) (csv_body (d # s))
      else if d = dquote then map_option (\<lambda>(m, r). (dquote # m, r)) (csv_body s)
      else Some ('''', d # s))"

fun csv_read :: "string \<Rightarrow> (string \<times> string) option" where
  "csv_read [] = None"
| "csv_read (c # s) = (if c = dquote then csv_body s else None)"

lemma csv_body_plain:
  "dquote \<notin> set w \<Longrightarrow> csv_body (w @ dquote # t) = map_option (\<lambda>(m, r). (w @ m, r)) (csv_body (dquote # t))"
proof (induction w)
  case (Cons c w)
  obtain d s where ds: "w @ dquote # t = d # s" by (cases w) auto
  with Cons show ?case by (cases "csv_body (dquote # t)") auto
qed (simp add: option.map_ident split_def)

lemma csv_split_quote: "\<exists>s. csv_split m = dquote # s"
  by (subst csv_split.simps) (simp split: option.split)

lemma csv_read_split: "r \<noteq> dquote \<Longrightarrow> csv_read (csv_split m @ r # rest) = Some (m, r # rest)"
proof (induction m rule: csv_split.induct)
  case (1 m)
  show ?case
  proof (cases "find_first dquote m")
    case None
    then have "dquote \<notin> set m" by (simp add: find_first_None)
    from csv_body_plain [OF this] None 1(2) show ?thesis by (simp add: csv_split.simps [of m])
  next
    case (Some p)
    let ?w = "take p m" and ?m = "drop (p + 1) m"
    from find_first_Some [OF Some] have split: "m = ?w @ dquote # ?m" and plain: "dquote \<notin> set ?w" by auto
    obtain s where s: "csv_split ?m = dquote # s" using csv_split_quote by blast
    from 1(1) [OF Some 1(2)] s have "csv_body (s @ r # rest) = Some (?m, r # rest)" by simp
    then have "csv_body (?w @ dquote # dquote # s @ r # rest) = Some (?w @ dquote # ?m, r # rest)"
      using csv_body_plain [OF plain, of "dquote # s @ r # rest"] by simp
    then show ?thesis using Some s split by (simp add: csv_split.simps [of m])
  qed
qed

lemma split_on_field: "c \<notin> set w \<Longrightarrow> split_on c (w @ c # t) = w # split_on c t"
  by (simp add: split_on_append split_on_plain)

lemma severity_roundtrip: "severityFromString (severityToString s) = s"
  by (cases s) (simp_all add: severityFromString_def first_char_def c_str_def)

section \<open>What a reader of the log gets back\<close>

text \<open>C39: a line of the CSV log can be read back. When neither the function's name nor the object holds a
  semicolon, cutting the line at semicolons gives the date, the time, the severity (from which the severity is
  read back), the thread, the object and the function with its line; what follows is one quoted field, and
  reading it gives the message, whatever characters it holds, up to its first 32000, and then the line's end.\<close>

theorem csv_roundtrip:
  assumes "semicolon \<notin> set (getFunc r)" and "semicolon \<notin> set (m_object r)"
  shows "\<exists>fields sev. CsvFormatter_format localtime r = fields @ csv_split (csv_message (getMessage r)) @ [newline]
    \<and> split_on semicolon fields =
        [show_date (CHR ''/'') (localtime (m_time r)), show_clock (localtime (m_time r)) (m_millitm r), sev,
         show_nat (unat (m_tid r)), m_object r, getFunc r @ ''@'' @ show_nat (m_line r), '''']
    \<and> severityFromString sev = m_severity r
    \<and> csv_read (drop (length fields) (CsvFormatter_format localtime r)) = Some (csv_message (getMessage r), [newline])
    \<and> (length (getMessage r) \<le> 32000 \<longrightarrow> csv_message (getMessage r) = getMessage r)"
proof -
  let ?t = "localtime (m_time r)"
  define fields where "fields = show_date (CHR ''/'') ?t @ semicolon # show_clock ?t (m_millitm r) @ semicolon #
      severityToString (m_severity r) @ semicolon # show_nat (unat (m_tid r)) @ semicolon # m_object r @ semicolon #
      (getFunc r @ ''@'' @ show_nat (m_line r)) @ [semicolon]"
  have eq: "CsvFormatter_format localtime r = fields @ csv_split (csv_message (getMessage r)) @ [newline]"
    by (simp add: CsvFormatter_format_def Let_def fields_def)
  have "semicolon \<notin> set (getFunc r @ ''@'' @ show_nat (m_line r))" "semicolon \<notin> set (show_date (CHR ''/'') ?t)"
    using assms(1) show_nat_semicolon clock_free(2) by simp_all
  then have "split_on semicolon fields =
      [show_date (CHR ''/'') ?t, show_clock ?t (m_millitm r), severityToString (m_severity r),
       show_nat (unat (m_tid r)), m_object r, getFunc r @ ''@'' @ show_nat (m_line r), '''']"
    unfolding fields_def using assms(2)
    by (simp only: split_on_field clock_free(1) severity_free show_nat_semicolon not_False_eq_True split_on.simps if_True)
  moreover have "csv_read (drop (length fields) (CsvFormatter_format localtime r)) = Some (csv_message (getMessage r), [newline])"
    unfolding eq by (simp add: csv_read_split)
  moreover have "length (getMessage r) \<le> 32000 \<longrightarrow> csv_message (getMessage r) = getMessage r"
    by (simp add: csv_message_def kMaxMessageSize_def)
  ultimately show ?thesis
    using eq severity_roundtrip [of "m_severity r"]
    by (intro exI [of _ fields] exI [of _ "severityToString (m_severity r)"]) blast
qed

definition demo_record :: log_record where
  "demo_record = \<lparr>m_time = 0, m_millitm = 7, m_severity = error, m_tid = 42, m_object = ''0'', m_line = 12,
     m_message = [CHR ''a'', CHR 0x22, CHR 0x3B], m_func = ''void ns::f(int)''\<rparr>"

definition demo_local :: "int \<Rightarrow> log_time" where
  "demo_local = (\<lambda>_. \<lparr>tm_year = 70, tm_mon = 0, tm_mday = 1, tm_hour = 0, tm_min = 0, tm_sec = 0\<rparr>)"

theorem csv_roundtrip_witness:
  "\<exists>fields :: string. csv_read (drop (length fields) (CsvFormatter_format demo_local demo_record)) = Some ([CHR ''a'', CHR 0x22, CHR 0x3B], [newline])"
proof -
  have "getFunc demo_record = ''ns::f''"
    by (simp add: getFunc_def demo_record_def processFuncName_def c_str_def)
  then have f: "semicolon \<notin> set (getFunc demo_record)" "semicolon \<notin> set (m_object demo_record)"
    by (simp_all add: demo_record_def)
  have m: "getMessage demo_record = [CHR ''a'', CHR 0x22, CHR 0x3B]"
    by (simp add: demo_record_def getMessage_def c_str_def)
  from csv_roundtrip [OF f, of demo_local]
  obtain fields :: string where "csv_read (drop (length fields) (CsvFormatter_format demo_local demo_record)) = Some (csv_message (getMessage demo_record), [newline])"
    by blast
  then show ?thesis by (intro exI) (simp add: m csv_message_def kMaxMessageSize_def)
qed

end
