(* ===== verification/Rolling_File.thy ===== *)
theory Rolling_File
  imports Posix_IO Log_Text
begin

text \<open>
  The appender the daemon logs through: class \<^verbatim>\<open>File\<close> of \<^verbatim>\<open>plog/include/plog/Util.h\<close> and
  \<^verbatim>\<open>plog/include/plog/Appenders/RollingFileAppender.h\<close>, over the system calls of theory \<open>Posix_IO\<close>, and the
  logger of \<^verbatim>\<open>Logger.h\<close> that hands it the records. The mutex makes a write one atomic operation. What the
  formatter makes of a record is an argument, so every formatter of theory \<open>Log_Text\<close> is covered.
\<close>

section \<open>The file\<close>

text \<open>The descriptor is the state of the class; it is \<^verbatim>\<open>-1\<close> while no file is open.\<close>

definition lf_flags :: u32 where
  "lf_flags = or O_CREAT O_WRONLY"

definition lf_seek_end :: "int \<Rightarrow> osys \<Rightarrow> int \<times> osys" where
  "lf_seek_end fd os = (if fd \<noteq> -1 then sys_seek_end fd os else (-1, os))"

definition lf_open :: "string \<Rightarrow> osys \<Rightarrow> int \<times> int \<times> osys" where
  "lf_open fileName os =
     (let (fd, os1) = sys_open fileName lf_flags os;
          (size, os2) = lf_seek_end fd os1
      in (size, fd, os2))"

text \<open>The number of bytes is narrowed to an \<^verbatim>\<open>int\<close>.\<close>

definition lf_write :: "int \<Rightarrow> string \<Rightarrow> osys \<Rightarrow> int \<times> osys" where
  "lf_write fd buf os =
     (if fd \<noteq> -1 then (let (n, os1) = sys_write fd buf os in (sint (word_of_int n :: u32), os1))
      else (-1, os))"

definition lf_close :: "int \<Rightarrow> osys \<Rightarrow> int \<times> osys" where
  "lf_close fd os = (if fd \<noteq> -1 then (-1, snd (sys_close fd os)) else (fd, os))"

definition lf_unlink :: "string \<Rightarrow> osys \<Rightarrow> osys" where
  "lf_unlink fileName os = os\<lparr>os_fs := sys_unlink fileName (os_fs os)\<rparr>"

definition lf_rename :: "string \<Rightarrow> string \<Rightarrow> osys \<Rightarrow> osys" where
  "lf_rename old new os =
     (case sys_rename old new (os_fs os) of
        None \<Rightarrow> os
      | Some fs1 \<Rightarrow> os\<lparr>os_fs := fs1\<rparr>)"

section \<open>The appender\<close>

record rfa =
  rf_file :: int
  rf_fileSize :: int
  rf_maxFileSize :: int
  rf_lastFileNumber :: int
  rf_fileExt :: string
  rf_fileNameNoExt :: string
  rf_firstWrite :: bool

definition RollingFileAppender :: "string \<Rightarrow> 64 word \<Rightarrow> int \<Rightarrow> rfa" where
  "RollingFileAppender fileName maxFileSize maxFiles =
     \<lparr>rf_file = -1, rf_fileSize = 0, rf_maxFileSize = max (sint maxFileSize) 1000,
      rf_lastFileNumber = max (maxFiles - 1) 0, rf_fileExt = snd (splitFileName fileName),
      rf_fileNameNoExt = fst (splitFileName fileName), rf_firstWrite = True\<rparr>"

definition buildFileName :: "rfa \<Rightarrow> nat \<Rightarrow> string" where
  "buildFileName r fileNumber =
     rf_fileNameNoExt r
     @ (if fileNumber > 0 then ''.'' @ show_nat fileNumber else '''')
     @ (if rf_fileExt r \<noteq> '''' then ''.'' @ rf_fileExt r else '''')"

definition openLogFile :: "string \<Rightarrow> rfa \<times> osys \<Rightarrow> rfa \<times> osys" where
  "openLogFile header = (\<lambda>(r, os).
     let (size, fd, os1) = lf_open (buildFileName r 0) os;
         r1 = r\<lparr>rf_file := fd, rf_fileSize := size\<rparr>
     in if size = 0
        then (let (bytesWritten, os2) = lf_write fd (UTF8_header header) os1
              in (if bytesWritten > 0 then r1\<lparr>rf_fileSize := size + bytesWritten\<rparr> else r1, os2))
        else (r1, os1))"

text \<open>The numbers \<open>rollLogFiles\<close> renames, from the last but one down to zero.\<close>

definition roll_numbers :: "rfa \<Rightarrow> nat list" where
  "roll_numbers r = rev [0..<nat (rf_lastFileNumber r)]"

definition rollLogFiles :: "string \<Rightarrow> rfa \<times> osys \<Rightarrow> rfa \<times> osys" where
  "rollLogFiles header = (\<lambda>(r, os).
     let (fd, os1) = lf_close (rf_file r) os;
         os2 = lf_unlink (buildFileName r (nat (rf_lastFileNumber r))) os1;
         os3 = fold (\<lambda>i. lf_rename (buildFileName r i) (buildFileName r (i + 1))) (roll_numbers r) os2
     in openLogFile header (r\<lparr>rf_file := fd\<rparr>, os3))"

definition rfa_write :: "string \<Rightarrow> string \<Rightarrow> rfa \<times> osys \<Rightarrow> rfa \<times> osys" where
  "rfa_write header text = (\<lambda>(r, os).
     let (r1, os1) =
           (if rf_firstWrite r
            then (let (r1, os1) = openLogFile header (r, os) in (r1\<lparr>rf_firstWrite := False\<rparr>, os1))
            else if rf_lastFileNumber r > 0 \<and> rf_fileSize r > rf_maxFileSize r \<and> -1 \<noteq> rf_fileSize r
            then rollLogFiles header (r, os)
            else (r, os));
         (bytesWritten, os2) = lf_write (rf_file r1) (UTF8_convert text) os1
     in (if bytesWritten > 0 then r1\<lparr>rf_fileSize := rf_fileSize r1 + bytesWritten\<rparr> else r1, os2))"

section \<open>The logger\<close>

text \<open>
  A logger hands a record to all its appenders, in the order they were added; the macros test the severity
  first, and so does a logger that is itself an appender. \<open>'s\<close> is what the appenders act on.
\<close>

record 's logger =
  lg_maxSeverity :: severity
  lg_appenders :: "(log_record \<Rightarrow> 's \<Rightarrow> 's) list"

definition Logger_new :: "severity \<Rightarrow> 's logger" where
  "Logger_new maxSeverity = \<lparr>lg_maxSeverity = maxSeverity, lg_appenders = []\<rparr>"

definition addAppender :: "(log_record \<Rightarrow> 's \<Rightarrow> 's) \<Rightarrow> 's logger \<Rightarrow> 's logger" where
  "addAppender a l = l\<lparr>lg_appenders := lg_appenders l @ [a]\<rparr>"

definition setMaxSeverity :: "severity \<Rightarrow> 's logger \<Rightarrow> 's logger" where
  "setMaxSeverity s l = l\<lparr>lg_maxSeverity := s\<rparr>"

definition checkSeverity :: "severity \<Rightarrow> 's logger \<Rightarrow> bool" where
  "checkSeverity s l \<longleftrightarrow> sev_num s \<le> sev_num (lg_maxSeverity l)"

definition Logger_append :: "'s logger \<Rightarrow> log_record \<Rightarrow> 's \<Rightarrow> 's" where
  "Logger_append l r s = fold (\<lambda>a. a r) (lg_appenders l) s"

definition Logger_write :: "'s logger \<Rightarrow> log_record \<Rightarrow> 's \<Rightarrow> 's" where
  "Logger_write l r s = (if checkSeverity (m_severity r) l then Logger_append l r s else s)"

text \<open>The macro \<^verbatim>\<open>PLOG\<close>: nothing is done when there is no logger or the severity is above its maximum.\<close>

definition PLOG :: "'s logger option \<Rightarrow> log_record \<Rightarrow> 's \<Rightarrow> 's" where
  "PLOG l r s =
     (case l of
        None \<Rightarrow> s
      | Some lg \<Rightarrow> if checkSeverity (m_severity r) lg then Logger_append lg r s else s)"

text \<open>\<open>init\<close> with a file name: the format is chosen by the extension.\<close>

definition rfa_appender :: "(int \<Rightarrow> log_time) \<Rightarrow> bool \<Rightarrow> log_record \<Rightarrow> rfa \<times> osys \<Rightarrow> rfa \<times> osys" where
  "rfa_appender localtime csv r =
     (if csv then rfa_write CsvFormatter_header (CsvFormatter_format localtime r)
      else rfa_write TxtFormatter_header (TxtFormatter_format localtime r))"

definition plog_init ::
  "(int \<Rightarrow> log_time) \<Rightarrow> severity \<Rightarrow> string \<Rightarrow> 64 word \<Rightarrow> int \<Rightarrow> (rfa \<times> osys) logger \<times> rfa" where
  "plog_init localtime maxSeverity fileName maxFileSize maxFiles =
     (addAppender (rfa_appender localtime (isCsv fileName)) (Logger_new maxSeverity),
      RollingFileAppender fileName maxFileSize maxFiles)"

text \<open>The constructor of the controller, \<^verbatim>\<open>Daemon/src/controller.cpp\<close>: files of ten megabytes, \<^verbatim>\<open>INT_MAX\<close> of them.\<close>

definition controller_log ::
  "(int \<Rightarrow> log_time) \<Rightarrow> severity \<Rightarrow> string \<Rightarrow> (rfa \<times> osys) logger \<times> rfa" where
  "controller_log localtime logLevel logFolder =
     plog_init localtime logLevel (logFolder @ ''/'' @ ''daemon.log'') (10 * 1024 * 1024) 2147483647"

section \<open>Where the files of a log are\<close>

text \<open>
  All files of the log lie in the folder \<open>D\<close>, under different names \<open>nm i\<close>; none of these is a folder, and the
  system refuses nothing on them.
\<close>

definition log_place :: "path \<Rightarrow> (nat \<Rightarrow> string) \<Rightarrow> rfa \<Rightarrow> bool" where
  "log_place D nm r \<longleftrightarrow> inj nm \<and>
     (\<forall>i. resolve (buildFileName r i) = D @ [nm i] \<and> \<not> needs_dir (buildFileName r i))"

definition log_ready :: "path \<Rightarrow> (nat \<Rightarrow> string) \<Rightarrow> nat \<Rightarrow> osys \<Rightarrow> bool" where
  "log_ready D nm k os \<longleftrightarrow>
     fs_ok (os_fs os) \<and> is_dir (os_fs os) D \<and> os_takes os = (\<lambda>n. n)
     \<and> (\<forall>i \<le> k. \<not> is_dir (os_fs os) (D @ [nm i])
          \<and> (\<forall>c \<in> {SysOpen, SysWrite, SysRemove, SysRename}. \<not> fs_refuse (os_fs os) c (D @ [nm i])))"

definition slot :: "path \<Rightarrow> (nat \<Rightarrow> string) \<Rightarrow> osys \<Rightarrow> nat \<Rightarrow> string option" where
  "slot D nm os i = (case fs_nodes (os_fs os) (D @ [nm i]) of Some (RegNode d) \<Rightarrow> Some d | _ \<Rightarrow> None)"

lemma buildFileName_cong [simp]:
  "buildFileName (r\<lparr>rf_file := x\<rparr>) i = buildFileName r i" "buildFileName (r\<lparr>rf_fileSize := y\<rparr>) i = buildFileName r i"
  "buildFileName (r\<lparr>rf_firstWrite := z\<rparr>) i = buildFileName r i"
  by (simp_all add: buildFileName_def)

lemma log_place_cong [simp]:
  "log_place D nm (r\<lparr>rf_file := x\<rparr>) = log_place D nm r" "log_place D nm (r\<lparr>rf_fileSize := y\<rparr>) = log_place D nm r"
  "log_place D nm (r\<lparr>rf_firstWrite := z\<rparr>) = log_place D nm r"
  by (simp_all add: log_place_def)

lemma log_ready_cong [simp]: "log_ready D nm k (os\<lparr>os_fds := x, os_next := y\<rparr>) = log_ready D nm k os"
  "log_ready D nm k (os\<lparr>os_fds := x\<rparr>) = log_ready D nm k os"
  by (simp_all add: log_ready_def)

lemma slot_cong [simp]: "slot D nm (os\<lparr>os_fds := x\<rparr>) = slot D nm os" "slot D nm (os\<lparr>os_next := y\<rparr>) = slot D nm os"
  by (simp_all add: slot_def fun_eq_iff)

lemma slot_node:
  assumes "log_ready D nm k os" and "i \<le> k"
  shows "fs_nodes (os_fs os) (D @ [nm i]) = map_option RegNode (slot D nm os i)"
  using assms by (auto simp: log_ready_def slot_def is_dir_def split: option.splits node.splits)

lemma slot_set [simp]:
  "inj nm \<Longrightarrow> slot D nm (os\<lparr>os_fs := set_node (D @ [nm j]) (RegNode d) fs\<rparr>) =
     (slot D nm (os\<lparr>os_fs := fs\<rparr>))(j := Some d)"
  by (auto simp: slot_def fun_eq_iff inj_def)

text \<open>Writing or removing a file of the log keeps it ready.\<close>

lemma log_ready_nodes:
  assumes "log_ready D nm k os" and "fs_ok fs1" and "is_dir fs1 D"
    and "\<And>i. i \<le> k \<Longrightarrow> \<not> is_dir fs1 (D @ [nm i])" and "fs_refuse fs1 = fs_refuse (os_fs os)"
  shows "log_ready D nm k (os\<lparr>os_fs := fs1\<rparr>)"
  using assms by (simp add: log_ready_def)

lemma log_ready_set:
  assumes "log_ready D nm k os" and "j \<le> k"
  shows "log_ready D nm k (os\<lparr>os_fs := set_node (D @ [nm j]) (RegNode d) (os_fs os)\<rparr>)"
proof (rule log_ready_nodes [OF assms(1)])
  show "fs_ok (set_node (D @ [nm j]) (RegNode d) (os_fs os))"
    using assms by (intro fs_ok_set_node) (auto simp: log_ready_def)
qed (use assms in \<open>auto simp: log_ready_def is_dir_set_node\<close>)

lemma log_ready_del:
  assumes "log_ready D nm k os" and "j \<le> k"
  shows "log_ready D nm k (os\<lparr>os_fs := del_node (D @ [nm j]) (os_fs os)\<rparr>)"
proof (rule log_ready_nodes [OF assms(1)])
  have "fs_nodes (os_fs os) ((D @ [nm j]) @ [c]) = None" for c
    using assms fs_ok_parent [of "os_fs os" "D @ [nm j]" c] by (cases "fs_nodes (os_fs os) ((D @ [nm j]) @ [c])") (auto simp: log_ready_def)
  then show "fs_ok (del_node (D @ [nm j]) (os_fs os))"
    using assms by (intro fs_ok_del_node) (auto simp: log_ready_def)
qed (use assms in \<open>auto simp: log_ready_def is_dir_del_node\<close>)

section \<open>The system calls on the files of a log\<close>

lemma log_unlink:
  assumes "log_place D nm r" and "log_ready D nm k os" and "j \<le> k"
  shows "log_ready D nm k (lf_unlink (buildFileName r j) os)"
    and "fs_nodes (os_fs (lf_unlink (buildFileName r j) os)) = (fs_nodes (os_fs os))(D @ [nm j] := None)"
    and "os_fds (lf_unlink (buildFileName r j) os) = os_fds os" and "os_next (lf_unlink (buildFileName r j) os) = os_next os"
proof -
  have r: "resolve (buildFileName r j) = D @ [nm j]" "\<not> needs_dir (buildFileName r j)" "buildFileName r j \<noteq> ''''"
    using assms(1) by (auto simp: log_place_def dest: spec [of _ j])
  show "log_ready D nm k (lf_unlink (buildFileName r j) os)"
    and "fs_nodes (os_fs (lf_unlink (buildFileName r j) os)) = (fs_nodes (os_fs os))(D @ [nm j] := None)"
    and "os_fds (lf_unlink (buildFileName r j) os) = os_fds os" "os_next (lf_unlink (buildFileName r j) os) = os_next os"
    using r assms(2,3) slot_node [OF assms(2,3)] log_ready_del [OF assms(2,3)]
    by (cases "slot D nm os j"; auto simp: lf_unlink_def sys_unlink_def sys_stat_def log_ready_def)+
qed

lemma move_tree_file:
  assumes "fs_ok fs" and "fs_nodes fs a = Some (RegNode d)" and "\<not> is_dir fs b" and "a \<noteq> b"
    and "take (length a) b \<noteq> a"
  shows "fs_nodes (move_tree a b fs) = (fs_nodes fs)(b := Some (RegNode d), a := None)"
proof
  fix q
  have below: "fs_nodes fs (p @ x) = None" if "\<not> is_dir fs p" "x \<noteq> []" for p x
    using fs_ok_prefix [OF assms(1), of p x] that by (cases "fs_nodes fs (p @ x)") auto
  have na: "\<not> is_dir fs a" using assms(2) by (simp add: is_dir_def)
  show "fs_nodes (move_tree a b fs) q = ((fs_nodes fs)(b := Some (RegNode d), a := None)) q"
  proof (cases "take (length b) q = b")
    case True
    then obtain x where x: "q = b @ x" by (metis append_take_drop_id)
    with assms(4,5) have "q \<noteq> a \<or> x \<noteq> []" by auto
    show ?thesis
    proof (cases "x = []")
      case False
      then have "fs_nodes fs (a @ x) = None" "fs_nodes fs q = None" "q \<noteq> b"
        using below [OF na] below [OF assms(3)] x by auto
      with True x show ?thesis by (simp add: move_tree_def)
    qed (use x assms(2,4) in \<open>simp add: move_tree_def\<close>)
  next
    case notb: False
    show ?thesis
    proof (cases "take (length a) q = a")
      case True
      then obtain x where x: "q = a @ x" by (metis append_take_drop_id)
      have "q \<noteq> b" using notb by auto
      moreover have "q = a \<or> fs_nodes fs q = None" using below [OF na, of x] x by (cases "x = []") simp_all
      moreover have "fs_nodes (move_tree a b fs) q = None" using True notb by (simp only: move_tree_def) simp
      ultimately show ?thesis by (elim disjE) simp_all
    next
      case False
      then have "q \<noteq> a" by auto
      moreover have "q \<noteq> b" using notb by auto
      ultimately show ?thesis using notb False by (simp add: move_tree_def)
    qed
  qed
qed

lemma log_rename:
  assumes pl: "log_place D nm r" and rd: "log_ready D nm k os" and ij: "i \<le> k" "j \<le> k" "i \<noteq> j"
    and free: "slot D nm os j = None"
  shows "log_ready D nm k (lf_rename (buildFileName r i) (buildFileName r j) os)
    \<and> fs_nodes (os_fs (lf_rename (buildFileName r i) (buildFileName r j) os))
        = (fs_nodes (os_fs os))(D @ [nm j] := fs_nodes (os_fs os) (D @ [nm i]), D @ [nm i] := None)
    \<and> os_fds (lf_rename (buildFileName r i) (buildFileName r j) os) = os_fds os
    \<and> os_next (lf_rename (buildFileName r i) (buildFileName r j) os) = os_next os"
proof -
  let ?a = "D @ [nm i]" and ?b = "D @ [nm j]" and ?fs = "os_fs os"
  have r: "resolve (buildFileName r i) = ?a" "resolve (buildFileName r j) = ?b" "\<not> needs_dir (buildFileName r i)"
    "\<not> needs_dir (buildFileName r j)" and inj: "nm i \<noteq> nm j"
    using pl ij(3) by (auto simp: log_place_def dest: injD)
  from r have ne: "buildFileName r i \<noteq> ''''" "buildFileName r j \<noteq> ''''" by auto
  have nb: "fs_nodes ?fs ?b = None" using slot_node [OF rd ij(2)] free by simp
  show ?thesis
  proof (cases "slot D nm os i")
    case None
    then have "fs_nodes ?fs ?a = None" using slot_node [OF rd ij(1)] by simp
    with rd r nb ne show ?thesis by (simp add: lf_rename_def sys_rename_def sys_stat_def fun_upd_idem)
  next
    case (Some d)
    then have na: "fs_nodes ?fs ?a = Some (RegNode d)" using slot_node [OF rd ij(1)] by simp
    have st: "sys_stat ?fs (buildFileName r i) = Some (RegNode d)" using na r ne by (simp add: sys_stat_def)
    have "rename_ok ?fs (buildFileName r i) (buildFileName r j) (RegNode d)"
      using rd r ne nb inj ij by (auto simp: rename_ok_def log_ready_def is_dir_def)
    with st r inj have ren: "lf_rename (buildFileName r i) (buildFileName r j) os = os\<lparr>os_fs := move_tree ?a ?b ?fs\<rparr>"
      by (simp add: lf_rename_def sys_rename_def)
    have "\<not> is_dir ?fs ?b" "?a \<noteq> ?b" "take (length ?a) ?b \<noteq> ?a" using nb inj by (simp_all add: is_dir_def)
    from move_tree_file [OF _ na this] rd
    have nodes: "fs_nodes (move_tree ?a ?b ?fs) = (fs_nodes ?fs)(?b := Some (RegNode d), ?a := None)"
      by (simp add: log_ready_def)
    have same: "fs_nodes (move_tree ?a ?b ?fs) = fs_nodes (os_fs ((os\<lparr>os_fs := set_node ?b (RegNode d) ?fs\<rparr>)
        \<lparr>os_fs := del_node ?a (set_node ?b (RegNode d) ?fs)\<rparr>))"
      using nodes by simp
    have "log_ready D nm k ((os\<lparr>os_fs := set_node ?b (RegNode d) ?fs\<rparr>)\<lparr>os_fs := del_node ?a (set_node ?b (RegNode d) ?fs)\<rparr>)"
      using log_ready_del [OF log_ready_set [OF rd ij(2), of d] ij(1)] by simp
    then have "log_ready D nm k (os\<lparr>os_fs := move_tree ?a ?b ?fs\<rparr>)"
      using same by (auto simp: log_ready_def fs_ok_def is_dir_def move_tree_def)
    with nodes na ren show ?thesis by simp
  qed
qed

text \<open>The loop of \<open>rollLogFiles\<close>: once the last file is gone, every file moves up by one.\<close>

lemma log_shift:
  assumes pl: "log_place D nm r" and "log_ready D nm k os" and "n \<le> k" and "slot D nm os n = None"
    and "os1 = fold (\<lambda>i. lf_rename (buildFileName r i) (buildFileName r (i + 1))) (rev [0..<n]) os"
  shows "log_ready D nm k os1 \<and> os_fds os1 = os_fds os \<and> os_next os1 = os_next os
    \<and> (\<forall>i < n. slot D nm os1 (i + 1) = slot D nm os i) \<and> slot D nm os1 0 = None
    \<and> (\<forall>q. (\<forall>i \<le> n. q \<noteq> D @ [nm i]) \<longrightarrow> fs_nodes (os_fs os1) q = fs_nodes (os_fs os) q)"
  using assms(2-5)
proof (induction n arbitrary: os os1)
  case (Suc n)
  let ?os = "lf_rename (buildFileName r n) (buildFileName r (Suc n)) os"
  have inj: "nm i = nm j \<longleftrightarrow> i = j" for i j using pl by (auto simp: log_place_def dest: injD)
  have ren: "log_ready D nm k ?os"
    "fs_nodes (os_fs ?os) = (fs_nodes (os_fs os))(D @ [nm (Suc n)] := fs_nodes (os_fs os) (D @ [nm n]), D @ [nm n] := None)"
    "os_fds ?os = os_fds os" "os_next ?os = os_next os"
    using log_rename [OF pl Suc.prems(1), of n "Suc n"] Suc.prems(2,3) by simp_all
  have sl: "slot D nm ?os i = (if i = n then None else if i = Suc n then slot D nm os n else slot D nm os i)" for i
    by (simp add: slot_def ren(2) inj)
  have os1: "os1 = fold (\<lambda>i. lf_rename (buildFileName r i) (buildFileName r (i + 1))) (rev [0..<n]) ?os"
    using Suc.prems(4) by simp
  from Suc.IH [OF ren(1) _ _ os1] Suc.prems(2) sl ren
  have ih: "log_ready D nm k os1" "os_fds os1 = os_fds os" "os_next os1 = os_next os"
    "\<forall>i < n. slot D nm os1 (i + 1) = slot D nm ?os i" "slot D nm os1 0 = None"
    "\<forall>q. (\<forall>i \<le> n. q \<noteq> D @ [nm i]) \<longrightarrow> fs_nodes (os_fs os1) q = fs_nodes (os_fs ?os) q" by simp_all
  have "fs_nodes (os_fs os1) (D @ [nm (Suc n)]) = fs_nodes (os_fs ?os) (D @ [nm (Suc n)])"
    using ih(6) inj by auto
  then have "slot D nm os1 (Suc n) = slot D nm ?os (Suc n)" by (simp add: slot_def)
  then have "slot D nm os1 (Suc n) = slot D nm os n" using sl [of "Suc n"] by simp
  with ih sl have "\<forall>i < Suc n. slot D nm os1 (i + 1) = slot D nm os i" by (auto simp: less_Suc_eq)
  moreover have "fs_nodes (os_fs os1) q = fs_nodes (os_fs os) q" if "\<forall>i \<le> Suc n. q \<noteq> D @ [nm i]" for q
    using ih(6) that ren(2) by auto
  ultimately show ?case using ih by blast
qed simp

section \<open>An open log\<close>

definition log_open :: "path \<Rightarrow> (nat \<Rightarrow> string) \<Rightarrow> string \<Rightarrow> rfa \<times> osys \<Rightarrow> bool" where
  "log_open D nm d = (\<lambda>(r, os).
     rf_file r \<noteq> -1 \<and> slot D nm os 0 = Some d \<and> rf_fileSize r = int (length d)
     \<and> os_fds os (rf_file r) = Some \<lparr>fd_path = D @ [nm 0], fd_off = length d, fd_write = True, fd_append = False\<rparr>)"

lemma lf_flags_has [simp]:
  "has_flag lf_flags O_CREAT" "\<not> has_flag lf_flags O_TRUNC" "\<not> has_flag lf_flags O_EXCL"
  "\<not> has_flag lf_flags O_APPEND" "and lf_flags O_ACCMODE \<noteq> 0"
  by (simp_all add: has_flag_def lf_flags_def O_CREAT_def O_WRONLY_def O_TRUNC_def O_EXCL_def O_APPEND_def O_ACCMODE_def)

lemma log_lf_open:
  assumes pl: "log_place D nm r" and rd: "log_ready D nm k os"
    and d: "d = (case slot D nm os 0 of None \<Rightarrow> '''' | Some d \<Rightarrow> d)"
  shows "\<exists>fd os1. lf_open (buildFileName r 0) os = (int (length d), fd, os1) \<and> fd \<noteq> -1
    \<and> log_ready D nm k os1 \<and> slot D nm os1 = (slot D nm os)(0 := Some d)
    \<and> os_fds os1 fd = Some \<lparr>fd_path = D @ [nm 0], fd_off = length d, fd_write = True, fd_append = False\<rparr>
    \<and> (\<forall>q. q \<noteq> D @ [nm 0] \<longrightarrow> fs_nodes (os_fs os1) q = fs_nodes (os_fs os) q)"
proof -
  let ?n = "buildFileName r 0"
  have r: "resolve ?n = D @ [nm 0]" "\<not> needs_dir ?n" and inj: "inj nm" using pl by (auto simp: log_place_def)
  from r(1) have ne: "?n \<noteq> ''''" by auto
  note node = slot_node [OF rd, of 0]
  have "open_at (os_fs os) ?n lf_flags =
      Some (case slot D nm os 0 of None \<Rightarrow> set_node (D @ [nm 0]) (RegNode '''') (os_fs os) | Some d \<Rightarrow> os_fs os)"
    using r ne rd node by (simp add: open_at_def log_ready_def split: option.split)
  moreover have "log_ready D nm k (os\<lparr>os_fs := set_node (D @ [nm 0]) (RegNode '''') (os_fs os)\<rparr>)"
    using log_ready_set [OF rd, of 0] by simp
  ultimately show ?thesis
    using d r(1) node rd inj
    by (cases "slot D nm os 0")
      (auto simp: lf_open_def sys_open_def lf_seek_end_def sys_seek_end_def Let_def log_ready_def slot_def fun_eq_iff inj_def)
qed

lemma log_lf_write:
  assumes "log_place D nm r" and "log_ready D nm k os" and "log_open D nm d (r, os)" and "length text < 2 ^ 31"
  shows "\<exists>os1. lf_write (rf_file r) text os = (int (length text), os1)
    \<and> log_ready D nm k os1 \<and> slot D nm os1 = (slot D nm os)(0 := Some (d @ text))
    \<and> os_fds os1 (rf_file r) = Some \<lparr>fd_path = D @ [nm 0], fd_off = length (d @ text), fd_write = True, fd_append = False\<rparr>
    \<and> (\<forall>q. q \<noteq> D @ [nm 0] \<longrightarrow> fs_nodes (os_fs os1) q = fs_nodes (os_fs os) q)"
proof -
  have inj: "inj nm" using assms(1) by (simp add: log_place_def)
  have narrow: "sint (word_of_int (int (length text)) :: u32) = int (length text)"
    using assms(4) by (subst sint_sbintrunc') (simp add: signed_take_bit_int_eq_self)
  have node: "fs_nodes (os_fs os) (D @ [nm 0]) = Some (RegNode d)"
    using slot_node [OF assms(2), of 0] assms(3) by (simp add: log_open_def)
  let ?os1 = "os\<lparr>os_fs := set_node (D @ [nm 0]) (RegNode (d @ text)) (os_fs os),
         os_fds := (os_fds os)(rf_file r \<mapsto> \<lparr>fd_path = D @ [nm 0], fd_off = length (d @ text), fd_write = True, fd_append = False\<rparr>)\<rparr>"
  have "sys_write (rf_file r) text os = (int (length text), ?os1)"
    using assms(2,3) node
    by (simp add: sys_write_def log_open_def log_ready_def put_bytes_def Let_def)
  moreover have "rf_file r \<noteq> -1" using assms(3) by (simp add: log_open_def)
  ultimately have "lf_write (rf_file r) text os = (int (length text), ?os1)"
    by (simp only: lf_write_def narrow Let_def prod.case if_True simp_thms)
  moreover have "log_ready D nm k (os\<lparr>os_fs := set_node (D @ [nm 0]) (RegNode (d @ text)) (os_fs os)\<rparr>)"
    using log_ready_set [OF assms(2), of 0] by simp
  ultimately show ?thesis using inj by (intro exI [of _ ?os1]) simp
qed

text \<open>The end of a write: the bytes go to the open file and are counted.\<close>

lemma log_append:
  assumes "log_place D nm r" and "log_ready D nm k os" and "log_open D nm d (r, os)" and "length text < 2 ^ 31"
    and "lf_write (rf_file r) text os = (n, os1)"
    and "r1 = (if n > 0 then r\<lparr>rf_fileSize := rf_fileSize r + n\<rparr> else r)"
  shows "log_ready D nm k os1 \<and> slot D nm os1 = (slot D nm os)(0 := Some (d @ text)) \<and> log_open D nm (d @ text) (r1, os1)
    \<and> (\<forall>q. q \<noteq> D @ [nm 0] \<longrightarrow> fs_nodes (os_fs os1) q = fs_nodes (os_fs os) q)"
proof -
  from log_lf_write [OF assms(1-4)] assms(5)
  have w: "n = int (length text)" "log_ready D nm k os1" "slot D nm os1 = (slot D nm os)(0 := Some (d @ text))"
    "os_fds os1 (rf_file r) = Some \<lparr>fd_path = D @ [nm 0], fd_off = length (d @ text), fd_write = True, fd_append = False\<rparr>"
    "\<forall>q. q \<noteq> D @ [nm 0] \<longrightarrow> fs_nodes (os_fs os1) q = fs_nodes (os_fs os) q" by auto
  have "rf_file r1 = rf_file r" "rf_fileSize r1 = int (length (d @ text))"
    using assms(3,6) w(1) by (auto simp: log_open_def)
  with w assms(3) show ?thesis by (simp add: log_open_def)
qed

lemma openLogFile_new:
  assumes pl: "log_place D nm r" and rd: "log_ready D nm k os" and none: "slot D nm os 0 = None"
    and len: "length (UTF8_header header) < 2 ^ 31"
  shows "\<exists>fd n os1. openLogFile header (r, os) = (r\<lparr>rf_file := fd, rf_fileSize := n\<rparr>, os1)
    \<and> log_ready D nm k os1 \<and> slot D nm os1 = (slot D nm os)(0 := Some (UTF8_header header))
    \<and> log_open D nm (UTF8_header header) (r\<lparr>rf_file := fd, rf_fileSize := n\<rparr>, os1)
    \<and> (\<forall>q. q \<noteq> D @ [nm 0] \<longrightarrow> fs_nodes (os_fs os1) q = fs_nodes (os_fs os) q)"
proof -
  obtain fd os1 where o: "lf_open (buildFileName r 0) os = (0, fd, os1)" "fd \<noteq> -1" "log_ready D nm k os1"
    "slot D nm os1 = (slot D nm os)(0 := Some '''')"
    "os_fds os1 fd = Some \<lparr>fd_path = D @ [nm 0], fd_off = 0, fd_write = True, fd_append = False\<rparr>"
    "\<forall>q. q \<noteq> D @ [nm 0] \<longrightarrow> fs_nodes (os_fs os1) q = fs_nodes (os_fs os) q"
    using log_lf_open [OF pl rd, of "''''"] none by auto
  let ?r = "r\<lparr>rf_file := fd, rf_fileSize := 0\<rparr>"
  obtain n os2 where w: "lf_write fd (UTF8_header header) os1 = (n, os2)" by fastforce
  have op: "log_open D nm '''' (?r, os1)" using o by (simp add: log_open_def)
  from log_lf_write [OF _ o(3) op len] pl w have n: "n = int (length (UTF8_header header))" by auto
  have pos: "n > 0" by (simp add: n UTF8_header_def)
  have "lf_write (rf_file ?r) (UTF8_header header) os1 = (n, os2)" using w by simp
  from log_append [OF _ o(3) op len this refl] pl pos
  have "log_ready D nm k os2 \<and> slot D nm os2 = (slot D nm os1)(0 := Some (UTF8_header header))
    \<and> log_open D nm (UTF8_header header) (r\<lparr>rf_file := fd, rf_fileSize := n\<rparr>, os2)
    \<and> (\<forall>q. q \<noteq> D @ [nm 0] \<longrightarrow> fs_nodes (os_fs os2) q = fs_nodes (os_fs os1) q)" by simp
  moreover have "openLogFile header (r, os) = (r\<lparr>rf_file := fd, rf_fileSize := n\<rparr>, os2)"
    using o(1) w pos by (simp add: openLogFile_def)
  ultimately show ?thesis using o(4,6) by auto
qed

section \<open>The log as a list of files\<close>

text \<open>
  The abstract log: the texts of its files without their headers, newest first. A write starts a new file when
  the newest is over the limit and there may be more than one; at most \<open>k + 1\<close> files are kept.
\<close>

fun abs_write :: "nat \<Rightarrow> int \<Rightarrow> nat \<Rightarrow> string \<Rightarrow> string list \<Rightarrow> string list" where
  "abs_write k limit h text [] = [text]"
| "abs_write k limit h text (b # bs) =
     (if k > 0 \<and> limit < int (h + length b) then text # take k (b # bs) else (b @ text) # bs)"

definition log_slots :: "nat \<Rightarrow> string \<Rightarrow> string list \<Rightarrow> nat \<Rightarrow> string option" where
  "log_slots k h bodies i = (if i < length bodies then Some (h @ bodies ! i) else None)"

definition log_rel :: "path \<Rightarrow> (nat \<Rightarrow> string) \<Rightarrow> nat \<Rightarrow> string \<Rightarrow> string list \<Rightarrow> rfa \<times> osys \<Rightarrow> bool" where
  "log_rel D nm k h bodies = (\<lambda>(r, os).
     log_place D nm r \<and> log_ready D nm k os \<and> rf_lastFileNumber r = int k
     \<and> bodies \<noteq> [] \<and> length bodies \<le> k + 1 \<and> \<not> rf_firstWrite r
     \<and> log_open D nm (h @ hd bodies) (r, os) \<and> (\<forall>i \<le> k. slot D nm os i = log_slots k h bodies i))"

text \<open>Rolling makes room for a new file with nothing but the header.\<close>

lemma log_roll:
  assumes rel: "log_rel D nm k (UTF8_header header) bodies (r, os)" and k: "k > 0"
    and len: "length (UTF8_header header) < 2 ^ 31"
  shows "\<exists>fd n os1. rollLogFiles header (r, os) = (r\<lparr>rf_file := fd, rf_fileSize := n\<rparr>, os1)
    \<and> log_rel D nm k (UTF8_header header) ('''' # take k bodies) (r\<lparr>rf_file := fd, rf_fileSize := n\<rparr>, os1)
    \<and> (\<forall>q. (\<forall>i \<le> k. q \<noteq> D @ [nm i]) \<longrightarrow> fs_nodes (os_fs os1) q = fs_nodes (os_fs os) q)"
proof -
  let ?h = "UTF8_header header"
  from rel have pl: "log_place D nm r" and rd: "log_ready D nm k os" and last: "rf_lastFileNumber r = int k"
    and b: "bodies \<noteq> []" "length bodies \<le> k + 1" and fst: "\<not> rf_firstWrite r"
    and op: "log_open D nm (?h @ hd bodies) (r, os)"
    and sl: "\<And>i. i \<le> k \<Longrightarrow> slot D nm os i = log_slots k ?h bodies i"
    by (auto simp: log_rel_def)
  have inj: "nm i = nm j \<longleftrightarrow> i = j" for i j using pl by (auto simp: log_place_def dest: injD)
  obtain fd where cl: "lf_close (rf_file r) os = (-1, os\<lparr>os_fds := fd\<rparr>)"
    using op by (simp add: lf_close_def sys_close_def log_open_def)
  let ?os1 = "os\<lparr>os_fds := fd\<rparr>" and ?os2 = "lf_unlink (buildFileName r k) (os\<lparr>os_fds := fd\<rparr>)"
  have rd1: "log_ready D nm k ?os1" using rd by simp
  note un = log_unlink [OF pl rd1 le_refl]
  have s2: "slot D nm ?os2 i = (if i = k then None else slot D nm os i)" for i
    by (simp add: slot_def un(2) inj)
  define os3 where "os3 = fold (\<lambda>i. lf_rename (buildFileName r i) (buildFileName r (i + 1))) (rev [0..<k]) ?os2"
  from log_shift [OF pl un(1) le_refl _ os3_def] s2
  have s3: "log_ready D nm k os3" "\<forall>i < k. slot D nm os3 (i + 1) = slot D nm ?os2 i" "slot D nm os3 0 = None"
    "\<forall>q. (\<forall>i \<le> k. q \<noteq> D @ [nm i]) \<longrightarrow> fs_nodes (os_fs os3) q = fs_nodes (os_fs ?os2) q" by simp_all
  have pl3: "log_place D nm (r\<lparr>rf_file := -1\<rparr>)" using pl by simp
  from openLogFile_new [OF pl3 s3(1,3) len] obtain fd2 n os4 where
    o: "openLogFile header (r\<lparr>rf_file := -1\<rparr>, os3) = (r\<lparr>rf_file := fd2, rf_fileSize := n\<rparr>, os4)"
    "log_ready D nm k os4" "slot D nm os4 = (slot D nm os3)(0 := Some ?h)"
    "log_open D nm ?h (r\<lparr>rf_file := fd2, rf_fileSize := n\<rparr>, os4)"
    "\<forall>q. q \<noteq> D @ [nm 0] \<longrightarrow> fs_nodes (os_fs os4) q = fs_nodes (os_fs os3) q" by auto
  have roll: "rollLogFiles header (r, os) = (r\<lparr>rf_file := fd2, rf_fileSize := n\<rparr>, os4)"
    using o(1) cl last by (simp add: rollLogFiles_def roll_numbers_def os3_def)
  have "slot D nm os4 i = log_slots k ?h ('''' # take k bodies) i" if "i \<le> k" for i
  proof (cases i)
    case 0
    then show ?thesis by (simp add: o(3) log_slots_def)
  next
    case (Suc j)
    then have "slot D nm os4 i = slot D nm os j" using that s3(2) s2 o(3) by auto
    with Suc that sl [of j] show ?thesis by (simp add: log_slots_def)
  qed
  then have "log_rel D nm k ?h ('''' # take k bodies) (r\<lparr>rf_file := fd2, rf_fileSize := n\<rparr>, os4)"
    using pl o(2,4) last fst by (simp add: log_rel_def)
  moreover have "fs_nodes (os_fs os4) q = fs_nodes (os_fs os) q" if "\<forall>i \<le> k. q \<noteq> D @ [nm i]" for q
    using that o(5) s3(4) un(2) by auto
  ultimately show ?thesis using roll by blast
qed

lemma log_rel_append:
  assumes rel: "log_rel D nm k h (b # bs) (r, os)" and len: "length text < 2 ^ 31"
    and w: "lf_write (rf_file r) text os = (n, os1)"
    and r1: "r1 = (if n > 0 then r\<lparr>rf_fileSize := rf_fileSize r + n\<rparr> else r)"
  shows "log_rel D nm k h ((b @ text) # bs) (r1, os1)
    \<and> (\<forall>q. q \<noteq> D @ [nm 0] \<longrightarrow> fs_nodes (os_fs os1) q = fs_nodes (os_fs os) q)"
proof -
  have pl: "log_place D nm r" and rd: "log_ready D nm k os" and op: "log_open D nm (h @ b) (r, os)"
    using rel by (auto simp: log_rel_def)
  note ap = log_append [OF pl rd op len w r1]
  have "slot D nm os1 i = log_slots k h ((b @ text) # bs) i" if "i \<le> k" for i
    using rel that ap by (cases i) (auto simp: log_rel_def log_slots_def)
  with rel ap r1 show ?thesis by (auto simp: log_rel_def)
qed

text \<open>One write is one step of the abstract log.\<close>

lemma rfa_write_refines:
  assumes rel: "log_rel D nm k (UTF8_header header) bodies (r, os)" and len: "length text < 2 ^ 31"
    and hlen: "length (UTF8_header header) < 2 ^ 31"
  shows "\<exists>r1 os1. rfa_write header text (r, os) = (r1, os1) \<and> rf_maxFileSize r1 = rf_maxFileSize r
    \<and> log_rel D nm k (UTF8_header header)
        (abs_write k (rf_maxFileSize r) (length (UTF8_header header)) text bodies) (r1, os1)
    \<and> (\<forall>q. (\<forall>i \<le> k. q \<noteq> D @ [nm i]) \<longrightarrow> fs_nodes (os_fs os1) q = fs_nodes (os_fs os) q)"
proof -
  let ?h = "UTF8_header header"
  obtain b bs where bodies: "bodies = b # bs" using rel by (cases bodies) (auto simp: log_rel_def)
  have size: "rf_fileSize r = int (length ?h + length b)" "rf_lastFileNumber r = int k" "\<not> rf_firstWrite r"
    using rel bodies by (simp_all add: log_rel_def log_open_def)
  define roll where "roll \<longleftrightarrow> k > 0 \<and> rf_maxFileSize r < int (length ?h + length b)"
  obtain fd m os1 bs1 where r1: "(if roll then rollLogFiles header (r, os) else (r, os)) = (r\<lparr>rf_file := fd, rf_fileSize := m\<rparr>, os1)"
    "log_rel D nm k ?h bs1 (r\<lparr>rf_file := fd, rf_fileSize := m\<rparr>, os1)"
    "bs1 = (if roll then '''' # take k bodies else bodies)"
    "\<forall>q. (\<forall>i \<le> k. q \<noteq> D @ [nm i]) \<longrightarrow> fs_nodes (os_fs os1) q = fs_nodes (os_fs os) q"
  proof (cases roll)
    case True
    with log_roll [OF rel _ hlen] that show ?thesis by (auto simp: roll_def)
  next
    case False
    then show ?thesis using rel that [of "rf_fileSize r" "rf_file r" os bodies] by simp
  qed
  let ?r1 = "r\<lparr>rf_file := fd, rf_fileSize := m\<rparr>"
  obtain n os2 where w: "lf_write (rf_file ?r1) text os1 = (n, os2)" by fastforce
  obtain c cs where bs1: "bs1 = c # cs" using r1(3) bodies by (cases bs1) (auto split: if_splits)
  have rel1: "log_rel D nm k ?h (c # cs) (?r1, os1)" using r1(2) bs1 by simp
  note ap = log_rel_append [OF rel1 len w refl]
  have "(c @ text) # cs = abs_write k (rf_maxFileSize r) (length ?h) text bodies"
    using r1(3) bs1 bodies by (auto simp: roll_def split: if_splits)
  moreover have "rfa_write header text (r, os) = (if n > 0 then ?r1\<lparr>rf_fileSize := rf_fileSize ?r1 + n\<rparr> else ?r1, os2)"
  proof -
    have cond: "(rf_lastFileNumber r > 0 \<and> rf_fileSize r > rf_maxFileSize r \<and> -1 \<noteq> rf_fileSize r) = roll"
      using size by (auto simp: roll_def)
    have "rfa_write header text (r, os) =
        (let (r1, os1) = (if roll then rollLogFiles header (r, os) else (r, os));
             (n, os2) = lf_write (rf_file r1) text os1
         in (if n > 0 then r1\<lparr>rf_fileSize := rf_fileSize r1 + n\<rparr> else r1, os2))"
      unfolding rfa_write_def UTF8_convert_def prod.case cond using size(3) by (simp only: if_False)
    also have "\<dots> = (if n > 0 then ?r1\<lparr>rf_fileSize := rf_fileSize ?r1 + n\<rparr> else ?r1, os2)"
      unfolding r1(1) Let_def prod.case w by (rule refl)
    finally show ?thesis .
  qed
  ultimately show ?thesis using ap r1(4) by auto
qed

text \<open>The first write, when no file of the log is there.\<close>

lemma rfa_write_first:
  assumes pl: "log_place D nm r" and rd: "log_ready D nm k os" and fst: "rf_firstWrite r"
    and k: "rf_lastFileNumber r = int k" and none: "\<forall>i \<le> k. slot D nm os i = None"
    and len: "length text < 2 ^ 31" and hlen: "length (UTF8_header header) < 2 ^ 31"
  shows "\<exists>r1 os1. rfa_write header text (r, os) = (r1, os1) \<and> rf_maxFileSize r1 = rf_maxFileSize r
    \<and> log_rel D nm k (UTF8_header header) [text] (r1, os1)
    \<and> (\<forall>q. (\<forall>i \<le> k. q \<noteq> D @ [nm i]) \<longrightarrow> fs_nodes (os_fs os1) q = fs_nodes (os_fs os) q)"
proof -
  let ?h = "UTF8_header header"
  obtain fd m os1 where o: "openLogFile header (r, os) = (r\<lparr>rf_file := fd, rf_fileSize := m\<rparr>, os1)" "log_ready D nm k os1"
    "slot D nm os1 = (slot D nm os)(0 := Some ?h)" "log_open D nm ?h (r\<lparr>rf_file := fd, rf_fileSize := m\<rparr>, os1)"
    "\<forall>q. q \<noteq> D @ [nm 0] \<longrightarrow> fs_nodes (os_fs os1) q = fs_nodes (os_fs os) q"
    using openLogFile_new [OF pl rd _ hlen] none by auto
  let ?r1 = "r\<lparr>rf_file := fd, rf_fileSize := m, rf_firstWrite := False\<rparr>"
  have rel: "log_rel D nm k ?h [''''] (?r1, os1)"
    using pl o(2-4) k none by (auto simp: log_rel_def log_open_def log_slots_def)
  obtain n os2 where w: "lf_write (rf_file ?r1) text os1 = (n, os2)" by fastforce
  have "rfa_write header text (r, os) = (if n > 0 then ?r1\<lparr>rf_fileSize := rf_fileSize ?r1 + n\<rparr> else ?r1, os2)"
    using o(1) w fst by (simp add: rfa_write_def UTF8_convert_def)
  moreover note log_rel_append [OF rel len w refl]
  ultimately show ?thesis using o(5) by auto
qed

lemma rfa_writes_refine:
  assumes "log_rel D nm k (UTF8_header header) bodies (r, os)" and "\<forall>t \<in> set texts. length t < 2 ^ 31"
    and "length (UTF8_header header) < 2 ^ 31" and "rf_maxFileSize r = limit"
  shows "\<exists>r1 os1. fold (rfa_write header) texts (r, os) = (r1, os1)
    \<and> log_rel D nm k (UTF8_header header) (fold (abs_write k limit (length (UTF8_header header))) texts bodies) (r1, os1)
    \<and> (\<forall>q. (\<forall>i \<le> k. q \<noteq> D @ [nm i]) \<longrightarrow> fs_nodes (os_fs os1) q = fs_nodes (os_fs os) q)"
  using assms
proof (induction texts arbitrary: bodies r os)
  case (Cons t ts)
  from rfa_write_refines [OF Cons.prems(1) _ Cons.prems(3), of t] Cons.prems(2,4)
  obtain r1 os1 where s: "rfa_write header t (r, os) = (r1, os1)" "rf_maxFileSize r1 = limit"
    "log_rel D nm k (UTF8_header header) (abs_write k limit (length (UTF8_header header)) t bodies) (r1, os1)"
    "\<forall>q. (\<forall>i \<le> k. q \<noteq> D @ [nm i]) \<longrightarrow> fs_nodes (os_fs os1) q = fs_nodes (os_fs os) q" by auto
  from Cons.IH [OF s(3) _ Cons.prems(3) s(2)] Cons.prems(2) s(1,4) show ?case by auto
qed simp

section \<open>What the abstract log keeps\<close>

definition kept :: "nat \<Rightarrow> int \<Rightarrow> nat \<Rightarrow> nat \<Rightarrow> string \<Rightarrow> string list \<Rightarrow> bool" where
  "kept k limit h M history bodies \<longleftrightarrow>
     bodies \<noteq> [] \<and> length bodies \<le> k + 1
     \<and> (\<exists>lost. history = lost @ concat (rev bodies) \<and> (length bodies \<le> k \<or> k = 0 \<longrightarrow> lost = ''''))
     \<and> (k > 0 \<longrightarrow> (\<forall>b \<in> set bodies. int (h + length b) \<le> limit + int M))"

lemma kept_write:
  assumes "kept k limit h M history bodies" and "length t \<le> M" and "int h \<le> limit"
  shows "kept k limit h M (history @ t) (abs_write k limit h t bodies)"
proof -
  obtain b bs where b: "bodies = b # bs" using assms(1) by (cases bodies) (auto simp: kept_def)
  obtain lost where lost: "history = lost @ concat (rev bodies)" "length bodies \<le> k \<or> k = 0 \<longrightarrow> lost = ''''"
    using assms(1) by (auto simp: kept_def)
  show ?thesis
  proof (cases "k > 0 \<and> limit < int (h + length b)")
    case True
    have split: "concat (rev bodies) = concat (rev (drop k bodies)) @ concat (rev (take k bodies))"
      by (metis append_take_drop_id concat_append rev_append)
    have "history @ t = (lost @ concat (rev (drop k bodies))) @ concat (rev (t # take k bodies))"
      using lost(1) split by simp
    moreover have "length (t # take k bodies) \<le> k \<Longrightarrow> lost @ concat (rev (drop k bodies)) = ''''"
      using lost(2) by simp
    moreover have "\<forall>c \<in> set (t # take k bodies). int (h + length c) \<le> limit + int M"
      using assms True by (auto simp: kept_def dest: in_set_takeD)
    moreover have "abs_write k limit h t bodies = t # take k bodies" using True b by simp
    moreover have "length (t # take k bodies) \<le> k + 1" by simp
    ultimately show ?thesis using True by (auto simp: kept_def)
  next
    case False
    then have "abs_write k limit h t bodies = (b @ t) # bs" unfolding b abs_write.simps by (rule if_not_P)
    moreover have "history @ t = lost @ concat (rev ((b @ t) # bs))" using lost(1) b by simp
    moreover have "k > 0 \<longrightarrow> int (h + length (b @ t)) \<le> limit + int M" using False assms(2) by auto
    ultimately show ?thesis using assms(1) lost(2) b by (auto simp: kept_def)
  qed
qed

lemma kept_writes:
  "kept k limit h M history bodies \<Longrightarrow> \<forall>t \<in> set ts. length t \<le> M \<Longrightarrow> int h \<le> limit \<Longrightarrow>
   kept k limit h M (history @ concat ts) (fold (abs_write k limit h) ts bodies)"
proof (induction ts arbitrary: history bodies)
  case (Cons t ts)
  from Cons.IH [OF kept_write [OF Cons.prems(1) _ Cons.prems(3), of t]] Cons.prems(2,3) show ?case by simp
qed simp

section \<open>What the log on disk holds\<close>


text \<open>Where the daemon's log is: a name with a folder, a base and an extension.\<close>

lemma log_place_plain:
  assumes "base \<noteq> ''''" and "ext \<noteq> ''''" and "CHR ''/'' \<notin> set base" and "CHR ''/'' \<notin> set ext" and "CHR ''.'' \<notin> set ext"
  shows "log_place (resolve dir)
    (\<lambda>i. base @ (if i > 0 then ''.'' @ show_nat i else '''') @ ''.'' @ ext)
    (RollingFileAppender (dir @ ''/'' @ base @ ''.'' @ ext) maxSize files)"
proof -
  let ?nm = "\<lambda>i. base @ (if i > 0 then ''.'' @ show_nat i else '''') @ ''.'' @ ext"
  let ?r = "RollingFileAppender (dir @ ''/'' @ base @ ''.'' @ ext) maxSize files"
  have "splitFileName (dir @ ''/'' @ base @ ''.'' @ ext) = (dir @ ''/'' @ base, ext)"
    using find_last_of_append [OF assms(5), of "dir @ ''/'' @ base"] by (simp add: splitFileName_def findExtensionDot_def)
  then have name: "buildFileName ?r i = dir @ ''/'' @ ?nm i" for i
    using assms(2) by (simp add: buildFileName_def RollingFileAppender_def)
  have plain: "CHR ''/'' \<notin> set (?nm i)" for i
    using assms(3,4) by (auto dest: show_nat_free)
  have ne: "?nm i \<noteq> ''''" "?nm i \<noteq> ''.''" for i using assms(1,2) by (cases base; simp)+
  have "resolve (buildFileName ?r i) = resolve dir @ [?nm i]" for i
    using resolve_append [of dir "?nm i"] resolve_plain [OF plain [of i]] ne [of i] name [of i] by simp
  moreover have "\<not> needs_dir (buildFileName ?r i)" for i
    using needs_dir_file [OF plain [of i], of dir] ne [of i] name [of i] by simp
  moreover have "inj ?nm"
    by (rule injI) (auto split: if_splits)
  ultimately show ?thesis by (simp add: log_place_def)
qed

definition log_os :: osys where
  "log_os = \<lparr>os_fs = \<lparr>fs_nodes = [[] \<mapsto> DirNode 0, [''l''] \<mapsto> DirNode 0], fs_umask = 0, fs_refuse = (\<lambda>_ _. False)\<rparr>,
             os_fds = (\<lambda>_. None), os_next = 3, os_takes = (\<lambda>n. n), os_dir_size = 4096\<rparr>"


section \<open>The cost of rolling the daemon's log\<close>

text \<open>With the settings of the controller the log is \<open>daemon.log\<close> in its folder, a file is rolled once it
  is over ten megabytes, and one roll issues 2147483646 renames while it holds the appender's lock: the number
  of files allowed is taken as the number of names to try, whatever exists.\<close>

lemma controller_roll_cost:
  "buildFileName (snd (controller_log localtime logLevel folder)) 0 = folder @ ''/daemon.log''
   \<and> rf_maxFileSize (snd (controller_log localtime logLevel folder)) = 10485760
   \<and> length (roll_numbers (snd (controller_log localtime logLevel folder))) = 2147483646
   \<and> distinct (roll_numbers (snd (controller_log localtime logLevel folder)))"
proof -
  have "splitFileName (folder @ ''/daemon.log'') = (folder @ ''/daemon'', ''log'')"
    using find_last_of_append [of "CHR ''.''" "''log''" "folder @ ''/daemon''"]
    by (simp add: splitFileName_def findExtensionDot_def)
  then show ?thesis
    by (simp add: controller_log_def plog_init_def RollingFileAppender_def buildFileName_def roll_numbers_def del: upt_rec_numeral)
qed

end
