(* ===== verification/Console_Log.thy ===== *)
theory Console_Log
  imports Rolling_File
begin

text \<open>
  The appenders of the logging library that write to the standard output, as they are built on Linux:
  \<^verbatim>\<open>plog/include/plog/Appenders/ConsoleAppender.h\<close> and \<^verbatim>\<open>ColorConsoleAppender.h\<close>. The state is the text
  written to the output so far; the formatter is an argument, and so is what \<^verbatim>\<open>isatty\<close> said when the appender
  was made. A record written under the mutex is one atomic operation.
\<close>

definition writestr :: "string \<Rightarrow> string \<Rightarrow> string" where
  "writestr str out = out @ str"

definition ConsoleAppender_write :: "(log_record \<Rightarrow> string) \<Rightarrow> log_record \<Rightarrow> string \<Rightarrow> string" where
  "ConsoleAppender_write format r out = writestr (format r) out"

abbreviation escape :: char where "escape \<equiv> CHR 0x1B"

definition setColor :: "bool \<Rightarrow> severity \<Rightarrow> string \<Rightarrow> string" where
  "setColor isatty s out =
     (if isatty
      then (case s of
              fatal \<Rightarrow> writestr (escape # ''[97m'' @ escape # ''[41m'') out
            | error \<Rightarrow> writestr (escape # ''[91m'') out
            | warning \<Rightarrow> writestr (escape # ''[93m'') out
            | debug \<Rightarrow> writestr (escape # ''[96m'') out
            | verbose \<Rightarrow> writestr (escape # ''[96m'') out
            | _ \<Rightarrow> out)
      else out)"

definition resetColor :: "bool \<Rightarrow> string \<Rightarrow> string" where
  "resetColor isatty out = (if isatty then writestr (escape # ''[0m'' @ escape # ''[0K'') out else out)"

definition ColorConsoleAppender_write :: "bool \<Rightarrow> (log_record \<Rightarrow> string) \<Rightarrow> log_record \<Rightarrow> string \<Rightarrow> string" where
  "ColorConsoleAppender_write isatty format r out =
     resetColor isatty (writestr (format r) (setColor isatty (m_severity r) out))"

section \<open>What reaches a terminal\<close>

text \<open>
  A terminal shows the text without the sequences that set the colour: those that begin with an escape and end
  with the first letter.
\<close>

definition is_letter :: "char \<Rightarrow> bool" where
  "is_letter c \<longleftrightarrow> (of_char c :: nat) \<in> {65..90} \<union> {97..122}"

fun in_escape :: "bool \<Rightarrow> string \<Rightarrow> bool" where
  "in_escape b [] = b"
| "in_escape b (c # s) = in_escape (if b then \<not> is_letter c else c = escape) s"

fun shown :: "bool \<Rightarrow> string \<Rightarrow> string" where
  "shown b [] = ''''"
| "shown b (c # s) =
     (if b then shown (\<not> is_letter c) s else if c = escape then shown True s else c # shown False s)"

lemma in_escape_append [simp]: "in_escape b (s @ t) = in_escape (in_escape b s) t"
  by (induction s arbitrary: b) simp_all

lemma shown_append: "shown b (s @ t) = shown b s @ shown (in_escape b s) t"
  by (induction s arbitrary: b) simp_all

lemma shown_plain: "escape \<notin> set s \<Longrightarrow> shown False s = s \<and> \<not> in_escape False s"
  by (induction s) auto

lemma setColor_shown: "\<exists>c. setColor tty s out = out @ c \<and> shown False c = '''' \<and> \<not> in_escape False c"
  by (cases s) (auto simp: setColor_def writestr_def is_letter_def)

lemma resetColor_shown: "\<exists>c. resetColor tty out = out @ c \<and> shown False c = '''' \<and> \<not> in_escape False c"
  by (auto simp: resetColor_def writestr_def is_letter_def)

text \<open>Whatever the colours, the terminal shows what the plain appender writes.\<close>

lemma colors_add_nothing:
  assumes "escape \<notin> set (format r)" and "\<not> in_escape False out"
  shows "shown False (ColorConsoleAppender_write tty format r out) = shown False (ConsoleAppender_write format r out)
    \<and> \<not> in_escape False (ColorConsoleAppender_write tty format r out)"
proof -
  obtain c where c: "setColor tty (m_severity r) out = out @ c" "shown False c = ''''" "\<not> in_escape False c"
    using setColor_shown by blast
  obtain d where d: "resetColor tty ((out @ c) @ format r) = ((out @ c) @ format r) @ d" "shown False d = ''''" "\<not> in_escape False d"
    using resetColor_shown by blast
  show ?thesis
    using assms c d shown_plain [OF assms(1)]
    by (simp add: ColorConsoleAppender_write_def ConsoleAppender_write_def writestr_def shown_append)
qed

text \<open>A logger with a file and the console gives both the same records, in the same order.\<close>

lemma two_appenders:
  "Logger_append (addAppender b (addAppender a (Logger_new sev))) r s = b r (a r s)"
  by (simp add: Logger_append_def addAppender_def Logger_new_def)

end
