(* ===== verification/Grpc_Server.thy ===== *)
theory Grpc_Server
  imports Grpc_Client
begin

text \<open>
  \<^verbatim>\<open>Daemon/grpcservice/grpc_server.{h,cpp}\<close>: the classes that answer calls by asking a handler, on the side of
  the server (\<open>ServerImpl\<close>) and of a local client (\<open>ClientImpl\<close>), with the life of the gRPC server that
  carries them (\<open>ServerHelper\<close>). The handlers are the parameters \<open>server_handler\<close> and \<open>client_handler\<close> over a
  state \<open>'w\<close>. A writer takes one message at a time and says whether the stream is still open; the code does not
  look at the answer.
\<close>

record 'w server_handler =
  sh_Handshake :: "string \<Rightarrow> 'w \<Rightarrow> daemon_info \<times> 'w"
  sh_UpdateTorrentStatus :: "daemon_info \<Rightarrow> rpc_tinfo \<Rightarrow> 'w \<Rightarrow> 'w"
  sh_GetTaskList :: "daemon_info \<Rightarrow> 'w \<Rightarrow> task_type list \<times> 'w"
  sh_GetInfoForGenerateTorrents :: "daemon_info \<Rightarrow> 'w \<Rightarrow> rpc_tinfo list \<times> 'w"
  sh_GetTorrentsForDownload :: "daemon_info \<Rightarrow> 'w \<Rightarrow> rpc_tinfo list \<times> 'w"
  sh_GetTorrentsForUpdateStatus :: "daemon_info \<Rightarrow> 'w \<Rightarrow> rpc_tinfo list \<times> 'w"

record 'w client_handler =
  ch_GenerateTorrent :: "string \<Rightarrow> 'w \<Rightarrow> rpc_tinfo \<times> 'w"
  ch_DownloadTorrent :: "rpc_tinfo \<Rightarrow> 'w \<Rightarrow> 'w"
  ch_UpdateTorrentStatus :: "rpc_tinfo \<Rightarrow> 'w \<Rightarrow> 'w"

section \<open>The server's answers\<close>

text \<open>Each returns the status (always \<^verbatim>\<open>OK\<close>), the response where there is one, and the handler's state.\<close>

definition ServerImpl_Handshake :: "'w server_handler \<Rightarrow> string \<Rightarrow> 'w \<Rightarrow> (bool \<times> daemon_info) \<times> 'w" where
  "ServerImpl_Handshake h request w = (let (response, w1) = sh_Handshake h request w in ((True, response), w1))"

definition ServerImpl_UpdateTorrentStatus :: "'w server_handler \<Rightarrow> daemon_info \<times> rpc_tinfo \<Rightarrow> 'w \<Rightarrow> bool \<times> 'w" where
  "ServerImpl_UpdateTorrentStatus h request w = (True, sh_UpdateTorrentStatus h (fst request) (snd request) w)"

fun write_all :: "('m \<Rightarrow> 'o \<Rightarrow> bool \<times> 'o) \<Rightarrow> 'm list \<Rightarrow> 'o \<Rightarrow> 'o" where
  "write_all writer [] out = out"
| "write_all writer (m # rest) out = write_all writer rest (snd (writer m out))"

definition ServerImpl_GetTaskList ::
  "'w server_handler \<Rightarrow> daemon_info \<Rightarrow> (task_type \<Rightarrow> 'o \<Rightarrow> bool \<times> 'o) \<Rightarrow> 'w \<times> 'o \<Rightarrow> bool \<times> ('w \<times> 'o)" where
  "ServerImpl_GetTaskList h request writer = (\<lambda>(w, out).
     let (tasks, w1) = sh_GetTaskList h request w in (True, (w1, write_all writer tasks out)))"

definition ServerImpl_GetInfoForGenerateTorrents ::
  "'w server_handler \<Rightarrow> daemon_info \<Rightarrow> (rpc_tinfo \<Rightarrow> 'o \<Rightarrow> bool \<times> 'o) \<Rightarrow> 'w \<times> 'o \<Rightarrow> bool \<times> ('w \<times> 'o)" where
  "ServerImpl_GetInfoForGenerateTorrents h request writer = (\<lambda>(w, out).
     let (torrents, w1) = sh_GetInfoForGenerateTorrents h request w in (True, (w1, write_all writer torrents out)))"

definition ServerImpl_GetTorrentsForDownload ::
  "'w server_handler \<Rightarrow> daemon_info \<Rightarrow> (rpc_tinfo \<Rightarrow> 'o \<Rightarrow> bool \<times> 'o) \<Rightarrow> 'w \<times> 'o \<Rightarrow> bool \<times> ('w \<times> 'o)" where
  "ServerImpl_GetTorrentsForDownload h request writer = (\<lambda>(w, out).
     let (torrents, w1) = sh_GetTorrentsForDownload h request w in (True, (w1, write_all writer torrents out)))"

definition ServerImpl_GetTorrentsForUpdateStatus ::
  "'w server_handler \<Rightarrow> daemon_info \<Rightarrow> (rpc_tinfo \<Rightarrow> 'o \<Rightarrow> bool \<times> 'o) \<Rightarrow> 'w \<times> 'o \<Rightarrow> bool \<times> ('w \<times> 'o)" where
  "ServerImpl_GetTorrentsForUpdateStatus h request writer = (\<lambda>(w, out).
     let (torrents, w1) = sh_GetTorrentsForUpdateStatus h request w in (True, (w1, write_all writer torrents out)))"

section \<open>The local client's answers\<close>

definition ClientImpl_GenerateTorrent :: "'w client_handler \<Rightarrow> string \<Rightarrow> 'w \<Rightarrow> (bool \<times> rpc_tinfo) \<times> 'w" where
  "ClientImpl_GenerateTorrent h dir w = (let (response, w1) = ch_GenerateTorrent h dir w in ((True, response), w1))"

definition ClientImpl_DownloadTorrent :: "'w client_handler \<Rightarrow> rpc_tinfo \<Rightarrow> 'w \<Rightarrow> bool \<times> 'w" where
  "ClientImpl_DownloadTorrent h request w = (True, ch_DownloadTorrent h request w)"

definition ClientImpl_UpdateTorrentStatus :: "'w client_handler \<Rightarrow> rpc_tinfo \<Rightarrow> 'w \<Rightarrow> bool \<times> 'w" where
  "ClientImpl_UpdateTorrentStatus h request w = (True, ch_UpdateTorrentStatus h request w)"

section \<open>The server's life\<close>

text \<open>
  The pointer to the gRPC server, whose states are \<open>'g\<close>; \<open>build\<close> is what \<^verbatim>\<open>BuildAndStart\<close> makes (\<open>None\<close> when the
  port is taken). \<open>Stop\<close> releases the pointer without destroying the server, so it is leaked.
\<close>

record 'g server_helper =
  hp_server :: "'g option"
  hp_leaked :: "'g list"

definition Helper_Start :: "'g option \<Rightarrow> 'g server_helper \<Rightarrow> 'g server_helper" where
  "Helper_Start build s = s\<lparr>hp_server := build\<rparr>"

definition Helper_Wait :: "('g \<Rightarrow> 'g) \<Rightarrow> 'g server_helper \<Rightarrow> 'g server_helper" where
  "Helper_Wait wait s = s\<lparr>hp_server := map_option wait (hp_server s)\<rparr>"

definition Helper_Stop :: "('g \<Rightarrow> 'g) \<Rightarrow> ('g \<Rightarrow> 'g) \<Rightarrow> 'g server_helper \<Rightarrow> 'g server_helper" where
  "Helper_Stop shutdown wait s =
     (case hp_server s of
        None \<Rightarrow> s
      | Some g \<Rightarrow>
          (let s1 = Helper_Wait wait (s\<lparr>hp_server := Some (shutdown g)\<rparr>)
           in s1\<lparr>hp_server := None, hp_leaked := hp_leaked s1 @ (case hp_server s1 of None \<Rightarrow> [] | Some g1 \<Rightarrow> [g1])\<rparr>))"

text \<open>The destructor is a \<open>Stop\<close>; a second one does nothing.\<close>

lemma Helper_Stop_idem: "Helper_Stop f g (Helper_Stop f g s) = Helper_Stop f g s"
  by (simp add: Helper_Stop_def Let_def Helper_Wait_def split: option.split)

section \<open>A client and a server in one process\<close>

text \<open>
  The stub of a connection that loses nothing: a stream delivers what the server wrote, in that order. It is
  the connection the local test programs have.
\<close>

definition collect :: "'m \<Rightarrow> 'm list \<Rightarrow> bool \<times> 'm list" where
  "collect m out = (True, out @ [m])"

definition streamed :: "bool \<times> ('w \<times> 'm list) \<Rightarrow> ('m list \<times> bool) \<times> 'w" where
  "streamed = (\<lambda>(ok, (w, out)). ((out, ok), w))"

definition loopback :: "'w server_handler \<Rightarrow> 'w stub_api" where
  "loopback h =
     \<lparr>sa_Handshake = ServerImpl_Handshake h,
      sa_GetTaskList = (\<lambda>di w. streamed (ServerImpl_GetTaskList h di collect (w, []))),
      sa_GetInfoForGenerateTorrents = (\<lambda>di w. streamed (ServerImpl_GetInfoForGenerateTorrents h di collect (w, []))),
      sa_GetTorrentsForDownload = (\<lambda>di w. streamed (ServerImpl_GetTorrentsForDownload h di collect (w, []))),
      sa_GetTorrentsForUpdateStatus = (\<lambda>di w. streamed (ServerImpl_GetTorrentsForUpdateStatus h di collect (w, []))),
      sa_UpdateTorrentStatus = (\<lambda>di ti. ServerImpl_UpdateTorrentStatus h (di, ti))\<rparr>"

lemma write_all_collect [simp]: "write_all collect msgs out = out @ msgs"
  by (induction msgs arbitrary: out) (simp_all add: collect_def)

text \<open>What the client reads is what the handler gave.\<close>

lemma loopback_calls [simp]:
  "sa_Handshake (loopback h) u w = (let (i, w1) = sh_Handshake h u w in ((True, i), w1))"
  "sa_GetTaskList (loopback h) di w = (let (ts, w1) = sh_GetTaskList h di w in ((ts, True), w1))"
  "sa_GetInfoForGenerateTorrents (loopback h) di w = (let (ts, w1) = sh_GetInfoForGenerateTorrents h di w in ((ts, True), w1))"
  "sa_GetTorrentsForDownload (loopback h) di w = (let (ts, w1) = sh_GetTorrentsForDownload h di w in ((ts, True), w1))"
  "sa_GetTorrentsForUpdateStatus (loopback h) di w = (let (ts, w1) = sh_GetTorrentsForUpdateStatus h di w in ((ts, True), w1))"
  "sa_UpdateTorrentStatus (loopback h) di ti w = (True, sh_UpdateTorrentStatus h di ti w)"
  by (simp_all add: loopback_def ServerImpl_Handshake_def ServerImpl_GetTaskList_def ServerImpl_GetInfoForGenerateTorrents_def
      ServerImpl_GetTorrentsForDownload_def ServerImpl_GetTorrentsForUpdateStatus_def ServerImpl_UpdateTorrentStatus_def
      streamed_def split_def Let_def)

end
