(* ===== verification/Local_Server.thy ===== *)
theory Local_Server
  imports Controller Grpc_Server
begin

text \<open>
  The controller and its client against the server classes of theory \<open>Grpc_Server\<close>, joined in one process: what
  the tasks of the client make the server's handler do. \<open>'srv\<close> is the state of the handler.
\<close>

lemma poll_local:
  assumes "IsRun g" and "g_stub g" and "sh_GetTaskList h (GetClientInfo g) (wo_srv w) = (tasks, s1)"
  shows "run_body (world_stub (loopback h)) cb UPDATE_TASK_LIST (g, w) =
    (Ret (), (AddTaskAfterTimeOut UPDATE_TASK_LIST (update_delay g) (fold AddTask tasks g), w\<lparr>wo_srv := s1\<rparr>))"
  using assms
  by (simp add: UpdateTasksTask_def world_stub_def on_srv_def Let_def update_delay_def)

text \<open>Between a running client and a handler behind the server classes nothing is lost, doubled or moved. A
  poll asks the handler once and enqueues exactly the tasks it gave, in its order, and then the next poll; a
  status task asks the handler once and calls it back once for each torrent it named, in its order, with the
  client's credentials and what the registry holds of the torrent.\<close>

lemma local_server_session:
  assumes "IsRun g" and "g_stub g" and "wo_torrent w = Some t" and "engine_ok t"
    and "sh_GetTaskList h (GetClientInfo g) (wo_srv w) = (tasks, s1)"
    and "sh_GetTorrentsForUpdateStatus h (GetClientInfo g) (wo_srv w) = (tis, s2)"
  shows "(\<exists>g1. run_body (world_stub (loopback h)) (controller_cb lt ds fresh uuid) UPDATE_TASK_LIST (g, w)
        = (Ret (), (g1, w\<lparr>wo_srv := s1\<rparr>))
      \<and> queueMessages (w_queue (g_worker g1)) = queueMessages (w_queue (g_worker g)) @ map CreateTask tasks
      \<and> h_list (w_handler (g_worker g1)) = h_list (w_handler (g_worker g))
          @ [\<lparr>taskToRun = Some UPDATE_TASK_LIST, ms = update_delay g\<rparr>])
    \<and> (\<exists>w'. run_body (world_stub (loopback h)) (controller_cb lt ds fresh uuid) UPDATE_TORRENT_STATUS (g, w)
        = (Ret (), (g, w'))
      \<and> wo_srv w' = fold (\<lambda>ti. sh_UpdateTorrentStatus h (GetClientInfo g) (report_of t (ri_id ti))) tis s2)"
proof
  let ?g1 = "AddTaskAfterTimeOut UPDATE_TASK_LIST (update_delay g) (fold AddTask tasks g)"
  have fold: "queueMessages (w_queue (g_worker (fold AddTask tasks k))) =
        queueMessages (w_queue (g_worker k)) @ map CreateTask tasks
      \<and> w_handler (g_worker (fold AddTask tasks k)) = w_handler (g_worker k)" for k
    by (induction tasks arbitrary: k) (simp_all add: AddTask_def EnqueueTask_def Push_def)
  have q: "queueMessages (w_queue (g_worker ?g1)) = queueMessages (w_queue (g_worker g)) @ map CreateTask tasks"
    and d: "h_list (w_handler (g_worker ?g1)) = h_list (w_handler (g_worker g))
      @ [\<lparr>taskToRun = Some UPDATE_TASK_LIST, ms = update_delay g\<rparr>]"
    using fold [of g] by (simp_all add: AddTaskAfterTimeOut_def EnqueueTaskAfterTimeOut_def add_deferred_def)
  show "\<exists>g1. run_body (world_stub (loopback h)) (controller_cb lt ds fresh uuid) UPDATE_TASK_LIST (g, w)
        = (Ret (), (g1, w\<lparr>wo_srv := s1\<rparr>))
      \<and> queueMessages (w_queue (g_worker g1)) = queueMessages (w_queue (g_worker g)) @ map CreateTask tasks
      \<and> h_list (w_handler (g_worker g1)) = h_list (w_handler (g_worker g))
          @ [\<lparr>taskToRun = Some UPDATE_TASK_LIST, ms = update_delay g\<rparr>]"
    using poll_local [OF assms(1,2,5)] q d by blast
  have "sa_GetTorrentsForUpdateStatus (loopback h) (GetClientInfo g) (wo_srv w) = ((tis, True), s2)"
    using assms(6) by simp
  from report_all [OF assms(2-4) this, of lt ds fresh uuid]
  show "\<exists>w'. run_body (world_stub (loopback h)) (controller_cb lt ds fresh uuid) UPDATE_TORRENT_STATUS (g, w) = (Ret (), (g, w'))
      \<and> wo_srv w' = fold (\<lambda>ti. sh_UpdateTorrentStatus h (GetClientInfo g) (report_of t (ri_id ti))) tis s2"
    by auto
qed

text \<open>A handler that asks for one torrent and lists the reports it gets.\<close>

definition list_handler :: "rpc_tinfo list server_handler" where
  "list_handler = \<lparr>sh_Handshake = (\<lambda>u s. (\<lparr>di_uuid = u, di_authTocken = ''t'', di_authStatus = Auth_OK\<rparr>, s)),
     sh_UpdateTorrentStatus = (\<lambda>di ti s. s @ [ti]),
     sh_GetTaskList = (\<lambda>di s. ([UPDATE_TORRENT_STATUS], s)),
     sh_GetInfoForGenerateTorrents = (\<lambda>di s. ([], s)), sh_GetTorrentsForDownload = (\<lambda>di s. ([], s)),
     sh_GetTorrentsForUpdateStatus = (\<lambda>di s. ([one_torrent ''a''], s))\<rparr>"

end
