(* ===== verification/Torrent_Jobs.thy ===== *)
theory Torrent_Jobs
  imports Torrent_Laws
begin

text \<open>
  The threads \<open>CreateTorrentAsync\<close> detaches (\<^verbatim>\<open>Daemon/src/torrent.cpp\<close>), with their interleavings. A thread has a
  program counter in \<open>CreateTorrent\<close> and the functions it calls; one step is the code up to and with one access
  to shared state: a call of the registry, a setter on a \<open>TorrentInfo\<close> (which locks), a call of the file system,
  the handing over to the session. Hashing and encoding read the project alone and are one step each between
  two progress reports. Theory \<open>Torrent_Core\<close> has the same code as the function \<open>CreateTorrent\<close>; the two are
  proved equal for a thread that runs alone.
\<close>

section \<open>One thread\<close>

text \<open>
  The counters hold the local variables that are still used: the pointer \<open>info\<close>, the files, the pieces still to
  be hashed and whether hashing fails, the entry, the torrent read back. The \<open>U\<close> counters are inside
  \<open>UpdateStatus\<close> and return to the last argument.
\<close>

datatype ('en, 'ti) jpc =
    J_Create
  | J_Generating nat
  | J_Project nat
  | J_Files nat
  | J_Hash nat "string list" "int list" bool
  | U_Get tstatus u32 "('en, 'ti) jpc"
  | U_Status nat tstatus u32 "('en, 'ti) jpc"
  | U_Progress nat u32 "('en, 'ti) jpc"
  | J_Folder nat 'en
  | J_Exists nat 'en
  | J_Remove nat 'en
  | J_Write nat 'en
  | J_Read nat
  | J_Link nat 'ti
  | J_TFile nat
  | J_Full nat
  | J_Generated nat
  | J_Load
  | J_Add 'ti
  | J_Done

definition torrent_file :: "dirs \<Rightarrow> string \<Rightarrow> string" where
  "torrent_file ds path = tf_dir ds @ ''/'' @ GetFileName path @ ''.torrent''"

abbreviation set_error :: "('en, 'ti) jpc" where
  "set_error \<equiv> U_Get GENERATION_ERROR 0 J_Done"

fun job_step ::
  "('en, 'ti) lt_api \<Rightarrow> dirs \<Rightarrow> string \<Rightarrow> string \<Rightarrow> string \<Rightarrow> ('en, 'ti) jpc \<times> 'ti engine
   \<Rightarrow> unit outcome \<times> (('en, 'ti) jpc \<times> 'ti engine)" where
  "job_step lt ds fresh uuid path (J_Create, t) =
     (let (info, s1) = Create uuid (t_mgr t) in (Ret (), (J_Generating info, t\<lparr>t_mgr := s1\<rparr>)))"
| "job_step lt ds fresh uuid path (J_Generating info, t) =
     (Ret (), (J_Project info, t\<lparr>t_mgr := modify info (SetStatus GENERATING) (t_mgr t)\<rparr>))"
| "job_step lt ds fresh uuid path (J_Project info, t) =
     (Ret (), (J_Files info, t\<lparr>t_mgr := modify info (SetPathToProject path) (t_mgr t)\<rparr>))"
| "job_step lt ds fresh uuid path (J_Files info, t) =
     (let files = lt_add_files lt (t_fs t) path
      in if files = [] then (Ret (), (set_error, t))
         else (let (pieces, ec) = lt_hash_calls lt (t_fs t) files (GetDirectory path)
               in (Ret (), (J_Hash info files pieces (ec \<noteq> None), t))))"
| "job_step lt ds fresh uuid path (J_Hash info files (i # pieces) failed, t) =
     (Ret (), (U_Get GENERATING (word_of_int ((i * 100) sdiv lt_num_pieces lt files))
                 (J_Hash info files pieces failed), t))"
| "job_step lt ds fresh uuid path (J_Hash info files [] failed, t) =
     (if failed then (Ret (), (J_Done, t))
      else (case lt_generate lt (t_fs t) files (GetDirectory path) ''VerAI libtorrent'' of
              None \<Rightarrow> (Ret (), (set_error, t))
            | Some e \<Rightarrow> (Ret (), (J_Folder info e, t))))"
| "job_step lt ds fresh uuid path (U_Get status progress k, t) =
     (let (info, s1) = Get uuid (t_mgr t) in (Ret (), (U_Status info status progress k, t\<lparr>t_mgr := s1\<rparr>)))"
| "job_step lt ds fresh uuid path (U_Status info status progress k, t) =
     (Ret (), (U_Progress info progress k, t\<lparr>t_mgr := modify info (SetStatus status) (t_mgr t)\<rparr>))"
| "job_step lt ds fresh uuid path (U_Progress info progress k, t) =
     (Ret (), (k, t\<lparr>t_mgr := modify info (SetProgress (sint progress)) (t_mgr t)\<rparr>))"
| "job_step lt ds fresh uuid path (J_Folder info e, t) =
     (Ret (), (J_Exists info e, t\<lparr>t_fs := CreateFolder (tf_dir ds) (t_fs t)\<rparr>))"
| "job_step lt ds fresh uuid path (J_Exists info e, t) =
     (Ret (), (if IsFileExist (t_fs t) (torrent_file ds path) then J_Remove info e else J_Write info e, t))"
| "job_step lt ds fresh uuid path (J_Remove info e, t) =
     (case Remove (torrent_file ds path) (t_fs t) of
        (Inl ex, fs1) \<Rightarrow> (Throw ex, (J_Remove info e, t\<lparr>t_fs := fs1\<rparr>))
      | (Inr _, fs1) \<Rightarrow> (Ret (), (J_Write info e, t\<lparr>t_fs := fs1\<rparr>)))"
| "job_step lt ds fresh uuid path (J_Write info e, t) =
     (Ret (), (J_Read info, t\<lparr>t_fs := ofs_write (t_fs t) (torrent_file ds path) (lt_bencode lt e)\<rparr>))"
| "job_step lt ds fresh uuid path (J_Read info, t) =
     (case CreateInfoFromFile lt (t_fs t) (torrent_file ds path) of
        Inl ex \<Rightarrow> (Ret (), (set_error, t))
      | Inr tInfo \<Rightarrow> (Ret (), (J_Link info tInfo, t)))"
| "job_step lt ds fresh uuid path (J_Link info tInfo, t) =
     (Ret (), (J_TFile info, t\<lparr>t_mgr := modify info (SetLink (lt_magnet lt tInfo)) (t_mgr t)\<rparr>))"
| "job_step lt ds fresh uuid path (J_TFile info, t) =
     (Ret (), (J_Full info, t\<lparr>t_mgr := modify info (SetPathToTFile (torrent_file ds path)) (t_mgr t)\<rparr>))"
| "job_step lt ds fresh uuid path (J_Full info, t) =
     (Ret (), (J_Generated info, t\<lparr>t_mgr := modify info (SetProgress 100) (t_mgr t)\<rparr>))"
| "job_step lt ds fresh uuid path (J_Generated info, t) =
     (Ret (), (J_Load, t\<lparr>t_mgr := modify info (SetStatus GENERATED) (t_mgr t)\<rparr>))"
| "job_step lt ds fresh uuid path (J_Load, t) =
     (case CreateInfoFromFile lt (t_fs t) (torrent_file ds path) of
        Inl ex \<Rightarrow> (Ret (), (set_error, t))
      | Inr ti \<Rightarrow> (Ret (), (J_Add ti, t)))"
| "job_step lt ds fresh uuid path (J_Add ti, t) =
     (case AddTorrent fresh uuid (default_params\<lparr>ap_save_path := pr_dir ds, ap_ti := Some ti, ap_seed_mode := True\<rparr>) t of
        (Ret _, t1) \<Rightarrow> (Ret (), (J_Done, t1))
      | (r, t1) \<Rightarrow> (r, (J_Add ti, t1)))"
| "job_step lt ds fresh uuid path (J_Done, t) = (Ret (), (J_Done, t))"

text \<open>At most \<open>n\<close> steps; an exception ends the run.\<close>

fun job_iter ::
  "('en, 'ti) lt_api \<Rightarrow> dirs \<Rightarrow> string \<Rightarrow> string \<Rightarrow> string \<Rightarrow> nat \<Rightarrow> ('en, 'ti) jpc \<times> 'ti engine
   \<Rightarrow> unit outcome \<times> (('en, 'ti) jpc \<times> 'ti engine)" where
  "job_iter lt ds fresh uuid path 0 s = (Ret (), s)"
| "job_iter lt ds fresh uuid path (Suc n) s =
     (case job_step lt ds fresh uuid path s of
        (Ret _, s1) \<Rightarrow> job_iter lt ds fresh uuid path n s1
      | r \<Rightarrow> r)"

section \<open>A thread that runs alone\<close>

text \<open>From \<open>s\<close> the thread comes to \<open>s1\<close>; it ends with \<open>r\<close>, for good.\<close>

definition comes_to ::
  "('en, 'ti) lt_api \<Rightarrow> dirs \<Rightarrow> string \<Rightarrow> string \<Rightarrow> string \<Rightarrow> ('en, 'ti) jpc \<times> 'ti engine \<Rightarrow> ('en, 'ti) jpc \<times> 'ti engine \<Rightarrow> bool" where
  "comes_to lt ds fresh uuid path s s1 \<longleftrightarrow> (\<exists>n. job_iter lt ds fresh uuid path n s = (Ret (), s1))"

definition ends_with ::
  "('en, 'ti) lt_api \<Rightarrow> dirs \<Rightarrow> string \<Rightarrow> string \<Rightarrow> string \<Rightarrow> ('en, 'ti) jpc \<times> 'ti engine \<Rightarrow> unit outcome \<Rightarrow> 'ti engine \<Rightarrow> bool" where
  "ends_with lt ds fresh uuid path s r t1 \<longleftrightarrow>
     (\<exists>n pc. (r = Ret () \<longrightarrow> pc = J_Done) \<and> (\<forall>m \<ge> n. job_iter lt ds fresh uuid path m s = (r, (pc, t1))))"

lemma job_iter_add:
  "job_iter lt ds fresh uuid path n s = (Ret (), s1) \<Longrightarrow>
   job_iter lt ds fresh uuid path (n + m) s = job_iter lt ds fresh uuid path m s1"
  by (induction n arbitrary: s) (auto split: prod.splits outcome.splits)

lemma comes_to_refl: "comes_to lt ds fresh uuid path s s"
  unfolding comes_to_def by (rule exI [of _ 0]) simp

lemma comes_to_step:
  "job_step lt ds fresh uuid path s = (Ret (), s1) \<Longrightarrow> comes_to lt ds fresh uuid path s1 s2 \<Longrightarrow>
   comes_to lt ds fresh uuid path s s2"
  unfolding comes_to_def by (elim exE, rule_tac x = "Suc n" in exI) simp

lemma comes_to_trans:
  "comes_to lt ds fresh uuid path s s1 \<Longrightarrow> comes_to lt ds fresh uuid path s1 s2 \<Longrightarrow> comes_to lt ds fresh uuid path s s2"
  unfolding comes_to_def by (metis job_iter_add)

lemma ends_with_done: "ends_with lt ds fresh uuid path (J_Done, t) (Ret ()) t"
proof -
  have "job_iter lt ds fresh uuid path m (J_Done, t) = (Ret (), (J_Done, t))" for m by (induction m) simp_all
  then show ?thesis by (simp add: ends_with_def)
qed

lemma ends_with_stop:
  assumes "job_step lt ds fresh uuid path s = (r, (pc, t1))" and "r \<noteq> Ret ()"
  shows "ends_with lt ds fresh uuid path s r t1"
proof -
  have "job_iter lt ds fresh uuid path m s = (r, (pc, t1))" if "m \<ge> 1" for m
    using that assms by (cases m; cases r) simp_all
  with assms(2) show ?thesis by (auto simp: ends_with_def)
qed

lemma ends_with_after:
  assumes "comes_to lt ds fresh uuid path s s1" and "ends_with lt ds fresh uuid path s1 r t1"
  shows "ends_with lt ds fresh uuid path s r t1"
proof -
  obtain k where k: "job_iter lt ds fresh uuid path k s = (Ret (), s1)" using assms(1) by (auto simp: comes_to_def)
  obtain n pc where n: "r = Ret () \<longrightarrow> pc = J_Done" "\<forall>m \<ge> n. job_iter lt ds fresh uuid path m s1 = (r, (pc, t1))"
    using assms(2) by (auto simp: ends_with_def)
  have "job_iter lt ds fresh uuid path m s = (r, (pc, t1))" if "m \<ge> k + n" for m
    using job_iter_add [OF k, of "m - k"] n(2) that by simp
  with n(1) show ?thesis by (auto simp: ends_with_def)
qed

lemma comes_to_UpdateStatus:
  "comes_to lt ds fresh uuid path (U_Get status progress k, t)
     (k, t\<lparr>t_mgr := UpdateStatus uuid status progress (t_mgr t)\<rparr>)"
  unfolding comes_to_def
  by (rule exI [of _ 3]) (simp add: numeral_3_eq_3 UpdateStatus_def Let_def split_def)

lemma comes_to_hashed:
  "comes_to lt ds fresh uuid path (J_Hash info files pieces failed, t)
     (J_Hash info files [] failed,
      t\<lparr>t_mgr := fold (\<lambda>i. UpdateCreationProgress uuid i (lt_num_pieces lt files)) pieces (t_mgr t)\<rparr>)"
proof (induction pieces arbitrary: t)
  case (Cons i pieces)
  let ?t = "t\<lparr>t_mgr := UpdateCreationProgress uuid i (lt_num_pieces lt files) (t_mgr t)\<rparr>"
  have "comes_to lt ds fresh uuid path (J_Hash info files (i # pieces) failed, t) (J_Hash info files pieces failed, ?t)"
    by (rule comes_to_step) (simp, simp add: UpdateCreationProgress_def comes_to_UpdateStatus)
  from comes_to_trans [OF this] Cons.IH [of ?t] show ?case by simp
qed (simp add: comes_to_refl)

lemma comes_to_files:
  "comes_to lt ds fresh uuid path (J_Create, t)
     (J_Files (fst (Create uuid (t_mgr t))), t\<lparr>t_mgr := create_s3 uuid path (t_mgr t)\<rparr>)"
  unfolding comes_to_def
  by (rule exI [of _ 3]) (simp add: numeral_3_eq_3 create_s3_def split_def Let_def)

lemma comes_to_encode:
  assumes "lt_add_files lt (t_fs t) path = files" and "files \<noteq> []"
    and "lt_hash_calls lt (t_fs t) files (GetDirectory path) = (pieces, ec)"
  shows "comes_to lt ds fresh uuid path (J_Create, t)
     (J_Hash (fst (Create uuid (t_mgr t))) files [] (ec \<noteq> None),
      t\<lparr>t_mgr := create_s4 uuid path pieces (lt_num_pieces lt files) (t_mgr t)\<rparr>)"
proof -
  let ?p = "fst (Create uuid (t_mgr t))" and ?t = "t\<lparr>t_mgr := create_s3 uuid path (t_mgr t)\<rparr>"
  have "job_step lt ds fresh uuid path (J_Files ?p, ?t) = (Ret (), (J_Hash ?p files pieces (ec \<noteq> None), ?t))"
    using assms by simp
  from comes_to_step [OF this comes_to_hashed [of lt ds fresh uuid path ?p files pieces "ec \<noteq> None" ?t]]
    comes_to_trans [OF comes_to_files [of lt ds fresh uuid path t]]
  show ?thesis by (simp add: create_s4_def)
qed

lemma comes_to_written:
  assumes "WriteTorrent lt ds e (GetFileName path) (t_fs t) = (Inr fileName, fs1)"
  shows "comes_to lt ds fresh uuid path (J_Folder info e, t) (J_Read info, t\<lparr>t_fs := fs1\<rparr>)"
    and "fileName = torrent_file ds path"
proof -
  let ?fs = "CreateFolder (tf_dir ds) (t_fs t)"
  show f: "fileName = torrent_file ds path"
    using assms by (auto simp: WriteTorrent_def Let_def torrent_file_def split: prod.splits sum.splits)
  show "comes_to lt ds fresh uuid path (J_Folder info e, t) (J_Read info, t\<lparr>t_fs := fs1\<rparr>)"
  proof (cases "IsFileExist ?fs (torrent_file ds path)")
    case True
    then obtain u fs2 where "Remove (torrent_file ds path) ?fs = (Inr u, fs2)"
      "fs1 = ofs_write fs2 (torrent_file ds path) (lt_bencode lt e)"
      using assms by (auto simp: WriteTorrent_def Let_def torrent_file_def split: prod.splits sum.splits if_splits)
    with True show ?thesis
      unfolding comes_to_def by (intro exI [of _ 4]) (simp add: eval_nat_numeral)
  next
    case False
    then have "fs1 = ofs_write ?fs (torrent_file ds path) (lt_bencode lt e)"
      using assms by (auto simp: WriteTorrent_def Let_def torrent_file_def split: prod.splits sum.splits if_splits)
    with False show ?thesis
      unfolding comes_to_def by (intro exI [of _ 3]) (simp add: eval_nat_numeral)
  qed
qed

lemma ends_with_error:
  "ends_with lt ds fresh uuid path (set_error, t) (Ret ()) (t\<lparr>t_mgr := UpdateStatus uuid GENERATION_ERROR 0 (t_mgr t)\<rparr>)"
  by (rule ends_with_after [OF comes_to_UpdateStatus ends_with_done])

lemma ends_with_finish:
  assumes "finish_create lt ds fresh uuid info (torrent_file ds path) t = (r, t1)"
  shows "ends_with lt ds fresh uuid path (J_Read info, t) r t1"
proof (cases "CreateInfoFromFile lt (t_fs t) (torrent_file ds path)")
  case (Inl e)
  then have "comes_to lt ds fresh uuid path (J_Read info, t) (set_error, t)"
    by (intro comes_to_step [OF _ comes_to_refl]) simp
  from ends_with_after [OF this ends_with_error] assms Inl show ?thesis by (simp add: finish_create_def)
next
  case (Inr x)
  let ?s = "modify info (SetStatus GENERATED) (modify info (SetProgress 100)
      (modify info (SetPathToTFile (torrent_file ds path)) (modify info (SetLink (lt_magnet lt x)) (t_mgr t))))"
  let ?t = "t\<lparr>t_mgr := ?s\<rparr>"
  have c: "comes_to lt ds fresh uuid path (J_Read info, t) (J_Add x, ?t)"
    using Inr unfolding comes_to_def by (intro exI [of _ 6]) (simp add: eval_nat_numeral)
  let ?r = "AddTorrent fresh uuid (default_params\<lparr>ap_save_path := pr_dir ds, ap_ti := Some x, ap_seed_mode := True\<rparr>) ?t"
  have rt: "(r, t1) = ?r" "fst ?r = Ret () \<or> fst ?r = Undefined"
    using assms Inr
    by (auto simp: finish_create_def Let_def AddTorrentFile_def AddTorrent_def split: outcome.splits prod.splits if_splits)
  have "ends_with lt ds fresh uuid path (J_Add x, ?t) r t1"
  proof (cases "fst ?r = Ret ()")
    case True
    with rt have "job_step lt ds fresh uuid path (J_Add x, ?t) = (Ret (), (J_Done, t1))" "r = Ret ()"
      by (cases ?r; simp)+
    with ends_with_after [OF comes_to_step [OF _ comes_to_refl] ends_with_done] show ?thesis by fastforce
  next
    case False
    with rt have "job_step lt ds fresh uuid path (J_Add x, ?t) = (r, (J_Add x, t1))" "r \<noteq> Ret ()"
      by (cases ?r; auto)+
    then show ?thesis by (rule ends_with_stop)
  qed
  with c show ?thesis by (rule ends_with_after)
qed

lemma ends_with_folder:
  assumes "(case WriteTorrent lt ds e (GetFileName path) (t_fs t) of
      (Inl ex, fs1) \<Rightarrow> (Throw ex, t\<lparr>t_fs := fs1\<rparr>)
    | (Inr fileName, fs1) \<Rightarrow> finish_create lt ds fresh uuid info fileName (t\<lparr>t_fs := fs1\<rparr>)) = (r, t1)"
  shows "ends_with lt ds fresh uuid path (J_Folder info e, t) r t1"
proof -
  obtain w fs1 where w: "WriteTorrent lt ds e (GetFileName path) (t_fs t) = (w, fs1)" by fastforce
  show ?thesis
  proof (cases w)
    case (Inr fileName)
    note c = comes_to_written(1) [OF w [unfolded Inr], of fresh uuid info] comes_to_written(2) [OF w [unfolded Inr]]
    have "finish_create lt ds fresh uuid info (torrent_file ds path) (t\<lparr>t_fs := fs1\<rparr>) = (r, t1)"
      using assms w Inr c(2) by simp
    from ends_with_after [OF c(1) ends_with_finish [OF this]] show ?thesis .
  next
    case (Inl ex)
    let ?fs = "CreateFolder (tf_dir ds) (t_fs t)"
    from w Inl have x: "IsFileExist ?fs (torrent_file ds path)" "Remove (torrent_file ds path) ?fs = (Inl ex, fs1)"
      by (auto simp: WriteTorrent_def Let_def torrent_file_def split: prod.splits sum.splits if_splits)
    then have c: "comes_to lt ds fresh uuid path (J_Folder info e, t) (J_Remove info e, t\<lparr>t_fs := ?fs\<rparr>)"
      unfolding comes_to_def by (intro exI [of _ 2]) (simp add: eval_nat_numeral)
    have "r = Throw ex" "t1 = t\<lparr>t_fs := fs1\<rparr>" using assms w Inl by simp_all
    then have "ends_with lt ds fresh uuid path (J_Remove info e, t\<lparr>t_fs := ?fs\<rparr>) r t1"
      using x by (intro ends_with_stop) simp_all
    from ends_with_after [OF c this] show ?thesis .
  qed
qed

text \<open>C17: the step-by-step model of a generating thread is the same program as \<open>CreateTorrent\<close>: a thread that is not
  interrupted ends, after finitely many steps and for good, with the outcome and the state of that function,
  on every branch: no files, a failed hash, a failed encoding, an exception from the file system, a torrent file
  that cannot be read back.\<close>

theorem thread_alone:
  assumes "CreateTorrent lt ds fresh uuid path t = (r, t1)"
  shows "\<exists>n pc. (r = Ret () \<longrightarrow> pc = J_Done)
    \<and> (\<forall>m \<ge> n. job_iter lt ds fresh uuid path m (J_Create, t) = (r, (pc, t1)))"
proof -
  let ?files = "lt_add_files lt (t_fs t) path" and ?p = "fst (Create uuid (t_mgr t))"
  obtain pieces ec where hash: "lt_hash_calls lt (t_fs t) ?files (GetDirectory path) = (pieces, ec)" by fastforce
  let ?t = "t\<lparr>t_mgr := create_s4 uuid path pieces (lt_num_pieces lt ?files) (t_mgr t)\<rparr>"
  note run = assms [unfolded CreateTorrent_stages Let_def hash, simplified]
  have "ends_with lt ds fresh uuid path (J_Create, t) r t1"
  proof (cases "?files = []")
    case True
    let ?t3 = "t\<lparr>t_mgr := create_s3 uuid path (t_mgr t)\<rparr>"
    have "comes_to lt ds fresh uuid path (J_Files ?p, ?t3) (set_error, ?t3)"
      using True by (intro comes_to_step [OF _ comes_to_refl]) simp
    from ends_with_after [OF comes_to_trans [OF comes_to_files this] ends_with_error] True run
    show ?thesis by simp
  next
    case files: False
    note enc = comes_to_encode [OF refl files hash, of ds fresh uuid]
    show ?thesis
    proof (cases "ec = None")
      case False
      then have "comes_to lt ds fresh uuid path (J_Hash ?p ?files [] (ec \<noteq> None), ?t) (J_Done, ?t)"
        by (intro comes_to_step [OF _ comes_to_refl]) simp
      from ends_with_after [OF comes_to_trans [OF enc this] ends_with_done] False files run
      show ?thesis by simp
    next
      case ec: True
      show ?thesis
      proof (cases "lt_generate lt (t_fs t) ?files (GetDirectory path) ''VerAI libtorrent''")
        case None
        then have "comes_to lt ds fresh uuid path (J_Hash ?p ?files [] (ec \<noteq> None), ?t) (set_error, ?t)"
          using ec by (intro comes_to_step [OF _ comes_to_refl]) simp
        from ends_with_after [OF comes_to_trans [OF enc this] ends_with_error] None ec files run
        show ?thesis by simp
      next
        case (Some e)
        then have "comes_to lt ds fresh uuid path (J_Hash ?p ?files [] (ec \<noteq> None), ?t) (J_Folder ?p e, ?t)"
          using ec by (intro comes_to_step [OF _ comes_to_refl]) simp
        note fold = comes_to_trans [OF enc this]
        have "ends_with lt ds fresh uuid path (J_Folder ?p e, ?t) r t1"
          using run files ec Some by (intro ends_with_folder) (simp split: prod.splits sum.splits)
        from ends_with_after [OF fold this] show ?thesis .
      qed
    qed
  qed
  then show ?thesis by (auto simp: ends_with_def)
qed

theorem thread_alone_witness:
  "\<exists>n. job_iter demo_lt demo_dirs ''f'' ''u'' ''/q'' n (J_Create, demo_engine) =
     (Ret (), (J_Done, snd (CreateTorrent demo_lt demo_dirs ''f'' ''u'' ''/q'' demo_engine)))"
proof -
  have "CreateTorrent demo_lt demo_dirs ''f'' ''u'' ''/q'' demo_engine
      = (Ret (), snd (CreateTorrent demo_lt demo_dirs ''f'' ''u'' ''/q'' demo_engine))"
    by (simp add: CreateTorrent_stages demo_lt_def sys_stat_def resolve_def needs_dir_def demo_fs_def)
  from thread_alone [OF this] show ?thesis by auto
qed

section \<open>Pointers of a thread\<close>

text \<open>The object under \<open>p\<close> is filed under \<open>v\<close> or under no id, and will never be filed under another.\<close>

definition owned :: "mgr \<Rightarrow> string \<Rightarrow> nat \<Rightarrow> bool" where
  "owned s v p \<longleftrightarrow> p < m_next s \<and> (\<forall>k. bound s k p \<longrightarrow> k = v)"

definition grows :: "mgr \<Rightarrow> mgr \<Rightarrow> bool" where
  "grows s s1 \<longleftrightarrow> (\<forall>v p. (owned s v p \<longrightarrow> owned s1 v p) \<and> (bound s v p \<longrightarrow> bound s1 v p))"

named_theorems grow_intros

lemma grows_refl [grow_intros]: "grows s s"
  by (simp add: grows_def)

lemma grows_trans: "grows s s1 \<Longrightarrow> grows s1 s2 \<Longrightarrow> grows s s2"
  by (simp add: grows_def)

lemma grows_modify [grow_intros]: "grows s s1 \<Longrightarrow> grows s (modify p f s1)"
proof -
  have "m_next (modify p f s1) = m_next s1" by (simp add: modify_def)
  then have "owned (modify p f s1) v q = owned s1 v q" for v q by (simp add: owned_def)
  then show "grows s s1 \<Longrightarrow> grows s (modify p f s1)" by (simp add: grows_def)
qed

lemma grows_Get [grow_intros]: "grows s s1 \<Longrightarrow> grows s (snd (Get k s1))"
  by (auto simp: grows_def owned_def bound_def Get_def make_shared_def less_Suc_eq split: option.splits)

lemma grows_Create [grow_intros]:
  assumes "grows s s1" and "mgr_ok s1"
  shows "grows s (snd (Create k s1))"
proof (cases "map_of (m_list s1) k")
  case None
  have "owned (snd (Create k s1)) v p" if "owned s1 v p" for v p
    using that assms(2)
    by (auto simp: owned_def bound_def Create_new [OF None] map_find_put make_shared_def split: if_splits)
  moreover have "bound (snd (Create k s1)) v p" if "bound s1 v p" for v p
    using that assms(2) None by (auto simp: bound_def Create_new [OF None] map_find_put make_shared_def)
  ultimately show ?thesis using assms(1) by (simp add: grows_def)
qed (use assms in \<open>simp add: Create_known\<close>)

lemma grows_UpdateStatus [grow_intros]: "grows s s1 \<Longrightarrow> grows s (UpdateStatus k st pr s1)"
  by (simp add: UpdateStatus_def Let_def split_def grow_intros)

lemma owned_Create: "mgr_ok s \<Longrightarrow> owned (snd (Create k s)) k (fst (Create k s))"
  using reg.names_create [of s k] reg.ok_create [of s k]
  by (auto simp: owned_def bound_def dest: mgr_ok_inj elim: mgr_ok_entry)

lemma owned_Get: "mgr_ok s \<Longrightarrow> owned (snd (Get k s)) k (fst (Get k s))"
proof (cases "view s k")
  case None
  assume ok: "mgr_ok s"
  then have "fst (Get k s) < m_next (snd (Get k s))"
    using None by (simp add: view_None Get_unknown make_shared_def)
  with reg.get_detached [OF ok None] show ?thesis by (auto simp: owned_def)
next
  case (Some i)
  assume ok: "mgr_ok s"
  with Some reg.names_get [OF ok, of k] reg.ok_get [OF ok, of k] show ?thesis
    by (auto simp: owned_def bound_def dest: mgr_ok_inj elim: mgr_ok_entry)
qed

lemma view_modify_owned:
  assumes "mgr_ok s" and "owned s v p" and "k \<noteq> v"
  shows "view (modify p f s) k = view s k"
proof (cases "bound s v p")
  case True
  with assms show ?thesis by (simp add: reg.obs_alter [where k = v])
next
  case False
  with assms(2) have "\<not> bound s q p" for q by (auto simp: owned_def)
  with assms(1) show ?thesis by (simp add: reg.obs_alter_detached)
qed

text \<open>A thread for \<open>v\<close> whose pointers are its own and whose progress values are percentages.\<close>

fun jpc_ok :: "('en, 'ti) lt_api \<Rightarrow> mgr \<Rightarrow> string \<Rightarrow> ('en, 'ti) jpc \<Rightarrow> bool" where
  "jpc_ok lt s v (J_Generating p) \<longleftrightarrow> owned s v p"
| "jpc_ok lt s v (J_Project p) \<longleftrightarrow> owned s v p"
| "jpc_ok lt s v (J_Files p) \<longleftrightarrow> owned s v p"
| "jpc_ok lt s v (J_Hash p files pieces failed) \<longleftrightarrow>
     owned s v p \<and> (\<forall>i \<in> set pieces. 0 \<le> i \<and> i < lt_num_pieces lt files)"
| "jpc_ok lt s v (U_Get status progress k) \<longleftrightarrow> progress \<le> 100 \<and> jpc_ok lt s v k"
| "jpc_ok lt s v (U_Status p status progress k) \<longleftrightarrow> owned s v p \<and> progress \<le> 100 \<and> jpc_ok lt s v k"
| "jpc_ok lt s v (U_Progress p progress k) \<longleftrightarrow> owned s v p \<and> progress \<le> 100 \<and> jpc_ok lt s v k"
| "jpc_ok lt s v (J_Folder p e) \<longleftrightarrow> owned s v p"
| "jpc_ok lt s v (J_Exists p e) \<longleftrightarrow> owned s v p"
| "jpc_ok lt s v (J_Remove p e) \<longleftrightarrow> owned s v p"
| "jpc_ok lt s v (J_Write p e) \<longleftrightarrow> owned s v p"
| "jpc_ok lt s v (J_Read p) \<longleftrightarrow> owned s v p"
| "jpc_ok lt s v (J_Link p x) \<longleftrightarrow> owned s v p"
| "jpc_ok lt s v (J_TFile p) \<longleftrightarrow> owned s v p"
| "jpc_ok lt s v (J_Full p) \<longleftrightarrow> owned s v p"
| "jpc_ok lt s v (J_Generated p) \<longleftrightarrow> owned s v p"
| "jpc_ok lt s v J_Create \<longleftrightarrow> True"
| "jpc_ok lt s v J_Load \<longleftrightarrow> True"
| "jpc_ok lt s v (J_Add x) \<longleftrightarrow> True"
| "jpc_ok lt s v J_Done \<longleftrightarrow> True"

lemma jpc_ok_grows: "grows s s1 \<Longrightarrow> jpc_ok lt s v pc \<Longrightarrow> jpc_ok lt s1 v pc"
  by (induction pc) (auto simp: grows_def)

text \<open>What one step of a thread does to the engine, whatever the other threads have done before.\<close>

definition step_effect ::
  "('en, 'ti) lt_api \<Rightarrow> dirs \<Rightarrow> string \<Rightarrow> string \<Rightarrow> 'ti engine \<Rightarrow> ('en, 'ti) jpc \<Rightarrow> 'ti engine \<Rightarrow> bool" where
  "step_effect lt ds uuid path t pc1 t1 \<longleftrightarrow>
     engine_ok t1 \<and> jpc_ok lt (t_mgr t1) uuid pc1 \<and> grows (t_mgr t) (t_mgr t1)
     \<and> (\<forall>k. k \<noteq> uuid \<longrightarrow> view (t_mgr t1) k = view (t_mgr t) k)
     \<and> (\<forall>q. fs_nodes (t_fs t1) q = fs_nodes (t_fs t) q \<or> q = resolve (torrent_file ds path)
          \<or> fs_nodes (t_fs t) q = None \<and> (\<exists>n. q = take n (resolve (tf_dir ds))))"

lemma effect_mgr:
  assumes "engine_ok t" and "mgr_sane s" and "grows (t_mgr t) s" and "jpc_ok lt s uuid pc"
    and "\<And>k. k \<noteq> uuid \<Longrightarrow> view s k = view (t_mgr t) k"
  shows "step_effect lt ds uuid path t pc (t\<lparr>t_mgr := s\<rparr>)"
  using assms by (simp add: step_effect_def engine_ok_mgr)

lemma effect_alter:
  assumes "engine_ok t" and "owned (t_mgr t) uuid p" and "keeps_percent g" and "jpc_ok lt (t_mgr t) uuid pc"
  shows "step_effect lt ds uuid path t pc (t\<lparr>t_mgr := modify p g (t_mgr t)\<rparr>)"
proof -
  have gr: "grows (t_mgr t) (modify p g (t_mgr t))" by (intro grow_intros)
  from effect_mgr [OF assms(1) mgr_sane_modify [OF engine_okD(1) [OF assms(1)] assms(3)] gr jpc_ok_grows [OF gr assms(4)]]
  show ?thesis using view_modify_owned [OF engine_okD(2) [OF assms(1)] assms(2)] by blast
qed

lemma effect_fs:
  assumes "engine_ok t" and "fs_ok fs" and "jpc_ok lt (t_mgr t) uuid pc"
    and "\<And>q. fs_nodes fs q = fs_nodes (t_fs t) q \<or> q = resolve (torrent_file ds path)
          \<or> fs_nodes (t_fs t) q = None \<and> (\<exists>n. q = take n (resolve (tf_dir ds)))"
  shows "step_effect lt ds uuid path t pc (t\<lparr>t_fs := fs\<rparr>)"
  using assms by (simp add: step_effect_def engine_ok_def grows_refl)

lemma effect_same:
  "engine_ok t \<Longrightarrow> jpc_ok lt (t_mgr t) uuid pc \<Longrightarrow> step_effect lt ds uuid path t pc t"
  by (simp add: step_effect_def grows_refl)

lemma job_step_effect:
  assumes ok: "engine_ok t" and lt: "lt_pieces_ok lt" and pc: "jpc_ok lt (t_mgr t) uuid pc"
    and step: "job_step lt ds fresh uuid path (pc, t) = (r, (pc1, t1))"
  shows "step_effect lt ds uuid path t pc1 t1"
proof -
  note D = engine_okD [OF ok]
  note alter = effect_alter [OF ok]
  show ?thesis
  proof (cases pc)
    case J_Create
    obtain p s1 where c: "Create uuid (t_mgr t) = (p, s1)" by fastforce
    have "mgr_sane s1" "grows (t_mgr t) s1" "owned s1 uuid p"
      using mgr_sane_Create [OF D(1), of uuid] grows_Create [OF grows_refl D(2), of uuid] owned_Create [OF D(2), of uuid] c
      by simp_all
    moreover have "view s1 k = view (t_mgr t) k" if "k \<noteq> uuid" for k
      using reg.obs_create [OF D(2), of uuid] c that by simp
    ultimately show ?thesis using step c J_Create by (auto intro!: effect_mgr [OF ok])
  next
    case (J_Files p)
    have "0 \<le> i \<and> i < lt_num_pieces lt files"
      if "lt_hash_calls lt (t_fs t) files d = (pieces, ec)" "i \<in> set pieces" for files d pieces ec i
      using lt that unfolding lt_pieces_ok_def by (metis fst_conv)
    with ok step pc J_Files show ?thesis by (auto simp: Let_def intro!: effect_same split: if_splits prod.splits)
  next
    case (J_Hash p files pieces failed)
    show ?thesis
    proof (cases pieces)
      case Nil
      with ok step pc J_Hash show ?thesis
        by (auto intro!: effect_same split: if_splits option.splits)
    next
      case (Cons i ps)
      with pc J_Hash have "0 \<le> i" "i < lt_num_pieces lt files" by simp_all
      then have "(word_of_int ((i * 100) sdiv lt_num_pieces lt files) :: u32) \<le> 100"
        using creation_progress_bound [of i] by (intro word_percent) (auto intro: less_imp_le)
      with ok Cons step pc J_Hash show ?thesis by (auto intro!: effect_same)
    qed
  next
    case (U_Get status progress k)
    obtain p s1 where c: "Get uuid (t_mgr t) = (p, s1)" by fastforce
    have g: "mgr_sane s1" "grows (t_mgr t) s1" "owned s1 uuid p" "view s1 = view (t_mgr t)"
      using mgr_sane_Get [OF D(1), of uuid] grows_Get [OF grows_refl, of "t_mgr t" uuid] owned_Get [OF D(2), of uuid]
        reg.obs_get [OF D(2), of uuid] c by simp_all
    with pc U_Get have "jpc_ok lt s1 uuid (U_Status p status progress k)" by (auto intro: jpc_ok_grows)
    with g step c U_Get show ?thesis by (auto intro!: effect_mgr [OF ok])
  next
    case (U_Progress p progress k)
    then have pr: "0 \<le> sint progress" "sint progress \<le> 100" using pc sint_percent [of progress] by auto
    from pc U_Progress have "owned (t_mgr t) uuid p" "jpc_ok lt (t_mgr t) uuid k" by simp_all
    with step U_Progress alter [OF _ keeps_percent_progress [OF pr]] show ?thesis by auto
  next
    case (J_Folder p e)
    let ?fs = "CreateFolder (tf_dir ds) (t_fs t)"
    note walk = CreateFolder_walk(2-4) [OF D(4), where dir = "tf_dir ds"]
    have "fs_nodes ?fs q = fs_nodes (t_fs t) q \<or> fs_nodes (t_fs t) q = None \<and> (\<exists>n. q = take n (resolve (tf_dir ds)))" for q
      using walk(2,3) [of q] by (cases "fs_nodes (t_fs t) q"; cases "fs_nodes ?fs q") auto
    then show ?thesis
      using step pc walk(1) J_Folder by (auto intro!: effect_fs [OF ok])
  next
    case (J_Remove p e)
    show ?thesis
    proof (cases "Remove (torrent_file ds path) (t_fs t)")
      case (Pair w fs1)
      have "fs_nodes fs1 q = fs_nodes (t_fs t) q" if "q \<noteq> resolve (torrent_file ds path)" for q
        using Pair that by (auto simp: Remove_def sys_remove_def del_node_def split: option.splits if_splits node.splits)
      moreover have "fs_ok fs1" using fs_ok_Remove [OF Pair D(4)] .
      ultimately show ?thesis using step pc J_Remove Pair by (auto intro!: effect_fs [OF ok] split: sum.splits)
    qed
  next
    case (J_Write p e)
    have "fs_nodes (ofs_write (t_fs t) f d) q = fs_nodes (t_fs t) q" if "q \<noteq> resolve f" for f d q
      using that by (simp add: ofs_write_def)
    with J_Write show ?thesis using step pc D(4) by (auto intro!: effect_fs [OF ok])
  next
    case (J_Full p)
    from pc J_Full have "owned (t_mgr t) uuid p" by simp
    with step J_Full show ?thesis by (auto intro!: alter keeps_percent_progress)
  next
    case (J_Add x)
    obtain w t2 where a: "AddTorrent fresh uuid (default_params\<lparr>ap_save_path := pr_dir ds, ap_ti := Some x, ap_seed_mode := True\<rparr>) t = (w, t2)"
      by fastforce
    have "engine_ok t2" using engine_ok_AddTorrent [OF ok] a by (metis snd_conv)
    moreover have "t_mgr t2 = t_mgr t" "t_fs t2 = t_fs t"
      using a by (auto simp: AddTorrent_def Let_def split: if_splits)
    ultimately show ?thesis
      using step J_Add a by (auto simp: step_effect_def grows_refl split: outcome.splits)
  qed (use ok step pc in \<open>auto intro!: effect_alter effect_same split: sum.splits if_splits\<close>)
qed

section \<open>All threads\<close>

text \<open>
  The threads that generate, each with its torrent's id and its project, on one engine. A request is two steps
  of the client's thread, as \<open>CreateTorrentAsync\<close> reads the status twice: between the reads \<open>gs_request\<close> holds it.
  The other users of the registry act as well: the alert thread with a batch, a download, and the client's
  thread with \<open>GetTorrentInfo\<close>, which gets the pointer and then copies the object with one getter after the
  other: \<open>gs_copy\<close> is the pointer, the number of getters called, and the copy so far.
\<close>

record ('en, 'ti) gens =
  gs_engine :: "'ti engine"
  gs_threads :: "(string \<times> string \<times> ('en, 'ti) jpc) list"
  gs_request :: "(string \<times> string) option"
  gs_copy :: "(nat \<times> nat \<times> tinfo) option"

datatype 'ti glab =
    Gn_Ask string string
  | Gn_Start
  | Gn_Run nat string
  | Gn_Alerts "'ti alert list"
  | Gn_Download string string string
  | Gn_Get string
  | Gn_Field

definition status_of :: "string \<Rightarrow> 'ti engine \<Rightarrow> tstatus option \<times> 'ti engine" where
  "status_of uuid t = (let (i, s1) = Get uuid (t_mgr t) in (map_option GetStatus (deref s1 i), t\<lparr>t_mgr := s1\<rparr>))"

fun gen_step ::
  "('en, 'ti) lt_api \<Rightarrow> dirs \<Rightarrow> 'ti glab \<Rightarrow> ('en, 'ti) gens \<Rightarrow> (unit outcome \<times> ('en, 'ti) gens) option" where
  "gen_step lt ds (Gn_Ask uuid path) s =
     (if gs_request s \<noteq> None then None
      else (case status_of uuid (gs_engine s) of
              (st, t1) \<Rightarrow> Some (Ret (), s\<lparr>gs_engine := t1,
                 gs_request := (if st = Some GENERATING then None else Some (uuid, path))\<rparr>)))"
| "gen_step lt ds Gn_Start s =
     (case gs_request s of
        None \<Rightarrow> None
      | Some (uuid, path) \<Rightarrow>
          (case status_of uuid (gs_engine s) of
             (st, t1) \<Rightarrow> Some (Ret (), s\<lparr>gs_engine := t1, gs_request := None,
                gs_threads := gs_threads s @ (if st = Some GENERATED then [] else [(uuid, path, J_Create)])\<rparr>)))"
| "gen_step lt ds (Gn_Run n fresh) s =
     (if n < length (gs_threads s)
      then (case gs_threads s ! n of
              (uuid, path, pc) \<Rightarrow>
                (case job_step lt ds fresh uuid path (pc, gs_engine s) of
                   (r, (pc1, t1)) \<Rightarrow> Some (r, s\<lparr>gs_engine := t1, gs_threads := (gs_threads s)[n := (uuid, path, pc1)]\<rparr>)))
      else None)"
| "gen_step lt ds (Gn_Alerts as) s =
     (case handle_alerts lt ds as (gs_engine s) of (r, t1) \<Rightarrow> Some (r, s\<lparr>gs_engine := t1\<rparr>))"
| "gen_step lt ds (Gn_Download fresh uuid link) s =
     (case DownloadAsync lt ds fresh uuid link (gs_engine s) of (r, t1) \<Rightarrow> Some (r, s\<lparr>gs_engine := t1\<rparr>))"
| "gen_step lt ds (Gn_Get uuid) s =
     (let (info, s1) = Get uuid (t_mgr (gs_engine s))
      in Some (Ret (), s\<lparr>gs_engine := (gs_engine s)\<lparr>t_mgr := s1\<rparr>, gs_copy := Some (info, 0, TorrentInfo '''')\<rparr>))"
| "gen_step lt ds Gn_Field s =
     (case gs_copy s of
        None \<Rightarrow> None
      | Some (info, n, this) \<Rightarrow>
          if n < length copy_calls
          then (case deref (t_mgr (gs_engine s)) info of
                  None \<Rightarrow> Some (Undefined, s)
                | Some i \<Rightarrow> Some (Ret (), s\<lparr>gs_copy := Some (info, Suc n, (copy_calls ! n) i this)\<rparr>))
          else None)"

text \<open>A run stops at an exception: in a generating thread and in the alert thread it ends the process, and that
  of a download goes on to its caller.\<close>

fun gen_run ::
  "('en, 'ti) lt_api \<Rightarrow> dirs \<Rightarrow> 'ti glab list \<Rightarrow> ('en, 'ti) gens \<Rightarrow> (unit outcome \<times> ('en, 'ti) gens) option" where
  "gen_run lt ds [] s = Some (Ret (), s)"
| "gen_run lt ds (l # ls) s =
     (case gen_step lt ds l s of
        None \<Rightarrow> None
      | Some (Ret _, s1) \<Rightarrow> gen_run lt ds ls s1
      | Some r \<Rightarrow> Some r)"

definition gens_ok :: "('en, 'ti) lt_api \<Rightarrow> ('en, 'ti) gens \<Rightarrow> bool" where
  "gens_ok lt s \<longleftrightarrow> engine_ok (gs_engine s)
     \<and> (\<forall>(uuid, path, pc) \<in> set (gs_threads s). jpc_ok lt (t_mgr (gs_engine s)) uuid pc)"

fun glab_ok :: "'ti glab \<Rightarrow> bool" where
  "glab_ok (Gn_Alerts as) \<longleftrightarrow> list_all alert_ok as"
| "glab_ok _ \<longleftrightarrow> True"

lemma gens_ok_engine:
  assumes "gens_ok lt s" and "engine_ok t" and "grows (t_mgr (gs_engine s)) (t_mgr t)"
  shows "gens_ok lt (s\<lparr>gs_engine := t\<rparr>)"
  using assms by (auto simp: gens_ok_def split_def intro: jpc_ok_grows)

lemma status_of_effect:
  assumes "engine_ok t"
  shows "engine_ok (snd (status_of uuid t))" and "grows (t_mgr t) (t_mgr (snd (status_of uuid t)))"
    and "view (t_mgr (snd (status_of uuid t))) = view (t_mgr t)" and "t_fs (snd (status_of uuid t)) = t_fs t"
    and "fst (status_of uuid t) = Some (case view (t_mgr t) uuid of None \<Rightarrow> UNKNOWN | Some i \<Rightarrow> tStatus i)"
  using engine_ok_mgr [OF assms mgr_sane_Get [OF engine_okD(1) [OF assms], of uuid]]
    grows_Get [OF grows_refl, of "t_mgr t" uuid] reg.obs_get [OF engine_okD(2) [OF assms], of uuid]
    reg.load_get [OF engine_okD(2) [OF assms], of uuid]
  by (auto simp: status_of_def Let_def split_def TorrentInfo_def split: option.split)

lemma grows_update_progress: "grows (t_mgr t) (t_mgr (update_progress st t))"
  by (simp add: update_progress_def Let_def split_def grow_intros)

lemma grows_fold_progress: "grows (t_mgr t) (t_mgr (fold update_progress sts t))"
  by (induction sts arbitrary: t) (auto simp: grows_refl intro: grows_trans grows_update_progress)

lemma grows_status_if_known [grow_intros]: "grows s (t_mgr t) \<Longrightarrow> grows s (t_mgr (status_if_known k st p t))"
  by (simp add: status_if_known_def grow_intros)

lemma grows_handle_alert: "grows (t_mgr t) (t_mgr (snd (handle_alert lt ds a t)))"
  by (cases a) (auto simp: Let_def split_def grows_fold_progress intro!: grow_intros split: option.split sum.split)

lemma grows_handle_alerts: "grows (t_mgr t) (t_mgr (snd (handle_alerts lt ds as t)))"
proof (induction lt ds "as" t rule: handle_alerts.induct)
  case (2 lt ds a "as" t)
  obtain r t1 where step: "handle_alert lt ds a t = (r, t1)" by fastforce
  with grows_handle_alert [of t lt ds a] have "grows (t_mgr t) (t_mgr t1)" by simp
  with 2 step show ?case by (cases r) (auto intro: grows_trans)
qed (simp add: grows_refl)

lemma grows_DownloadAsync:
  assumes "engine_ok t"
  shows "grows (t_mgr t) (t_mgr (snd (DownloadAsync lt ds fresh uuid link t)))"
  using engine_okD(2) [OF assms]
  by (auto simp: DownloadAsync_stages Let_def AddTorrent_def intro!: grow_intros split: sum.split prod.split)

lemma grows_Get_engine: "grows (t_mgr t) (t_mgr (t\<lparr>t_mgr := snd (Get uuid (t_mgr t))\<rparr>))"
  by (simp add: grow_intros)

lemma engine_ok_Get: "engine_ok t \<Longrightarrow> engine_ok (t\<lparr>t_mgr := snd (Get uuid (t_mgr t))\<rparr>)"
  by (rule engine_ok_mgr) (simp_all add: mgr_sane_Get engine_okD(1))

lemma gen_step_ok:
  assumes "gens_ok lt s" and "lt_pieces_ok lt" and "glab_ok l" and "gen_step lt ds l s = Some (r, s1)"
  shows "gens_ok lt s1"
proof -
  have ok: "engine_ok (gs_engine s)" using assms(1) by (simp add: gens_ok_def)
  note engine = gens_ok_engine [OF assms(1)]
  show ?thesis
  proof (cases l)
    case (Gn_Ask uuid path)
    obtain st t1 where so: "status_of uuid (gs_engine s) = (st, t1)" by fastforce
    with engine [OF status_of_effect(1,2) [OF ok], of uuid] have "gens_ok lt (s\<lparr>gs_engine := t1\<rparr>)" by simp
    with assms(4) Gn_Ask so show ?thesis by (auto simp: gens_ok_def split: if_splits)
  next
    case Gn_Start
    with assms(4) obtain uuid path where rq: "gs_request s = Some (uuid, path)" by (auto split: option.splits)
    obtain st t1 where so: "status_of uuid (gs_engine s) = (st, t1)" by fastforce
    with engine [OF status_of_effect(1,2) [OF ok], of uuid] have "gens_ok lt (s\<lparr>gs_engine := t1\<rparr>)" by simp
    with assms(4) Gn_Start rq so show ?thesis by (auto simp: gens_ok_def split: if_splits)
  next
    case (Gn_Run n fresh)
    obtain uuid path pc where th: "gs_threads s ! n = (uuid, path, pc)" by (cases "gs_threads s ! n") auto
    from assms(4) Gn_Run have n: "n < length (gs_threads s)" by (simp split: if_splits)
    obtain pc1 t1 where step: "job_step lt ds fresh uuid path (pc, gs_engine s) = (r, (pc1, t1))"
      and s1: "s1 = s\<lparr>gs_engine := t1, gs_threads := (gs_threads s)[n := (uuid, path, pc1)]\<rparr>"
      using assms(4) Gn_Run n th by (auto split: prod.splits)
    have "jpc_ok lt (t_mgr (gs_engine s)) uuid pc" using assms(1) n th by (force simp: gens_ok_def dest: nth_mem)
    from job_step_effect [OF ok assms(2) this step]
    have e: "engine_ok t1" "jpc_ok lt (t_mgr t1) uuid pc1" "grows (t_mgr (gs_engine s)) (t_mgr t1)"
      by (simp_all add: step_effect_def)
    from engine [OF e(1,3)] e(2) show ?thesis
      by (auto simp: s1 gens_ok_def dest!: set_update_subset_insert [THEN subsetD])
  next
    case (Gn_Alerts "as")
    with assms(3,4) engine [OF engine_ok_handle_alerts [OF ok] grows_handle_alerts, of "as" lt ds] show ?thesis
      by (auto split: prod.splits)
  next
    case (Gn_Download fresh uuid link)
    with assms(4) engine [OF engine_ok_DownloadAsync [OF ok] grows_DownloadAsync [OF ok], of lt ds fresh uuid link]
    show ?thesis by (auto split: prod.splits)
  next
    case (Gn_Get uuid)
    obtain p m where g: "Get uuid (t_mgr (gs_engine s)) = (p, m)" by fastforce
    with engine [OF engine_ok_Get [OF ok] grows_Get_engine, of uuid]
    have "gens_ok lt (s\<lparr>gs_engine := (gs_engine s)\<lparr>t_mgr := m\<rparr>\<rparr>)" by simp
    with assms(4) Gn_Get g show ?thesis by (auto simp: gens_ok_def)
  next
    case Gn_Field
    with assms(4) have "gs_engine s1 = gs_engine s" "gs_threads s1 = gs_threads s"
      by (auto split: option.splits if_splits)
    with assms(1) show ?thesis by (simp add: gens_ok_def)
  qed
qed

lemma gen_step_grows:
  assumes "gens_ok lt s" and "lt_pieces_ok lt" and "gen_step lt ds l s = Some (r, s1)"
  shows "grows (t_mgr (gs_engine s)) (t_mgr (gs_engine s1))"
proof -
  have ok: "engine_ok (gs_engine s)" using assms(1) by (simp add: gens_ok_def)
  note asked = status_of_effect(2) [OF ok]
  show ?thesis
  proof (cases l)
    case (Gn_Ask uuid p)
    obtain st t1 where "status_of uuid (gs_engine s) = (st, t1)" by fastforce
    with asked [of uuid] Gn_Ask assms(3) show ?thesis by (auto split: if_splits)
  next
    case Gn_Start
    with assms(3) obtain uuid p where rq: "gs_request s = Some (uuid, p)" by (auto split: option.splits)
    obtain st t1 where "status_of uuid (gs_engine s) = (st, t1)" by fastforce
    with asked [of uuid] Gn_Start assms(3) rq show ?thesis by auto
  next
    case (Gn_Run m fresh)
    obtain uuid p pc where th: "gs_threads s ! m = (uuid, p, pc)" by (cases "gs_threads s ! m") auto
    from assms(3) Gn_Run have m: "m < length (gs_threads s)" by (simp split: if_splits)
    obtain pc1 t1 where js: "job_step lt ds fresh uuid p (pc, gs_engine s) = (r, (pc1, t1))"
      and s1: "s1 = s\<lparr>gs_engine := t1, gs_threads := (gs_threads s)[m := (uuid, p, pc1)]\<rparr>"
      using assms(3) Gn_Run m th by (auto split: prod.splits)
    have "jpc_ok lt (t_mgr (gs_engine s)) uuid pc" using assms(1) m th by (force simp: gens_ok_def dest: nth_mem)
    from job_step_effect [OF ok assms(2) this js] s1 show ?thesis by (simp add: step_effect_def)
  next
    case (Gn_Get uuid)
    with assms(3) grows_Get_engine [of "gs_engine s" uuid] show ?thesis by (auto simp: split_def Let_def)
  next
    case (Gn_Alerts "as")
    with assms(3) grows_handle_alerts [of "gs_engine s" lt ds "as"] show ?thesis by (auto split: prod.splits)
  next
    case (Gn_Download fresh uuid link)
    with assms(3) grows_DownloadAsync [OF ok, of lt ds fresh uuid link] show ?thesis by (auto split: prod.splits)
  next
    case Gn_Field
    with assms(3) show ?thesis by (auto simp: grows_refl split: option.splits if_splits)
  qed
qed

section \<open>A thread ends\<close>

text \<open>How many steps a thread has left at most, once it has listed the files; before that it is in one of four phases.\<close>

fun steps_left :: "('en, 'ti) jpc \<Rightarrow> nat" where
  "steps_left (J_Hash p files pieces failed) = 14 + 4 * length pieces"
| "steps_left (U_Get status progress k) = 3 + steps_left k"
| "steps_left (U_Status p status progress k) = 2 + steps_left k"
| "steps_left (U_Progress p progress k) = 1 + steps_left k"
| "steps_left (J_Folder p e) = 13"
| "steps_left (J_Exists p e) = 12"
| "steps_left (J_Remove p e) = 11"
| "steps_left (J_Write p e) = 10"
| "steps_left (J_Read p) = 9"
| "steps_left (J_Link p x) = 8"
| "steps_left (J_TFile p) = 7"
| "steps_left (J_Full p) = 6"
| "steps_left (J_Generated p) = 5"
| "steps_left J_Load = 4"
| "steps_left (J_Add x) = 1"
| "steps_left _ = 0"

fun phase :: "('en, 'ti) jpc \<Rightarrow> nat" where
  "phase J_Create = 4"
| "phase (J_Generating p) = 3"
| "phase (J_Project p) = 2"
| "phase (J_Files p) = 1"
| "phase (U_Get status progress k) = phase k"
| "phase (U_Status p status progress k) = phase k"
| "phase (U_Progress p progress k) = phase k"
| "phase _ = 0"

lemma job_step_less:
  assumes "job_step lt ds fresh uuid path (pc, t) = (Ret u, (pc1, t1))" and "pc \<noteq> J_Done"
  shows "phase pc1 < phase pc \<or> phase pc1 = phase pc \<and> steps_left pc1 < steps_left pc"
proof (cases pc)
  case (J_Hash p files pieces failed)
  with assms show ?thesis by (cases pieces) (auto split: if_splits option.splits)
qed (use assms in \<open>auto simp: Let_def split: prod.splits sum.splits outcome.splits if_splits option.splits\<close>)


section \<open>A thread among others\<close>

text \<open>
  Documented behaviour of libtorrent: what is read of a torrent file depends on its content. The links a project
  can have are those of its own encodings.
\<close>

definition lt_reads :: "('en, 'ti) lt_api \<Rightarrow> (string \<Rightarrow> string + 'ti) \<Rightarrow> bool" where
  "lt_reads lt parse \<longleftrightarrow> (\<forall>fs p. lt_torrent_info lt fs p = parse (ifs_read fs p))"

definition found_files :: "('en, 'ti) lt_api \<Rightarrow> string \<Rightarrow> string list \<Rightarrow> bool" where
  "found_files lt path files \<longleftrightarrow> (\<exists>fs. files = lt_add_files lt fs path)"

definition encodings :: "('en, 'ti) lt_api \<Rightarrow> string \<Rightarrow> 'en set" where
  "encodings lt path = {e. \<exists>fs files. found_files lt path files
     \<and> lt_generate lt fs files (GetDirectory path) ''VerAI libtorrent'' = Some e}"

definition own_links :: "('en, 'ti) lt_api \<Rightarrow> (string \<Rightarrow> string + 'ti) \<Rightarrow> string \<Rightarrow> string set" where
  "own_links lt parse path = {lt_magnet lt x | x e. e \<in> encodings lt path \<and> parse (lt_bencode lt e) = Inr x}"

definition well_generated :: "('en, 'ti) lt_api \<Rightarrow> dirs \<Rightarrow> (string \<Rightarrow> string + 'ti) \<Rightarrow> string \<Rightarrow> tinfo \<Rightarrow> bool" where
  "well_generated lt ds parse path i \<longleftrightarrow>
     pPath i = path \<and> tPath i = torrent_file ds path \<and> tProgress i = 100 \<and> tLink i \<in> own_links lt parse path"

text \<open>What holds at each counter of the thread for \<open>k\<close>, between any two steps.\<close>

definition entry :: "'ti engine \<Rightarrow> string \<Rightarrow> (tinfo \<Rightarrow> bool) \<Rightarrow> bool" where
  "entry t k P \<longleftrightarrow> (\<exists>i. view (t_mgr t) k = Some i \<and> P i)"

abbreviation begun :: "string \<Rightarrow> tinfo \<Rightarrow> bool" where
  "begun path i \<equiv> tStatus i \<noteq> GENERATED \<and> pPath i = path"

fun back_at :: "('en, 'ti) lt_api \<Rightarrow> dirs \<Rightarrow> (string \<Rightarrow> string + 'ti) \<Rightarrow> string \<Rightarrow> string \<Rightarrow> ('en, 'ti) jpc \<Rightarrow> 'ti engine \<Rightarrow> bool" where
  "back_at lt ds parse k path J_Done t \<longleftrightarrow> entry t k (\<lambda>i. tStatus i = GENERATED \<longrightarrow> well_generated lt ds parse path i)"
| "back_at lt ds parse k path (J_Hash p files pieces failed) t \<longleftrightarrow>
     bound (t_mgr t) k p \<and> found_files lt path files \<and> entry t k (begun path)"
| "back_at lt ds parse k path _ t \<longleftrightarrow> False"

fun asrt :: "('en, 'ti) lt_api \<Rightarrow> dirs \<Rightarrow> (string \<Rightarrow> string + 'ti) \<Rightarrow> string \<Rightarrow> string \<Rightarrow> ('en, 'ti) jpc \<Rightarrow> 'ti engine \<Rightarrow> bool" where
  "asrt lt ds parse k path J_Create t \<longleftrightarrow> (\<forall>i. view (t_mgr t) k = Some i \<longrightarrow> tStatus i \<noteq> GENERATED)"
| "asrt lt ds parse k path (J_Generating p) t \<longleftrightarrow> bound (t_mgr t) k p \<and> entry t k (\<lambda>i. tStatus i \<noteq> GENERATED)"
| "asrt lt ds parse k path (J_Project p) t \<longleftrightarrow> bound (t_mgr t) k p \<and> entry t k (\<lambda>i. tStatus i \<noteq> GENERATED)"
| "asrt lt ds parse k path (J_Files p) t \<longleftrightarrow> bound (t_mgr t) k p \<and> entry t k (begun path)"
| "asrt lt ds parse k path (J_Hash p files pieces failed) t \<longleftrightarrow>
     back_at lt ds parse k path (J_Hash p files pieces failed) t"
| "asrt lt ds parse k path (U_Get st pr ret) t \<longleftrightarrow> st \<noteq> GENERATED \<and> back_at lt ds parse k path ret t"
| "asrt lt ds parse k path (U_Status q st pr ret) t \<longleftrightarrow>
     bound (t_mgr t) k q \<and> st \<noteq> GENERATED \<and> back_at lt ds parse k path ret t"
| "asrt lt ds parse k path (U_Progress q pr ret) t \<longleftrightarrow>
     bound (t_mgr t) k q \<and> entry t k (\<lambda>i. tStatus i \<noteq> GENERATED) \<and> back_at lt ds parse k path ret t"
| "asrt lt ds parse k path (J_Folder p e) t \<longleftrightarrow> bound (t_mgr t) k p \<and> e \<in> encodings lt path \<and> entry t k (begun path)"
| "asrt lt ds parse k path (J_Exists p e) t \<longleftrightarrow> bound (t_mgr t) k p \<and> e \<in> encodings lt path \<and> entry t k (begun path)"
| "asrt lt ds parse k path (J_Remove p e) t \<longleftrightarrow> bound (t_mgr t) k p \<and> e \<in> encodings lt path \<and> entry t k (begun path)"
| "asrt lt ds parse k path (J_Write p e) t \<longleftrightarrow> bound (t_mgr t) k p \<and> e \<in> encodings lt path \<and> entry t k (begun path)
     \<and> ifs_read (t_fs t) (torrent_file ds path) = ''''"
| "asrt lt ds parse k path (J_Read p) t \<longleftrightarrow> bound (t_mgr t) k p \<and> entry t k (begun path)
     \<and> ifs_read (t_fs t) (torrent_file ds path) \<in> insert '''' (lt_bencode lt ` encodings lt path)"
| "asrt lt ds parse k path (J_Link p x) t \<longleftrightarrow> bound (t_mgr t) k p \<and> entry t k (begun path)
     \<and> lt_magnet lt x \<in> own_links lt parse path"
| "asrt lt ds parse k path (J_TFile p) t \<longleftrightarrow> bound (t_mgr t) k p
     \<and> entry t k (\<lambda>i. begun path i \<and> tLink i \<in> own_links lt parse path)"
| "asrt lt ds parse k path (J_Full p) t \<longleftrightarrow> bound (t_mgr t) k p
     \<and> entry t k (\<lambda>i. begun path i \<and> tLink i \<in> own_links lt parse path \<and> tPath i = torrent_file ds path)"
| "asrt lt ds parse k path (J_Generated p) t \<longleftrightarrow> bound (t_mgr t) k p
     \<and> entry t k (\<lambda>i. tStatus i \<noteq> GENERATED \<and> well_generated lt ds parse path i)"
| "asrt lt ds parse k path J_Load t \<longleftrightarrow> back_at lt ds parse k path J_Done t"
| "asrt lt ds parse k path (J_Add x) t \<longleftrightarrow> back_at lt ds parse k path J_Done t"
| "asrt lt ds parse k path J_Done t \<longleftrightarrow> back_at lt ds parse k path J_Done t"

text \<open>The assertions speak of one entry, of pointers bound to it and of the thread's own file.\<close>

lemma back_at_cong:
  assumes "grows (t_mgr t) (t_mgr t1)" and "view (t_mgr t1) k = view (t_mgr t) k"
    and "back_at lt ds parse k path pc t"
  shows "back_at lt ds parse k path pc t1"
  using assms by (cases pc) (auto simp: grows_def entry_def)

lemma asrt_cong:
  assumes "grows (t_mgr t) (t_mgr t1)" and "view (t_mgr t1) k = view (t_mgr t) k"
    and "ifs_read (t_fs t1) (torrent_file ds path) = ifs_read (t_fs t) (torrent_file ds path)"
    and "asrt lt ds parse k path pc t"
  shows "asrt lt ds parse k path pc t1"
proof -
  have b: "bound (t_mgr t) k p \<Longrightarrow> bound (t_mgr t1) k p" for p using assms(1) by (simp add: grows_def)
  have e: "entry t1 k = entry t k" by (simp add: fun_eq_iff entry_def assms(2))
  show ?thesis
    using assms(4) back_at_cong [OF assms(1,2), of lt ds parse path] b e assms(2,3)
    by (cases pc) (simp_all del: back_at.simps)
qed

lemma entry_alter:
  assumes "mgr_ok (t_mgr t)" and "bound (t_mgr t) k p" and "entry t k P" and "\<And>i. P i \<Longrightarrow> Q (f i)"
  shows "entry (t\<lparr>t_mgr := modify p f (t_mgr t)\<rparr>) k Q"
  using assms by (auto simp: entry_def reg.obs_alter [where k = k])

lemma back_at_alter:
  assumes "mgr_ok (t_mgr t)" and "bound (t_mgr t) k p" and "back_at lt ds parse k path ret t" and "entry t k S"
    and "\<And>i. S i \<Longrightarrow> tStatus (f i) \<noteq> GENERATED \<and> pPath (f i) = pPath i"
  shows "back_at lt ds parse k path ret (t\<lparr>t_mgr := modify p f (t_mgr t)\<rparr>)"
    and "entry (t\<lparr>t_mgr := modify p f (t_mgr t)\<rparr>) k (\<lambda>i. tStatus i \<noteq> GENERATED)"
proof -
  obtain i where i: "view (t_mgr t) k = Some i" "S i" using assms(4) by (auto simp: entry_def)
  have v: "view (modify p f (t_mgr t)) k = Some (f i)" using assms(1,2) i(1) by (simp add: reg.obs_alter [where k = k])
  then show "entry (t\<lparr>t_mgr := modify p f (t_mgr t)\<rparr>) k (\<lambda>i. tStatus i \<noteq> GENERATED)"
    using assms(5) [OF i(2)] by (simp add: entry_def)
  show "back_at lt ds parse k path ret (t\<lparr>t_mgr := modify p f (t_mgr t)\<rparr>)"
    using assms(3) assms(5) [OF i(2)] i(1) v by (cases ret) (simp_all add: entry_def)
qed

lemma back_at_entry: "back_at lt ds parse k path ret t \<Longrightarrow> entry t k (\<lambda>_. True)"
  by (cases ret) (auto simp: entry_def)

lemma begun_back: "entry t k (begun path) \<Longrightarrow> back_at lt ds parse k path J_Done t"
  by (auto simp: entry_def)

text \<open>A step of the thread itself leads from assertion to assertion.\<close>

lemma asrt_step:
  assumes ok: "mgr_ok (t_mgr t)" and rd: "lt_reads lt parse" and empty: "\<And>x. parse '''' \<noteq> Inr x"
    and a: "asrt lt ds parse k path pc t"
    and step: "job_step lt ds fresh k path (pc, t) = (r, (pc1, t1))"
  shows "asrt lt ds parse k path pc1 t1"
proof -
  note alter = entry_alter [OF ok]
  show ?thesis
  proof (cases pc)
    case J_Create
    obtain p s1 where c: "Create k (t_mgr t) = (p, s1)" by fastforce
    have "bound s1 k p" "view s1 k = Some (case view (t_mgr t) k of None \<Rightarrow> TorrentInfo k | Some i \<Rightarrow> i)"
      using reg.names_create [OF ok, of k] reg.obs_create [OF ok, of k] c by simp_all
    with J_Create a step c show ?thesis by (auto simp: entry_def TorrentInfo_def split: option.splits)
  next
    case (J_Generating p)
    with a step show ?thesis by (auto intro!: alter [where P = "\<lambda>i. tStatus i \<noteq> GENERATED"])
  next
    case (J_Project p)
    with a step show ?thesis by (auto intro!: alter [where P = "\<lambda>i. tStatus i \<noteq> GENERATED"])
  next
    case (J_Files p)
    with a step show ?thesis
      by (auto simp: Let_def found_files_def entry_def split: if_splits prod.splits)
  next
    case (J_Hash p files pieces failed)
    have "e \<in> encodings lt path"
      if "found_files lt path files" "lt_generate lt fs files (GetDirectory path) ''VerAI libtorrent'' = Some e" for fs e
      using that unfolding encodings_def by blast
    with J_Hash a step show ?thesis
      by (cases pieces) (auto simp: entry_def split: if_splits option.splits)
  next
    case (U_Get st pr ret)
    obtain p s1 where c: "Get k (t_mgr t) = (p, s1)" by fastforce
    from a U_Get have b: "st \<noteq> GENERATED" "back_at lt ds parse k path ret t" by simp_all
    then have "view (t_mgr t) k \<noteq> None" using back_at_entry by (fastforce simp: entry_def)
    then have "bound s1 k p" "view s1 = view (t_mgr t)" "grows (t_mgr t) s1"
      using reg.names_get [OF ok, of k] reg.obs_get [OF ok, of k] grows_Get [OF grows_refl, of "t_mgr t" k] c by simp_all
    with b back_at_cong [of t "t\<lparr>t_mgr := s1\<rparr>" k lt ds parse path ret] U_Get step c show ?thesis by auto
  next
    case (U_Status q st pr ret)
    from a U_Status have b: "bound (t_mgr t) k q" "st \<noteq> GENERATED" "back_at lt ds parse k path ret t" by simp_all
    from back_at_alter [OF ok b(1,3) back_at_entry [OF b(3)], of "SetStatus st"] b U_Status step show ?thesis by auto
  next
    case (U_Progress q pr ret)
    from a U_Progress have b: "bound (t_mgr t) k q" "entry t k (\<lambda>i. tStatus i \<noteq> GENERATED)" "back_at lt ds parse k path ret t"
      by simp_all
    from back_at_alter(1) [OF ok b(1,3,2), of "SetProgress (sint pr)"]
    have "back_at lt ds parse k path ret (t\<lparr>t_mgr := modify q (SetProgress (sint pr)) (t_mgr t)\<rparr>)" by simp
    moreover have "back_at lt ds parse k path c u \<Longrightarrow> asrt lt ds parse k path c u" for c u by (cases c) simp_all
    ultimately show ?thesis using U_Progress step by auto
  next
    case (J_Exists p e)
    with a step show ?thesis
      by (auto simp: IsFileExist_def ifs_read_def split: if_splits option.splits)
  next
    case (J_Remove p e)
    have "ifs_read fs1 (torrent_file ds path) = ''''" if "Remove (torrent_file ds path) (t_fs t) = (Inr u, fs1)" for u fs1
      using that
      by (auto simp: Remove_def sys_remove_def ifs_read_def sys_stat_def del_node_def split: option.splits if_splits node.splits)
    with J_Remove a step show ?thesis by (auto simp: entry_def split: prod.splits sum.splits)
  next
    case (J_Write p e)
    have "ifs_read (ofs_write (t_fs t) f d) f = d \<or> ofs_write (t_fs t) f d = t_fs t" for f d
      using ofs_write_read [of "t_fs t" f d] by (cases "can_write (t_fs t) f") (simp_all add: ofs_write_def)
    with J_Write a step show ?thesis by (fastforce simp: entry_def)
  next
    case (J_Read p)
    with a rd empty have "lt_magnet lt x \<in> own_links lt parse path"
      if "CreateInfoFromFile lt (t_fs t) (torrent_file ds path) = Inr x" for x
      using that by (auto simp: CreateInfoFromFile_def lt_reads_def own_links_def split: sum.splits) blast
    with J_Read a step show ?thesis by (auto simp: entry_def split: sum.splits)
  next
    case (J_Link p x)
    with a step show ?thesis by (auto intro!: alter [where P = "begun path"])
  next
    case (J_TFile p)
    with a step show ?thesis
      by (auto intro!: alter [where P = "\<lambda>i. begun path i \<and> tLink i \<in> own_links lt parse path"])
  next
    case (J_Full p)
    with a step show ?thesis
      by (auto simp: well_generated_def intro!: alter [where P = "\<lambda>i. begun path i \<and> tLink i \<in> own_links lt parse path
          \<and> tPath i = torrent_file ds path"])
  next
    case (J_Generated p)
    with a step show ?thesis
      by (auto simp: well_generated_def intro!: alter [where P = "\<lambda>i. tStatus i \<noteq> GENERATED \<and> well_generated lt ds parse path i"])
  next
    case J_Load
    with a step show ?thesis by (auto split: sum.splits)
  next
    case (J_Add x)
    have "t_mgr (snd (AddTorrent fresh k par t)) = t_mgr t" for par by (simp add: AddTorrent_def Let_def)
    with J_Add a step show ?thesis by (auto simp: entry_def split: prod.splits outcome.splits) (metis snd_conv)+
  qed (use a step in \<open>auto simp: entry_def\<close>)
qed

text \<open>What the other threads must leave alone: the torrent's id and the name of its file.\<close>

definition apart :: "string \<Rightarrow> string \<Rightarrow> string \<times> string \<Rightarrow> bool" where
  "apart k path other \<longleftrightarrow> fst other \<noteq> k \<and> GetFileName (snd other) \<noteq> GetFileName path"

fun label_apart :: "string \<Rightarrow> string \<Rightarrow> 'ti glab \<Rightarrow> bool" where
  "label_apart k path (Gn_Ask uuid p) \<longleftrightarrow> apart k path (uuid, p)"
| "label_apart k path (Gn_Alerts as) \<longleftrightarrow> False"
| "label_apart k path (Gn_Download fresh uuid link) \<longleftrightarrow> False"
| "label_apart k path _ \<longleftrightarrow> True"

lemma torrent_file_path: "resolve (torrent_file ds path) = resolve (tf_dir ds) @ [GetFileName path @ ''.torrent'']"
proof -
  have "CHR ''/'' \<notin> set (GetFileName path @ ''.torrent'')" using GetFileName_no_slash by simp
  then show ?thesis
    using resolve_append [of "tf_dir ds" "GetFileName path @ ''.torrent''"] resolve_plain [of "GetFileName path @ ''.torrent''"]
    by (simp add: torrent_file_def)
qed

lemma ifs_read_cong:
  "fs_nodes fs1 (resolve p) = fs_nodes fs (resolve p) \<Longrightarrow> ifs_read fs1 p = ifs_read fs p"
  by (simp add: ifs_read_def sys_stat_def)

text \<open>A step of another thread leaves the file alone.\<close>

lemma effect_other_file:
  assumes "step_effect lt ds uuid other t pc1 t1" and "GetFileName other \<noteq> GetFileName path"
  shows "ifs_read (t_fs t1) (torrent_file ds path) = ifs_read (t_fs t) (torrent_file ds path)"
proof (rule ifs_read_cong)
  have "take n (resolve (tf_dir ds)) \<noteq> resolve (torrent_file ds path)" for n
  proof
    assume "take n (resolve (tf_dir ds)) = resolve (torrent_file ds path)"
    then have "length (take n (resolve (tf_dir ds))) = length (resolve (torrent_file ds path))" by simp
    then show False by (simp add: torrent_file_path)
  qed
  moreover have "resolve (torrent_file ds path) \<noteq> resolve (torrent_file ds other)"
    using assms(2) by (simp add: torrent_file_path)
  ultimately show "fs_nodes (t_fs t1) (resolve (torrent_file ds path)) = fs_nodes (t_fs t) (resolve (torrent_file ds path))"
    using assms(1) unfolding step_effect_def by metis
qed

definition lone :: "('en, 'ti) lt_api \<Rightarrow> dirs \<Rightarrow> (string \<Rightarrow> string + 'ti) \<Rightarrow> string \<Rightarrow> string \<Rightarrow> nat \<Rightarrow> ('en, 'ti) gens \<Rightarrow> bool" where
  "lone lt ds parse k path n s \<longleftrightarrow>
     n < length (gs_threads s) \<and> fst (gs_threads s ! n) = k \<and> fst (snd (gs_threads s ! n)) = path
     \<and> asrt lt ds parse k path (snd (snd (gs_threads s ! n))) (gs_engine s)
     \<and> (\<forall>m < length (gs_threads s). m \<noteq> n \<longrightarrow> apart k path (fst (gs_threads s ! m), fst (snd (gs_threads s ! m))))
     \<and> (\<forall>rq. gs_request s = Some rq \<longrightarrow> apart k path rq)"

lemma lone_engine:
  assumes "lone lt ds parse k path n s" and "grows (t_mgr (gs_engine s)) (t_mgr t1)"
    and "view (t_mgr t1) = view (t_mgr (gs_engine s))" and "t_fs t1 = t_fs (gs_engine s)"
  shows "lone lt ds parse k path n (s\<lparr>gs_engine := t1\<rparr>)"
  using assms asrt_cong [of "gs_engine s" t1 k ds path lt parse] by (simp add: lone_def)

lemma lone_step:
  assumes lone: "lone lt ds parse k path n s" and ok: "gens_ok lt s" and lt: "lt_pieces_ok lt" "lt_reads lt parse"
    and empty: "\<And>x. parse '''' \<noteq> Inr x" and l: "label_apart k path l" and step: "gen_step lt ds l s = Some (r, s1)"
  shows "lone lt ds parse k path n s1"
proof -
  have eok: "engine_ok (gs_engine s)" using ok by (simp add: gens_ok_def)
  note same = status_of_effect(2-4) [OF eok]
  show ?thesis
  proof (cases l)
    case (Gn_Ask uuid p)
    obtain st t1 where so: "status_of uuid (gs_engine s) = (st, t1)" by fastforce
    with lone_engine [OF lone] same [of uuid] have "lone lt ds parse k path n (s\<lparr>gs_engine := t1\<rparr>)" by simp
    with Gn_Ask l step so show ?thesis by (auto simp: lone_def split: if_splits)
  next
    case Gn_Start
    with step obtain uuid p where rq: "gs_request s = Some (uuid, p)" by (auto split: option.splits)
    obtain st t1 where so: "status_of uuid (gs_engine s) = (st, t1)" by fastforce
    with lone_engine [OF lone] same [of uuid] have "lone lt ds parse k path n (s\<lparr>gs_engine := t1\<rparr>)" by simp
    moreover have "apart k path (uuid, p)" using lone rq by (simp add: lone_def)
    ultimately show ?thesis using Gn_Start step so rq by (auto simp: lone_def nth_append less_Suc_eq)
  next
    case (Gn_Run m fresh)
    obtain uuid p pc where th: "gs_threads s ! m = (uuid, p, pc)" by (cases "gs_threads s ! m") auto
    from step Gn_Run have m: "m < length (gs_threads s)" by (simp split: if_splits)
    obtain pc1 t1 where js: "job_step lt ds fresh uuid p (pc, gs_engine s) = (r, (pc1, t1))"
      and s1: "s1 = s\<lparr>gs_engine := t1, gs_threads := (gs_threads s)[m := (uuid, p, pc1)]\<rparr>"
      using step Gn_Run m th by (auto split: prod.splits)
    have names: "fst ((gs_threads s)[m := (uuid, p, pc1)] ! i) = fst (gs_threads s ! i)"
      "fst (snd ((gs_threads s)[m := (uuid, p, pc1)] ! i)) = fst (snd (gs_threads s ! i))" for i
      using m th by (cases "i = m"; simp)+
    show ?thesis
    proof (cases "m = n")
      case True
      with lone th have "uuid = k" "p = path" "asrt lt ds parse k path pc (gs_engine s)" by (simp_all add: lone_def)
      with asrt_step [OF engine_okD(2) [OF eok] lt(2) empty _ js [unfolded \<open>uuid = k\<close> \<open>p = path\<close>]]
      have "asrt lt ds parse k path pc1 t1" by simp
      with lone True \<open>uuid = k\<close> \<open>p = path\<close> show ?thesis by (simp add: lone_def s1 names)
    next
      case False
      have "jpc_ok lt (t_mgr (gs_engine s)) uuid pc" using ok m th by (force simp: gens_ok_def dest: nth_mem)
      from job_step_effect [OF eok lt(1) this js] have eff: "step_effect lt ds uuid p (gs_engine s) pc1 t1" .
      from lone m False th have ap: "k \<noteq> uuid" "GetFileName p \<noteq> GetFileName path" by (auto simp: lone_def apart_def)
      have "asrt lt ds parse k path (snd (snd (gs_threads s ! n))) t1"
        using asrt_cong [OF _ _ effect_other_file [OF eff ap(2)], of k lt parse] eff ap(1) lone
        by (simp add: step_effect_def lone_def)
      with lone False show ?thesis by (simp add: lone_def s1 names)
    qed
  next
    case (Gn_Get uuid)
    obtain p m where g: "Get uuid (t_mgr (gs_engine s)) = (p, m)" by fastforce
    let ?t = "(gs_engine s)\<lparr>t_mgr := m\<rparr>"
    have "view (t_mgr ?t) = view (t_mgr (gs_engine s))" "t_fs ?t = t_fs (gs_engine s)" "grows (t_mgr (gs_engine s)) (t_mgr ?t)"
      using reg.obs_get [OF engine_okD(2) [OF eok], of uuid] grows_Get_engine [of "gs_engine s" uuid] g by simp_all
    with lone_engine [OF lone] have "lone lt ds parse k path n (s\<lparr>gs_engine := ?t\<rparr>)" by simp
    with Gn_Get g step show ?thesis by (auto simp: lone_def)
  next
    case Gn_Field
    with lone step show ?thesis by (auto simp: lone_def split: option.splits if_splits)
  qed (use l in simp_all)
qed

lemma lone_run:
  assumes "lone lt ds parse k path n s" and "gens_ok lt s" and "lt_pieces_ok lt" and "lt_reads lt parse"
    and "\<And>x. parse '''' \<noteq> Inr x" and "list_all (label_apart k path) ls" and "gen_run lt ds ls s = Some (r, s1)"
  shows "lone lt ds parse k path n s1"
  using assms(1,2,6,7)
proof (induction ls arbitrary: s)
  case (Cons l ls)
  obtain w s2 where st: "gen_step lt ds l s = Some (w, s2)" using Cons.prems(4) by (cases "gen_step lt ds l s") auto
  have l: "label_apart k path l" using Cons.prems(3) by simp
  then have "glab_ok l" by (cases l) simp_all
  from gen_step_ok [OF Cons.prems(2) assms(3) this st] have "gens_ok lt s2" .
  moreover from lone_step [OF Cons.prems(1,2) assms(3-5) l st] have "lone lt ds parse k path n s2" .
  ultimately show ?case using Cons st by (cases w) auto
qed simp

lemma asrt_generated:
  assumes "asrt lt ds parse k path pc t" and "view (t_mgr t) k = Some i" and "tStatus i = GENERATED"
  shows "well_generated lt ds parse path i"
proof -
  have gen: "well_generated lt ds parse path i" if "back_at lt ds parse k path ret t" for ret
    using that assms(2,3) by (cases ret) (auto simp: entry_def)
  show ?thesis using assms gen by (cases pc) (auto simp: entry_def simp del: back_at.simps)
qed

text \<open>C15: a torrent that is filed as \<open>GENERATED\<close> has the magnet link of its own project. While one thread generates a
  torrent, and however its steps interleave with requests, reports and any number of other generating threads,
  the entry is only ever \<open>GENERATED\<close> with the path of its own project and torrent file, at 100 percent, and with
  the link of what is read of an encoding of that project; provided the others generate torrents with other ids
  from projects whose last components differ, as these name the torrent files.\<close>

theorem own_link_filed:
  assumes "gens_ok lt s" and "lt_pieces_ok lt" and "lt_reads lt parse" and "\<And>x. parse '''' \<noteq> Inr x"
    and "n < length (gs_threads s)" and "gs_threads s ! n = (k, path, J_Create)"
    and "\<And>i. view (t_mgr (gs_engine s)) k = Some i \<Longrightarrow> tStatus i \<noteq> GENERATED"
    and "\<And>m. m < length (gs_threads s) \<Longrightarrow> m \<noteq> n \<Longrightarrow> apart k path (fst (gs_threads s ! m), fst (snd (gs_threads s ! m)))"
    and "gs_request s = None" and "list_all (label_apart k path) ls" and "gen_run lt ds ls s = Some (r, s1)"
    and "view (t_mgr (gs_engine s1)) k = Some i" and "tStatus i = GENERATED"
  shows "pPath i = path \<and> tPath i = torrent_file ds path \<and> tProgress i = 100
    \<and> (\<exists>e x. e \<in> encodings lt path \<and> parse (lt_bencode lt e) = Inr x \<and> tLink i = lt_magnet lt x)"
proof -
  have "lone lt ds parse k path n s" using assms(5-9) by (simp add: lone_def)
  from lone_run [OF this assms(1-4,10,11)] have "asrt lt ds parse k path (snd (snd (gs_threads s1 ! n))) (gs_engine s1)"
    by (simp add: lone_def)
  from asrt_generated [OF this assms(12,13)] show ?thesis by (auto simp: well_generated_def own_links_def)
qed

section \<open>Two projects of one name\<close>

definition moves :: "('en, 'ti) lt_api \<Rightarrow> dirs \<Rightarrow> ('en, 'ti) gens \<Rightarrow> ('en, 'ti) gens \<Rightarrow> bool" where
  "moves lt ds s s1 \<longleftrightarrow> (\<exists>ls. gen_run lt ds ls s = Some (Ret (), s1))"

lemma gen_run_append: "gen_run lt ds ls s = Some (Ret (), s1) \<Longrightarrow> gen_run lt ds (ls @ ls2) s = gen_run lt ds ls2 s1"
  by (induction ls arbitrary: s) (auto split: option.splits prod.splits outcome.splits)

lemma moves_trans: "moves lt ds s s1 \<Longrightarrow> moves lt ds s1 s2 \<Longrightarrow> moves lt ds s s2"
  unfolding moves_def by (metis gen_run_append)

lemma gen_run_thread:
  assumes "job_iter lt ds fresh u p m (pc, gs_engine s) = (Ret (), (pc1, t1))" and "n < length (gs_threads s)"
    and "gs_threads s ! n = (u, p, pc)"
  shows "gen_run lt ds (replicate m (Gn_Run n fresh)) s
    = Some (Ret (), s\<lparr>gs_engine := t1, gs_threads := (gs_threads s)[n := (u, p, pc1)]\<rparr>)"
  using assms
proof (induction m arbitrary: pc s)
  case 0
  have "(gs_threads s)[n := (u, p, pc1)] = gs_threads s"
    using 0 by (metis job_iter.simps(1) list_update_id prod.inject)
  with 0 show ?case by simp
next
  case (Suc m)
  obtain w pc2 t2 where st: "job_step lt ds fresh u p (pc, gs_engine s) = (w, (pc2, t2))" by (metis surj_pair)
  with Suc.prems(1) have w: "w = Ret ()" "job_iter lt ds fresh u p m (pc2, t2) = (Ret (), (pc1, t1))"
    by (cases w; simp)+
  let ?s = "s\<lparr>gs_engine := t2, gs_threads := (gs_threads s)[n := (u, p, pc2)]\<rparr>"
  have "gen_step lt ds (Gn_Run n fresh) s = Some (Ret (), ?s)" using Suc.prems st w(1) by simp
  with Suc.IH [of pc2 ?s] Suc.prems(2) w(2) show ?case by simp
qed

lemma moves_thread:
  assumes "comes_to lt ds fresh u p (pc, gs_engine s) (pc1, t1)" and "n < length (gs_threads s)"
    and "gs_threads s ! n = (u, p, pc)"
  shows "moves lt ds s (s\<lparr>gs_engine := t1, gs_threads := (gs_threads s)[n := (u, p, pc1)]\<rparr>)"
  using assms gen_run_thread unfolding comes_to_def moves_def by blast

lemma grows_fold_creation [grow_intros]:
  "grows s s1 \<Longrightarrow> grows s (fold (\<lambda>i. UpdateCreationProgress uuid i n) pieces s1)"
  by (induction pieces arbitrary: s1) (simp_all add: UpdateCreationProgress_def grow_intros)

lemma grows_create_s4: "mgr_ok s \<Longrightarrow> grows s (create_s4 uuid path pieces n s)"
  by (simp add: create_s4_def create_s3_def grow_intros)

lemma comes_to_folder:
  assumes "lt_add_files lt (t_fs t) path = files" and "files \<noteq> []"
    and "lt_hash_calls lt (t_fs t) files (GetDirectory path) = (pieces, None)"
    and "lt_generate lt (t_fs t) files (GetDirectory path) ''VerAI libtorrent'' = Some e"
  shows "comes_to lt ds fresh uuid path (J_Create, t)
     (J_Folder (fst (Create uuid (t_mgr t))) e,
      t\<lparr>t_mgr := create_s4 uuid path pieces (lt_num_pieces lt files) (t_mgr t)\<rparr>)"
proof (rule comes_to_trans [OF comes_to_encode [OF assms(1-3)]])
  show "comes_to lt ds fresh uuid path
     (J_Hash (fst (Create uuid (t_mgr t))) files [] (None \<noteq> None),
      t\<lparr>t_mgr := create_s4 uuid path pieces (lt_num_pieces lt files) (t_mgr t)\<rparr>)
     (J_Folder (fst (Create uuid (t_mgr t))) e,
      t\<lparr>t_mgr := create_s4 uuid path pieces (lt_num_pieces lt files) (t_mgr t)\<rparr>)"
    by (rule comes_to_step [OF _ comes_to_refl]) (simp add: assms(4))
qed

lemma comes_to_generated:
  assumes "mgr_ok (t_mgr t)" and "bound (t_mgr t) uuid info" and "t_session t" and "uuid \<noteq> ''''"
    and "lt_torrent_info lt (t_fs t) (torrent_file ds path) = Inr x"
  shows "\<exists>t1. comes_to lt ds fresh uuid path (J_Read info, t) (J_Done, t1)
    \<and> view (t_mgr t1) = (view (t_mgr t))(uuid := map_option (generated_info (lt_magnet lt x) (torrent_file ds path)) (view (t_mgr t) uuid))
    \<and> mgr_ok (t_mgr t1) \<and> grows (t_mgr t) (t_mgr t1) \<and> t_fs t1 = t_fs t \<and> t_session t1"
proof -
  let ?s = "modify info (SetStatus GENERATED) (modify info (SetProgress 100)
      (modify info (SetPathToTFile (torrent_file ds path)) (modify info (SetLink (lt_magnet lt x)) (t_mgr t))))"
  let ?par = "default_params\<lparr>ap_save_path := pr_dir ds, ap_ti := Some x, ap_seed_mode := True\<rparr>"
  let ?t1 = "t\<lparr>t_mgr := ?s, t_calls := t_calls t @ [Async_Add ?par], t_list := put_param uuid ?par (t_list t)\<rparr>"
  have "comes_to lt ds fresh uuid path (J_Read info, t) (J_Done, ?t1)"
    using assms(3-5) unfolding comes_to_def
    by (intro exI [of _ 7]) (simp add: eval_nat_numeral CreateInfoFromFile_def AddTorrent_def Let_def)
  moreover have "mgr_ok ?s" using assms(1) by (simp add: reg.ok_alter)
  moreover have "view ?s = (view (t_mgr t))(uuid := map_option (generated_info (lt_magnet lt x) (torrent_file ds path)) (view (t_mgr t) uuid))"
    using assms(1,2) by (simp add: reg.obs_alter [where k = uuid] reg.ok_alter option.map_comp o_def generated_info_def)
  moreover have "grows (t_mgr t) ?s" by (intro grow_intros)
  ultimately show ?thesis using assms(3) by (intro exI [of _ ?t1]) simp
qed

text \<open>Two threads, \<open>a\<close> with project \<open>pa\<close> and \<open>b\<close> with \<open>pb\<close>: each can run on while the other stands still.\<close>

definition pair_gens :: "('en, 'ti) gens \<Rightarrow> string \<Rightarrow> string \<Rightarrow> string \<Rightarrow> string \<Rightarrow> 'ti engine \<Rightarrow> ('en, 'ti) jpc \<Rightarrow> ('en, 'ti) jpc
    \<Rightarrow> ('en, 'ti) gens" where
  "pair_gens s a pa b pb t pca pcb = s\<lparr>gs_engine := t, gs_threads := [(a, pa, pca), (b, pb, pcb)]\<rparr>"

lemma pair_first:
  "comes_to lt ds '''' a pa (pca, t) (pca1, t1) \<Longrightarrow>
   moves lt ds (pair_gens s a pa b pb t pca pcb) (pair_gens s a pa b pb t1 pca1 pcb)"
  using moves_thread [of lt ds "''''" a pa pca "pair_gens s a pa b pb t pca pcb" pca1 t1 0] by (simp add: pair_gens_def)

lemma pair_second:
  "comes_to lt ds '''' b pb (pcb, t) (pcb1, t1) \<Longrightarrow>
   moves lt ds (pair_gens s a pa b pb t pca pcb) (pair_gens s a pa b pb t1 pca pcb1)"
  using moves_thread [of lt ds "''''" b pb pcb "pair_gens s a pa b pb t pca pcb" pcb1 t1 1] by (simp add: pair_gens_def)

text \<open>A project that can be hashed and encoded in the file system \<open>fs\<close>.\<close>

definition encodes :: "('en, 'ti) lt_api \<Rightarrow> fsys \<Rightarrow> string \<Rightarrow> string list \<Rightarrow> int list \<Rightarrow> 'en \<Rightarrow> bool" where
  "encodes lt fs path files pieces e \<longleftrightarrow>
     lt_add_files lt fs path = files \<and> files \<noteq> [] \<and> lt_hash_calls lt fs files (GetDirectory path) = (pieces, None)
     \<and> lt_generate lt fs files (GetDirectory path) ''VerAI libtorrent'' = Some e"

lemma pair_encoded:
  assumes "encodes lt (t_fs t) pa fa pieces_a ea" and "encodes lt (t_fs t) pb fb pieces_b eb"
  shows "moves lt ds (pair_gens s a pa b pb t J_Create J_Create)
    (pair_gens s a pa b pb (t\<lparr>t_mgr := create_s4 b pb pieces_b (lt_num_pieces lt fb)
          (create_s4 a pa pieces_a (lt_num_pieces lt fa) (t_mgr t))\<rparr>)
       (J_Folder (fst (Create a (t_mgr t))) ea)
       (J_Folder (fst (Create b (create_s4 a pa pieces_a (lt_num_pieces lt fa) (t_mgr t)))) eb))"
proof -
  let ?t1 = "t\<lparr>t_mgr := create_s4 a pa pieces_a (lt_num_pieces lt fa) (t_mgr t)\<rparr>"
  have "comes_to lt ds '''' a pa (J_Create, t) (J_Folder (fst (Create a (t_mgr t))) ea, ?t1)"
    using assms(1) by (intro comes_to_folder) (auto simp: encodes_def)
  note first = pair_first [OF this]
  have "comes_to lt ds '''' b pb (J_Create, ?t1)
      (J_Folder (fst (Create b (t_mgr ?t1))) eb, ?t1\<lparr>t_mgr := create_s4 b pb pieces_b (lt_num_pieces lt fb) (t_mgr ?t1)\<rparr>)"
    using assms(2) by (intro comes_to_folder) (auto simp: encodes_def)
  from moves_trans [OF first pair_second [OF this]] show ?thesis by simp
qed

text \<open>C26: two projects whose last components are the same write the same torrent file, so generating them at the same
  time can file the wrong link: there is an interleaving in which both threads succeed and both torrents are
  filed as \<open>GENERATED\<close> with the magnet link of the second project, the first one with the path of its own.\<close>

theorem crossed_links:
  fixes a b :: string
  assumes "gs_threads s = [(a, pa, J_Create), (b, pb, J_Create)]" and "gs_engine s = t" and "engine_ok t" and "t_session t"
    and "a \<noteq> ''''" and "b \<noteq> ''''" and "a \<noteq> b" and "GetFileName pa = GetFileName pb"
    and "encodes lt (t_fs t) pa fa pieces_a ea" and "encodes lt (t_fs t) pb fb pieces_b eb"
    and "WriteTorrent lt ds ea (GetFileName pa) (t_fs t) = (Inr f, fs1)"
    and "WriteTorrent lt ds eb (GetFileName pb) fs1 = (Inr g, fs2)"
    and "lt_torrent_info lt fs2 g = Inr x"
  shows "\<exists>ls s1 i j. gen_run lt ds ls s = Some (Ret (), s1)
    \<and> gs_threads s1 = [(a, pa, J_Done), (b, pb, J_Done)]
    \<and> view (t_mgr (gs_engine s1)) a = Some i \<and> tStatus i = GENERATED \<and> tLink i = lt_magnet lt x \<and> pPath i = pa
    \<and> view (t_mgr (gs_engine s1)) b = Some j \<and> tStatus j = GENERATED \<and> tLink j = lt_magnet lt x \<and> pPath j = pb"
proof -
  let ?ia = "fst (Create a (t_mgr t))" and ?sa = "create_s4 a pa pieces_a (lt_num_pieces lt fa) (t_mgr t)"
  let ?ib = "fst (Create b ?sa)" and ?sb = "create_s4 b pb pieces_b (lt_num_pieces lt fb) ?sa"
  let ?S = "pair_gens s a pa b pb" and ?t2 = "t\<lparr>t_mgr := ?sb\<rparr>"
  note A = create_s4_facts [OF engine_okD(2) [OF assms(3)], where uuid = a and path = pa and pieces = pieces_a
      and n = "lt_num_pieces lt fa"]
  note B = create_s4_facts [OF A(1), where uuid = b and path = pb and pieces = pieces_b and n = "lt_num_pieces lt fb"]
  have wa: "WriteTorrent lt ds ea (GetFileName pa) (t_fs ?t2) = (Inr f, fs1)"
    and wb: "WriteTorrent lt ds eb (GetFileName pb) (t_fs (?t2\<lparr>t_fs := fs1\<rparr>)) = (Inr g, fs2)" using assms(11,12) by simp_all
  note wr = pair_first [OF comes_to_written(1) [OF wa]] pair_second [OF comes_to_written(1) [OF wb]]
  let ?t4 = "?t2\<lparr>t_fs := fs1, t_fs := fs2\<rparr>"
  have same: "torrent_file ds pa = g" "torrent_file ds pb = g"
    using comes_to_written(2) [OF wb] assms(8) by (simp_all add: torrent_file_def)
  have ba: "bound ?sb a ?ia" using grows_create_s4 [OF A(1)] A(2) by (simp add: grows_def)
  obtain t5 where t5: "comes_to lt ds '''' a pa (J_Read ?ia, ?t4) (J_Done, t5)"
    "view (t_mgr t5) = (view ?sb)(a := map_option (generated_info (lt_magnet lt x) g) (view ?sb a))"
    "mgr_ok (t_mgr t5)" "grows ?sb (t_mgr t5)" "t_fs t5 = fs2" "t_session t5"
    using comes_to_generated [of ?t4 a ?ia lt ds pa x "''''"] B(1) ba assms(4,5,13) same by auto
  have bb: "bound (t_mgr t5) b ?ib" using t5(4) B(2) by (simp add: grows_def)
  obtain t6 where t6: "comes_to lt ds '''' b pb (J_Read ?ib, t5) (J_Done, t6)"
    "view (t_mgr t6) = (view (t_mgr t5))(b := map_option (generated_info (lt_magnet lt x) g) (view (t_mgr t5) b))"
    using comes_to_generated [OF t5(3) bb t5(6) assms(6), of lt ds pb x "''''"] assms(13) t5(5) same by auto
  have "s = ?S t J_Create J_Create" using assms(1,2) by (simp add: pair_gens_def)
  with moves_trans [OF pair_encoded [OF assms(9,10)] moves_trans [OF wr(1) moves_trans [OF wr(2)
        moves_trans [OF pair_first [OF t5(1)] pair_second [OF t6(1)]]]]]
  obtain ls where run: "gen_run lt ds ls s = Some (Ret (), ?S t6 J_Done J_Done)" unfolding moves_def by metis
  obtain ia ib where i: "view ?sa a = Some ia" "pPath ia = pa" "view ?sb b = Some ib" "pPath ib = pb"
    using A(4) B(4) by blast
  have "view ?sb a = Some ia" using B(3) [OF assms(7)] i(1) by simp
  with i t5(2) t6(2) assms(7) have "view (t_mgr t6) a = Some (generated_info (lt_magnet lt x) g ia)"
    "view (t_mgr t6) b = Some (generated_info (lt_magnet lt x) g ib)" by simp_all
  with run i(2,4) show ?thesis by (fastforce simp: pair_gens_def generated_info_def)
qed

text \<open>The run in which both threads find the file; the ids play no part.\<close>

lemma crossed_remove_run:
  fixes a b :: string
  assumes "gs_threads s = [(a, pa, J_Create), (b, pb, J_Create)]" and "gs_engine s = t"
    and "GetFileName pa = GetFileName pb"
    and "encodes lt (t_fs t) pa fa pieces_a ea" and "encodes lt (t_fs t) pb fb pieces_b eb"
    and "sys_stat (t_fs t) (tf_dir ds) \<noteq> None" and "IsFileExist (t_fs t) (torrent_file ds pa)"
    and "Remove (torrent_file ds pa) (t_fs t) = (Inr u, fs1)"
  shows "\<exists>ls s1. gen_run lt ds ls s
    = Some (Throw (Ios_Failure (''Can't remove file: '' @ torrent_file ds pb)), s1)"
proof -
  let ?ia = "fst (Create a (t_mgr t))" and ?sa = "create_s4 a pa pieces_a (lt_num_pieces lt fa) (t_mgr t)"
  let ?ib = "fst (Create b ?sa)" and ?sb = "create_s4 b pb pieces_b (lt_num_pieces lt fb) ?sa"
  let ?S = "pair_gens s a pa b pb" and ?t2 = "t\<lparr>t_mgr := ?sb\<rparr>"
  have cf: "CreateFolder (tf_dir ds) (t_fs t) = t_fs t" using assms(6) by (simp add: CreateFolder_def)
  have same: "torrent_file ds pb = torrent_file ds pa" using assms(3) by (simp add: torrent_file_def)
  have finds: "comes_to lt ds '''' v p (J_Folder info e, ?t2) (J_Remove info e, ?t2)"
    if "torrent_file ds p = torrent_file ds pa" for v p info e
    using cf assms(7) that unfolding comes_to_def by (intro exI [of _ 2]) (simp add: eval_nat_numeral)
  have "comes_to lt ds '''' a pa (J_Remove ?ia ea, ?t2) (J_Write ?ia ea, ?t2\<lparr>t_fs := fs1\<rparr>)"
    using assms(8) unfolding comes_to_def by (intro exI [of _ 1]) simp
  note last = pair_first [OF this]
  have "s = ?S t J_Create J_Create" using assms(1,2) by (simp add: pair_gens_def)
  with moves_trans [OF pair_encoded [OF assms(4,5)] moves_trans [OF pair_first [OF finds [OF refl]]
        moves_trans [OF pair_second [OF finds [OF same]] last]]]
  obtain ls where ls: "gen_run lt ds ls s = Some (Ret (), ?S (?t2\<lparr>t_fs := fs1\<rparr>) (J_Write ?ia ea) (J_Remove ?ib eb))"
    unfolding moves_def by metis
  have "sys_stat fs1 (torrent_file ds pb) = None"
    using assms(8) same
    by (auto simp: Remove_def sys_remove_def sys_stat_def del_node_def split: option.splits if_splits node.splits)
  then have "\<exists>s1. gen_run lt ds [Gn_Run 1 ''''] (?S (?t2\<lparr>t_fs := fs1\<rparr>) (J_Write ?ia ea) (J_Remove ?ib eb))
      = Some (Throw (Ios_Failure (''Can't remove file: '' @ torrent_file ds pb)), s1)"
    by (simp add: pair_gens_def Remove_def sys_remove_def)
  with gen_run_append [OF ls] show ?thesis by metis
qed

text \<open>When the torrent file of that name already exists, generating the two projects at the same time can end the
  process: both threads find the file, one removes it, and the exception of the other's attempt to remove it
  leaves its thread, as \<open>WriteTorrent\<close> is called outside the handler.\<close>

lemma crossed_remove:
  fixes a b :: string
  assumes "gs_threads s = [(a, pa, J_Create), (b, pb, J_Create)]" and "gs_engine s = t"
    and "GetFileName pa = GetFileName pb"
    and "encodes lt (t_fs t) pa fa pieces_a ea" and "encodes lt (t_fs t) pb fb pieces_b eb"
    and "sys_stat (t_fs t) (tf_dir ds) \<noteq> None" and "IsFileExist (t_fs t) (torrent_file ds pa)"
    and "Remove (torrent_file ds pa) (t_fs t) = (Inr u, fs1)"
  shows "\<exists>ls s1. gen_run lt ds ls s
    = Some (Throw (Ios_Failure (''Can't remove file: '' @ torrent_file ds pb)), s1)"
  using assms by (rule crossed_remove_run)

section \<open>A concrete run\<close>

text \<open>A libtorrent that finds one file per path and encodes the project's path; the torrent's folder exists.\<close>

definition path_lt :: "(string, string) lt_api" where
  "path_lt = demo_lt\<lparr>lt_add_files := \<lambda>fs path. [path], lt_generate := \<lambda>fs files dir creator. Some (concat files)\<rparr>"

definition path_fs :: fsys where
  "path_fs = set_node [''t''] (DirNode 0x1FF) demo_fs"

definition two_gens :: "fsys \<Rightarrow> (string, string) gens" where
  "two_gens fs = \<lparr>gs_engine = demo_engine\<lparr>t_fs := fs\<rparr>,
     gs_threads = [(''a'', ''/x/prj'', J_Create), (''b'', ''/y/prj'', J_Create)], gs_request = None, gs_copy = None\<rparr>"

lemma path_lt_sel:
  "lt_add_files path_lt fs p = [p]" "lt_hash_calls path_lt fs [p] d = ([0], None)"
  "lt_generate path_lt fs [p] d c = Some p" "lt_bencode path_lt = (\<lambda>e. e)" "lt_magnet path_lt x = ''magnet:'' @ x"
  "lt_torrent_info path_lt fs p = (if ifs_read fs p = '''' then Inl ''empty'' else Inr (ifs_read fs p))"
  by (simp_all add: path_lt_def demo_lt_def)

lemma path_file:
  "GetFileName ''/x/prj'' = ''prj''" "GetFileName ''/y/prj'' = ''prj''" "tf_dir demo_dirs = ''/t''"
  "resolve ''/t'' = [''t'']" "resolve ''/t/prj.torrent'' = [''t'', ''prj.torrent'']" "\<not> needs_dir ''/t/prj.torrent''"
  "sys_stat path_fs ''/t'' \<noteq> None"
  by (simp_all add: GetFileName_def demo_dirs_def resolve_def needs_dir_def sys_stat_def path_fs_def)

lemma path_fs_ok: "fs_ok path_fs"
  unfolding path_fs_def by (intro fs_ok_set_node fs_ok_demo) (auto simp: is_dir_def demo_fs_sel)

lemma path_write:
  "WriteTorrent path_lt demo_dirs e ''prj'' path_fs =
     (Inr ''/t/prj.torrent'', set_node [''t'', ''prj.torrent''] (RegNode e) path_fs)"
  "WriteTorrent path_lt demo_dirs e2 ''prj'' (set_node [''t'', ''prj.torrent''] (RegNode e) path_fs) =
     (Inr ''/t/prj.torrent'', set_node [''t'', ''prj.torrent''] (RegNode e2) path_fs)"
  by (simp_all add: WriteTorrent_def Let_def path_file CreateFolder_def sys_stat_def IsFileExist_def Remove_def
      sys_remove_def ofs_write_def can_write_def path_lt_sel path_fs_def is_dir_def demo_fs_sel set_node_def del_node_def)

theorem crossed_links_witness:
  "\<exists>ls s1 i. gen_run path_lt demo_dirs ls (two_gens path_fs) = Some (Ret (), s1)
    \<and> view (t_mgr (gs_engine s1)) ''a'' = Some i \<and> tStatus i = GENERATED \<and> tLink i = ''magnet:/y/prj'' \<and> pPath i = ''/x/prj''"
proof -
  let ?t = "demo_engine\<lparr>t_fs := path_fs\<rparr>"
  have "engine_ok ?t" using demo_engine_ok path_fs_ok by (simp add: engine_ok_def)
  moreover have "ifs_read (set_node [''t'', ''prj.torrent''] (RegNode ''/y/prj'') path_fs) ''/t/prj.torrent'' = ''/y/prj''"
    by (simp add: ifs_read_def sys_stat_def path_file)
  ultimately show ?thesis
    using crossed_links [of "two_gens path_fs" "''a''" "''/x/prj''" "''b''" "''/y/prj''" ?t path_lt "[''/x/prj'']" "[0]"
        "''/x/prj''" "[''/y/prj'']" "[0]" "''/y/prj''" demo_dirs "''/t/prj.torrent''" _ "''/t/prj.torrent''"
        "set_node [''t'', ''prj.torrent''] (RegNode ''/y/prj'') path_fs" "''/y/prj''"]
    by (simp add: two_gens_def encodes_def path_lt_sel path_file path_write) blast
qed

theorem own_link_filed_witness:
  "\<exists>m s1 i. gen_run path_lt demo_dirs (replicate m (Gn_Run 0 ''f'')) ((two_gens path_fs)\<lparr>gs_threads := [(''a'', ''/x/prj'', J_Create)]\<rparr>)
      = Some (Ret (), s1)
    \<and> view (t_mgr (gs_engine s1)) ''a'' = Some i \<and> tStatus i = GENERATED \<and> tLink i = ''magnet:/x/prj''"
proof -
  let ?s = "(two_gens path_fs)\<lparr>gs_threads := [(''a'', ''/x/prj'', J_Create)]\<rparr>" and ?t = "demo_engine\<lparr>t_fs := path_fs\<rparr>"
  let ?parse = "\<lambda>c :: string. if c = '''' then Inl ''empty'' else Inr c"
  let ?p = "fst (Create ''a'' mgr_init)" and ?m = "create_s4 ''a'' ''/x/prj'' [0] (lt_num_pieces path_lt [''/x/prj'']) mgr_init"
  let ?fs = "set_node [''t'', ''prj.torrent''] (RegNode ''/x/prj'') path_fs"
  note facts = create_s4_facts [OF mgr_ok_init, where uuid = "''a''" and path = "''/x/prj''" and pieces = "[0]"
      and n = "lt_num_pieces path_lt [''/x/prj'']"]
  have c1: "comes_to path_lt demo_dirs ''f'' ''a'' ''/x/prj'' (J_Create, ?t) (J_Folder ?p ''/x/prj'', ?t\<lparr>t_mgr := ?m\<rparr>)"
    using comes_to_folder [of path_lt ?t "''/x/prj''" "[''/x/prj'']" "[0]" "''/x/prj''" demo_dirs "''f''" "''a''"]
    by (simp add: path_lt_sel)
  have c2: "comes_to path_lt demo_dirs ''f'' ''a'' ''/x/prj'' (J_Folder ?p ''/x/prj'', ?t\<lparr>t_mgr := ?m\<rparr>)
      (J_Read ?p, ?t\<lparr>t_mgr := ?m, t_fs := ?fs\<rparr>)"
    using comes_to_written(1) [of path_lt demo_dirs "''/x/prj''" "''/x/prj''" "?t\<lparr>t_mgr := ?m\<rparr>" _ ?fs "''f''" "''a''" ?p]
    by (simp add: path_file path_write)
  have rd: "lt_torrent_info path_lt ?fs (torrent_file demo_dirs ''/x/prj'') = Inr ''/x/prj''"
    by (simp add: path_lt_sel torrent_file_def path_file ifs_read_def sys_stat_def)
  obtain t1 where t1: "comes_to path_lt demo_dirs ''f'' ''a'' ''/x/prj'' (J_Read ?p, ?t\<lparr>t_mgr := ?m, t_fs := ?fs\<rparr>) (J_Done, t1)"
    "view (t_mgr t1) ''a'' = map_option (generated_info (lt_magnet path_lt ''/x/prj'') (torrent_file demo_dirs ''/x/prj'')) (view ?m ''a'')"
    using comes_to_generated [of "?t\<lparr>t_mgr := ?m, t_fs := ?fs\<rparr>" "''a''" ?p path_lt demo_dirs "''/x/prj''" "''/x/prj''" "''f''"]
      facts(1,2) rd by auto
  obtain m where m: "job_iter path_lt demo_dirs ''f'' ''a'' ''/x/prj'' m (J_Create, ?t) = (Ret (), (J_Done, t1))"
    using comes_to_trans [OF c1 comes_to_trans [OF c2 t1(1)]] by (auto simp: comes_to_def)
  let ?s1 = "?s\<lparr>gs_engine := t1, gs_threads := [(''a'', ''/x/prj'', J_Done)]\<rparr>"
  have run: "gen_run path_lt demo_dirs (replicate m (Gn_Run 0 ''f'')) ?s = Some (Ret (), ?s1)"
    using gen_run_thread [of path_lt demo_dirs "''f''" "''a''" "''/x/prj''" m J_Create ?s J_Done t1 0] m
    by (simp add: two_gens_def)
  obtain i where i: "view (t_mgr (gs_engine ?s1)) ''a'' = Some i" "tStatus i = GENERATED"
    using t1(2) facts(4) by (auto simp: generated_info_def)
  have ok: "gens_ok path_lt ?s" using demo_engine_ok path_fs_ok by (simp add: gens_ok_def two_gens_def engine_ok_def)
  have lt: "lt_pieces_ok path_lt" "lt_reads path_lt ?parse"
    by (auto simp: lt_pieces_ok_def path_lt_def demo_lt_def lt_reads_def)
  have ls: "list_all (label_apart ''a'' ''/x/prj'') (replicate m (Gn_Run 0 ''f''))" by (simp add: list_all_iff)
  obtain e x where ex: "e \<in> encodings path_lt ''/x/prj''" "?parse (lt_bencode path_lt e) = Inr x" "tLink i = lt_magnet path_lt x"
    using own_link_filed [OF ok lt _ _ _ _ _ _ ls run i] by (auto simp: two_gens_def split: if_splits)
  have "e = ''/x/prj''" using ex(1) by (auto simp: encodings_def found_files_def path_lt_sel)
  with ex(2,3) have "tLink i = ''magnet:/x/prj''" by (simp add: path_lt_sel)
  with run i show ?thesis by blast
qed

end
