(* ===== verification/Torrent_Reports.thy ===== *)
theory Torrent_Reports
  imports Torrent_Jobs Controller
begin

text \<open>
  What a report says of a torrent while a thread generates it. \<open>GetTorrentInfo\<close> copies the object with one
  getter after the other (\<open>Gn_Get\<close>, \<open>Gn_Field\<close> of theory \<open>Torrent_Jobs\<close>), so the copy can be torn: fields read
  early are older than fields read late.
\<close>

section \<open>A copy that is not interrupted\<close>

lemma copy_fields:
  assumes "gs_copy s = Some (p, n, this)" and "deref (t_mgr (gs_engine s)) p = Some i" and "n + m \<le> length copy_calls"
  shows "gen_run lt ds (replicate m Gn_Field) s =
    Some (Ret (), s\<lparr>gs_copy := Some (p, n + m, fold (\<lambda>call. call i) (take m (drop n copy_calls)) this)\<rparr>)"
  using assms
proof (induction m arbitrary: n s this)
  case (Suc m)
  let ?s = "s\<lparr>gs_copy := Some (p, Suc n, (copy_calls ! n) i this)\<rparr>"
  have "gen_step lt ds Gn_Field s = Some (Ret (), ?s)" using Suc.prems by simp
  moreover have "take (Suc m) (drop n copy_calls) = copy_calls ! n # take m (drop (Suc n) copy_calls)"
    using Suc.prems(3) by (simp add: Cons_nth_drop_Suc [symmetric])
  ultimately show ?case using Suc.IH [of ?s "Suc n" "(copy_calls ! n) i this"] Suc.prems by simp
qed simp

text \<open>It is the atomic \<open>GetTorrentInfo\<close> of theory \<open>Torrent_Core\<close>.\<close>

lemma copy_alone:
  assumes "engine_ok (gs_engine s)"
  shows "\<exists>p i. gen_run lt ds (Gn_Get uuid # replicate (length copy_calls) Gn_Field) s =
      Some (Ret (), s\<lparr>gs_engine := snd (GetTorrentInfo uuid (gs_engine s)), gs_copy := Some (p, length copy_calls, i)\<rparr>)
    \<and> fst (GetTorrentInfo uuid (gs_engine s)) = Some i"
proof -
  obtain p m where g: "Get uuid (t_mgr (gs_engine s)) = (p, m)" by fastforce
  obtain i where i: "deref m p = Some i"
    using reg.load_get [OF engine_okD(2) [OF assms], of uuid] g by auto
  let ?s = "s\<lparr>gs_engine := (gs_engine s)\<lparr>t_mgr := m\<rparr>, gs_copy := Some (p, 0, TorrentInfo '''')\<rparr>"
  have "gen_run lt ds (replicate (length copy_calls) Gn_Field) ?s =
      Some (Ret (), ?s\<lparr>gs_copy := Some (p, length copy_calls, i)\<rparr>)"
    using copy_fields [of ?s p 0 "TorrentInfo ''''" i "length copy_calls" lt ds] i Copy_calls [of "TorrentInfo ''''" i]
    by simp
  then show ?thesis using g i by (intro exI [of _ p] exI [of _ i]) (simp add: GetTorrentInfo_def)
qed

section \<open>What the fields of one torrent can be\<close>

definition own_fields :: "('en, 'ti) lt_api \<Rightarrow> dirs \<Rightarrow> (string \<Rightarrow> string + 'ti) \<Rightarrow> string \<Rightarrow> tinfo \<Rightarrow> bool" where
  "own_fields lt ds parse path i \<longleftrightarrow>
     tLink i \<in> insert '''' (own_links lt parse path) \<and> tPath i \<in> {'''', torrent_file ds path} \<and> pPath i \<in> {'''', path}"

abbreviation filed_own :: "('en, 'ti) lt_api \<Rightarrow> dirs \<Rightarrow> (string \<Rightarrow> string + 'ti) \<Rightarrow> string \<Rightarrow> string \<Rightarrow> 'ti engine \<Rightarrow> bool" where
  "filed_own lt ds parse k path t \<equiv> \<forall>i. view (t_mgr t) k = Some i \<longrightarrow> own_fields lt ds parse path i"

lemma own_fields_new [simp]: "own_fields lt ds parse path (TorrentInfo k)"
  by (simp add: own_fields_def)

lemma own_alter:
  assumes "mgr_ok (t_mgr t)" and "bound (t_mgr t) k p" and "filed_own lt ds parse k path t"
    and "\<And>i. own_fields lt ds parse path i \<Longrightarrow> own_fields lt ds parse path (f i)"
  shows "filed_own lt ds parse k path (t\<lparr>t_mgr := modify p f (t_mgr t)\<rparr>)"
  using assms by (auto simp: reg.obs_alter [where k = k])

text \<open>The thread of the torrent only ever writes its own link and paths.\<close>

lemma own_fields_step:
  assumes ok: "mgr_ok (t_mgr t)" and a: "asrt lt ds parse k path pc t" and own: "filed_own lt ds parse k path t"
    and step: "job_step lt ds fresh k path (pc, t) = (r, (pc1, t1))"
  shows "filed_own lt ds parse k path t1"
proof -
  have written: ?thesis if "t1 = t\<lparr>t_mgr := modify p f (t_mgr t)\<rparr>" and "bound (t_mgr t) k p"
      and "\<And>i. own_fields lt ds parse path i \<Longrightarrow> own_fields lt ds parse path (f i)" for p f
    using own_alter [OF ok that(2) own that(3)] that(1) by simp
  show ?thesis
  proof (cases pc)
    case J_Create
    obtain p s1 where c: "Create k (t_mgr t) = (p, s1)" by fastforce
    have "view s1 k = Some (case view (t_mgr t) k of None \<Rightarrow> TorrentInfo k | Some i \<Rightarrow> i)"
      using reg.obs_create [OF ok, of k] c by simp
    with J_Create step c own show ?thesis by (auto split: option.splits)
  next
    case (J_Files p)
    with own step show ?thesis by (auto simp: Let_def split: if_splits prod.splits)
  next
    case (J_Hash p files pieces failed)
    with own step show ?thesis by (cases pieces) (auto split: if_splits option.splits)
  next
    case (U_Get st pr ret)
    with own step reg.obs_get [OF ok, of k] show ?thesis by (auto simp: split_def Let_def)
  next
    case (J_Add x)
    have "t_mgr (snd (AddTorrent fresh k par t)) = t_mgr t" for par by (simp add: AddTorrent_def Let_def)
    with J_Add own step show ?thesis by (auto split: prod.splits outcome.splits) (metis snd_conv)+
  next
    case (J_Project p)
    with a step show ?thesis by (intro written [of p "SetPathToProject path"]) (auto simp: own_fields_def)
  next
    case (J_Link p x)
    with a step show ?thesis by (intro written [of p "SetLink (lt_magnet lt x)"]) (auto simp: own_fields_def)
  next
    case (J_TFile p)
    with a step show ?thesis by (intro written [of p "SetPathToTFile (torrent_file ds path)"]) (auto simp: own_fields_def)
  next
    case (J_Generating p)
    with a step show ?thesis by (intro written [of p "SetStatus GENERATING"]) (auto simp: own_fields_def)
  next
    case (U_Status q st pr ret)
    with a step show ?thesis by (intro written [of q "SetStatus st"]) (auto simp: own_fields_def)
  next
    case (U_Progress q pr ret)
    with a step show ?thesis by (intro written [of q "SetProgress (sint pr)"]) (auto simp: own_fields_def)
  next
    case (J_Full p)
    with a step show ?thesis by (intro written [of p "SetProgress 100"]) (auto simp: own_fields_def)
  next
    case (J_Generated p)
    with a step show ?thesis by (intro written [of p "SetStatus GENERATED"]) (auto simp: own_fields_def)
  qed (use own step in \<open>auto split: prod.splits sum.splits if_splits\<close>)
qed

lemma own_engine:
  "view (t_mgr t1) k = view (t_mgr t) k \<Longrightarrow> filed_own lt ds parse k path t \<Longrightarrow> filed_own lt ds parse k path t1"
  by simp

lemma gen_step_own:
  assumes lone: "lone lt ds parse k path n s" and ok: "gens_ok lt s" and lt: "lt_pieces_ok lt"
    and l: "label_apart k path l" and own: "filed_own lt ds parse k path (gs_engine s)"
    and step: "gen_step lt ds l s = Some (r, s1)"
  shows "filed_own lt ds parse k path (gs_engine s1)"
proof -
  have eok: "engine_ok (gs_engine s)" using ok by (simp add: gens_ok_def)
  note asked = status_of_effect(3) [OF eok]
  show ?thesis
  proof (cases l)
    case (Gn_Ask uuid p)
    obtain st t1 where so: "status_of uuid (gs_engine s) = (st, t1)" by fastforce
    with asked [of uuid] own Gn_Ask step show ?thesis by (auto split: if_splits)
  next
    case Gn_Start
    with step obtain uuid p where rq: "gs_request s = Some (uuid, p)" by (auto split: option.splits)
    obtain st t1 where so: "status_of uuid (gs_engine s) = (st, t1)" by fastforce
    with asked [of uuid] own Gn_Start step rq show ?thesis by auto
  next
    case (Gn_Run m fresh)
    obtain uuid p pc where th: "gs_threads s ! m = (uuid, p, pc)" by (cases "gs_threads s ! m") auto
    from step Gn_Run have m: "m < length (gs_threads s)" by (simp split: if_splits)
    obtain pc1 t1 where js: "job_step lt ds fresh uuid p (pc, gs_engine s) = (r, (pc1, t1))"
      and s1: "s1 = s\<lparr>gs_engine := t1, gs_threads := (gs_threads s)[m := (uuid, p, pc1)]\<rparr>"
      using step Gn_Run m th by (auto split: prod.splits)
    have "jpc_ok lt (t_mgr (gs_engine s)) uuid pc" using ok m th by (force simp: gens_ok_def dest: nth_mem)
    from job_step_effect [OF eok lt this js] have eff: "k \<noteq> uuid \<Longrightarrow> view (t_mgr t1) k = view (t_mgr (gs_engine s)) k"
      by (auto simp: step_effect_def)
    show ?thesis
    proof (cases "m = n")
      case True
      with lone th have "uuid = k" "p = path" "asrt lt ds parse k path pc (gs_engine s)" by (simp_all add: lone_def)
      with own_fields_step [OF engine_okD(2) [OF eok] _ own js [unfolded \<open>uuid = k\<close> \<open>p = path\<close>]] s1
      show ?thesis by simp
    next
      case False
      with lone m th have "k \<noteq> uuid" by (auto simp: lone_def apart_def)
      with own_engine [OF eff own] s1 show ?thesis by simp
    qed
  next
    case (Gn_Get uuid)
    with step reg.obs_get [OF engine_okD(2) [OF eok], of uuid] own show ?thesis by (auto simp: split_def Let_def)
  next
    case Gn_Field
    with step own show ?thesis by (auto split: option.splits if_splits)
  qed (use l in simp_all)
qed

section \<open>The copy a report is made of\<close>

definition reading :: "('en, 'ti) lt_api \<Rightarrow> dirs \<Rightarrow> (string \<Rightarrow> string + 'ti) \<Rightarrow> string \<Rightarrow> string \<Rightarrow> ('en, 'ti) gens \<Rightarrow> bool" where
  "reading lt ds parse k path s \<longleftrightarrow>
     (\<exists>p m this. gs_copy s = Some (p, m, this) \<and> bound (t_mgr (gs_engine s)) k p \<and> own_fields lt ds parse path this
        \<and> (0 < m \<longrightarrow> tId this = k) \<and> (5 < m \<longrightarrow> tProgress this \<le> 100))"

lemma copy_call_cases:
  assumes "m < length copy_calls"
  shows "(copy_calls ! m) i this \<in> {this\<lparr>tId := tId i\<rparr>, this\<lparr>tLink := tLink i\<rparr>, this\<lparr>tPath := tPath i\<rparr>,
      this\<lparr>pPath := pPath i\<rparr>, this\<lparr>tStatus := tStatus i\<rparr>, this\<lparr>tProgress := tProgress i\<rparr>}"
    and "m = 0 \<Longrightarrow> (copy_calls ! m) i this = this\<lparr>tId := tId i\<rparr>"
    and "m = 5 \<Longrightarrow> (copy_calls ! m) i this = this\<lparr>tProgress := tProgress i\<rparr>"
    and "0 < m \<Longrightarrow> tId ((copy_calls ! m) i this) = tId this"
proof -
  have "m \<in> {0, 1, 2, 3, 4, 5}" using assms by (auto simp: copy_calls_def)
  then show "(copy_calls ! m) i this \<in> {this\<lparr>tId := tId i\<rparr>, this\<lparr>tLink := tLink i\<rparr>, this\<lparr>tPath := tPath i\<rparr>,
      this\<lparr>pPath := pPath i\<rparr>, this\<lparr>tStatus := tStatus i\<rparr>, this\<lparr>tProgress := tProgress i\<rparr>}"
    "m = 0 \<Longrightarrow> (copy_calls ! m) i this = this\<lparr>tId := tId i\<rparr>"
    "m = 5 \<Longrightarrow> (copy_calls ! m) i this = this\<lparr>tProgress := tProgress i\<rparr>"
    "0 < m \<Longrightarrow> tId ((copy_calls ! m) i this) = tId this"
    by (auto simp: copy_calls_def)
qed

lemma reading_field:
  assumes rd: "reading lt ds parse k path s" and ok: "gens_ok lt s" and own: "filed_own lt ds parse k path (gs_engine s)"
    and step: "gen_step lt ds Gn_Field s = Some (r, s1)"
  shows "reading lt ds parse k path s1"
proof -
  obtain p m this where c: "gs_copy s = Some (p, m, this)" "bound (t_mgr (gs_engine s)) k p" "own_fields lt ds parse path this"
    "0 < m \<longrightarrow> tId this = k" "5 < m \<longrightarrow> tProgress this \<le> 100"
    using rd unfolding reading_def by blast
  have eok: "engine_ok (gs_engine s)" using ok by (simp add: gens_ok_def)
  note D = engine_okD [OF eok]
  obtain i where "m_heap (t_mgr (gs_engine s)) p = Some i"
    using mgr_ok_entry [OF D(2) c(2) [unfolded bound_def]] by blast
  then have i: "deref (t_mgr (gs_engine s)) p = Some i" "view (t_mgr (gs_engine s)) k = Some i"
    using c(2) by (simp_all add: bound_def view_def deref_def)
  have m: "m < length copy_calls" using step c(1) by (simp split: if_splits)
  let ?c = "(copy_calls ! m) i this"
  have s1: "s1 = s\<lparr>gs_copy := Some (p, Suc m, ?c)\<rparr>" using step c(1) m i(1) by simp
  have "own_fields lt ds parse path i" using own i(2) by simp
  with copy_call_cases(1) [OF m, of i this] c(3) have "own_fields lt ds parse path ?c"
    by (elim insertE emptyE) (simp_all add: own_fields_def)
  moreover have "tId ?c = k"
    using copy_call_cases(2,4) [OF m, of i this] c(4) view_id [OF D(2) i(2)] by (cases "m = 0") simp_all
  moreover have "tProgress ?c \<le> 100" if "5 < Suc m"
  proof -
    have "m = 5" using that m by (simp add: copy_calls_def)
    moreover have "tProgress i \<le> 100" using mgr_sane_view [OF D(1) i(2)] .
    ultimately show ?thesis using copy_call_cases(3) [OF m, of i this] by simp
  qed
  ultimately show ?thesis using c(2) by (simp add: reading_def s1)
qed

fun no_get :: "'ti glab \<Rightarrow> bool" where
  "no_get (Gn_Get uuid) \<longleftrightarrow> False"
| "no_get _ \<longleftrightarrow> True"

lemma gen_step_copy:
  assumes "gen_step lt ds l s = Some (r, s1)" and "no_get l" and "l \<noteq> Gn_Field"
  shows "gs_copy s1 = gs_copy s"
  using assms by (cases l) (auto split: prod.splits option.splits if_splits)

lemma gens_run_state:
  assumes "lone lt ds parse k path n s" and "gens_ok lt s" and "filed_own lt ds parse k path (gs_engine s)"
    and "lt_pieces_ok lt" and "lt_reads lt parse" and "\<And>x. parse '''' \<noteq> Inr x"
    and "list_all (label_apart k path) ls" and "gen_run lt ds ls s = Some (r, s1)"
  shows "lone lt ds parse k path n s1 \<and> gens_ok lt s1 \<and> filed_own lt ds parse k path (gs_engine s1)
    \<and> (reading lt ds parse k path s \<and> list_all no_get ls \<longrightarrow> reading lt ds parse k path s1)"
  using assms(1-3,7,8)
proof (induction ls arbitrary: s)
  case (Cons l ls)
  obtain w s2 where st: "gen_step lt ds l s = Some (w, s2)" using Cons.prems(5) by (cases "gen_step lt ds l s") auto
  have l: "label_apart k path l" using Cons.prems(4) by simp
  then have "glab_ok l" by (cases l) simp_all
  note next_state = lone_step [OF Cons.prems(1,2) assms(4-6) l st] gen_step_ok [OF Cons.prems(2) assms(4) this st]
    gen_step_own [OF Cons.prems(1,2) assms(4) l Cons.prems(3) st] gen_step_grows [OF Cons.prems(2) assms(4) st]
  have "reading lt ds parse k path s2" if "reading lt ds parse k path s" "no_get l"
  proof (cases "l = Gn_Field")
    case True
    with reading_field [OF that(1) Cons.prems(2,3)] st show ?thesis by simp
  next
    case False
    from gen_step_copy [OF st that(2) False] next_state(4) that(1) show ?thesis by (auto simp: reading_def grows_def)
  qed
  with Cons.IH [OF next_state(1-3)] Cons.prems(4,5) next_state(1-3) st show ?case by (cases w) auto
qed simp


section \<open>A torn report\<close>

lemma moves_copy:
  assumes "gs_copy s = Some (p, n, this)" and "deref (t_mgr (gs_engine s)) p = Some i" and "n + m \<le> length copy_calls"
  shows "moves lt ds s (s\<lparr>gs_copy := Some (p, n + m, fold (\<lambda>call. call i) (take m (drop n copy_calls)) this)\<rparr>)"
  using copy_fields [OF assms] unfolding moves_def by blast

lemma bound_known:
  assumes "mgr_ok s" and "bound s k p" and "view s k = Some i"
  shows "Get k s = (p, s)" and "deref s p = Some i"
  using assms by (simp_all add: bound_def Get_def view_def deref_def)

text \<open>C27: a report can be torn. The status is read after the link, so a report that begins before the thread files
  the link and ends after it has filed the status says \<open>GENERATED\<close> with an empty link, while the entry holds
  the torrent's link: the lock of the entry protects each getter, not the copy.\<close>

theorem torn_report:
  fixes k :: string
  assumes "gs_threads s = [(k, path, J_Create)]" and "gs_engine s = t" and "engine_ok t" and "t_session t" and "k \<noteq> ''''"
    and "view (t_mgr t) k = None" and "encodes lt (t_fs t) path files pieces e"
    and "WriteTorrent lt ds e (GetFileName path) (t_fs t) = (Inr f, fs1)" and "lt_torrent_info lt fs1 f = Inr x"
  shows "\<exists>ls s1 p this i. gen_run lt ds ls s = Some (Ret (), s1) \<and> gs_threads s1 = [(k, path, J_Done)]
    \<and> gs_copy s1 = Some (p, length copy_calls, this)
    \<and> ConvertTorrentInfo this = \<lparr>ri_id = k, ri_link = '''', ri_pathToTFile = torrent_file ds path, ri_status = RS_GENERATED,
         ri_workProgress = 100, ri_pathToProject = path\<rparr>
    \<and> view (t_mgr (gs_engine s1)) k = Some i \<and> tStatus i = GENERATED \<and> tLink i = lt_magnet lt x"
proof -
  let ?p = "fst (Create k (t_mgr t))" and ?m = "create_s4 k path pieces (lt_num_pieces lt files) (t_mgr t)"
  let ?t2 = "t\<lparr>t_mgr := ?m, t_fs := fs1\<rparr>"
  let ?S = "\<lambda>c t pc. s\<lparr>gs_engine := t, gs_threads := [(k, path, pc)], gs_copy := c\<rparr>"
  note A = create_s4_facts [OF engine_okD(2) [OF assms(3)], where uuid = k and path = path and pieces = pieces
      and n = "lt_num_pieces lt files"]
  obtain i where i: "view ?m k = Some i" "pPath i = path" "tId i = k" "tLink i = ''''" using A(4) assms(6) by auto
  note known = bound_known [OF A(1,2) i(1)]
  have wr: "WriteTorrent lt ds e (GetFileName path) (t_fs (t\<lparr>t_mgr := ?m\<rparr>)) = (Inr f, fs1)" using assms(8) by simp
  note tfile = comes_to_written(2) [OF wr]
  have "comes_to lt ds '''' k path (J_Create, t) (J_Read ?p, ?t2)"
    using comes_to_trans [OF comes_to_folder comes_to_written(1) [OF wr]] assms(7) by (simp add: encodes_def)
  then have m1: "moves lt ds s (?S (gs_copy s) ?t2 (J_Read ?p))"
    using moves_thread [of lt ds "''''" k path J_Create s "J_Read ?p" ?t2 0] assms(1,2) by simp
  have "gen_step lt ds (Gn_Get k) (?S (gs_copy s) ?t2 (J_Read ?p)) = Some (Ret (), ?S (Some (?p, 0, TorrentInfo '''')) ?t2 (J_Read ?p))"
    using known(1) by simp
  then have m2: "moves lt ds (?S (gs_copy s) ?t2 (J_Read ?p)) (?S (Some (?p, 0, TorrentInfo '''')) ?t2 (J_Read ?p))"
    unfolding moves_def by (intro exI [of _ "[Gn_Get k]"]) simp
  let ?c = "(TorrentInfo '''')\<lparr>tId := k, tLink := ''''\<rparr>"
  have m3: "moves lt ds (?S (Some (?p, 0, TorrentInfo '''')) ?t2 (J_Read ?p)) (?S (Some (?p, 2, ?c)) ?t2 (J_Read ?p))"
    using moves_copy [of "?S (Some (?p, 0, TorrentInfo '''')) ?t2 (J_Read ?p)" ?p 0 "TorrentInfo ''''" i 2 lt ds] known(2) i(3,4)
    by (simp add: copy_calls_def numeral_2_eq_2)
  obtain t3 where t3: "comes_to lt ds '''' k path (J_Read ?p, ?t2) (J_Done, t3)"
    "view (t_mgr t3) k = Some (generated_info (lt_magnet lt x) (torrent_file ds path) i)" "mgr_ok (t_mgr t3)" "grows ?m (t_mgr t3)"
    using comes_to_generated [of ?t2 k ?p lt ds path x "''''"] A(1,2) assms(4,5,9) tfile i(1) by auto
  let ?X = "?S (Some (?p, 2, ?c)) ?t2 (J_Read ?p)"
  have "moves lt ds ?X (?X\<lparr>gs_engine := t3, gs_threads := (gs_threads ?X)[0 := (k, path, J_Done)]\<rparr>)"
    by (rule moves_thread) (use t3(1) in simp_all)
  moreover have "?X\<lparr>gs_engine := t3, gs_threads := (gs_threads ?X)[0 := (k, path, J_Done)]\<rparr> = ?S (Some (?p, 2, ?c)) t3 J_Done"
    by simp
  ultimately have m4: "moves lt ds ?X (?S (Some (?p, 2, ?c)) t3 J_Done)" by (simp only:)
  let ?g = "generated_info (lt_magnet lt x) (torrent_file ds path) i"
  let ?d = "?c\<lparr>tPath := tPath ?g, pPath := pPath ?g, tStatus := tStatus ?g, tProgress := tProgress ?g\<rparr>"
  have "bound (t_mgr t3) k ?p" using A(2) t3(4) by (simp add: grows_def)
  note known3 = bound_known [OF t3(3) this t3(2)]
  have m5: "moves lt ds (?S (Some (?p, 2, ?c)) t3 J_Done) (?S (Some (?p, length copy_calls, ?d)) t3 J_Done)"
    using moves_copy [of "?S (Some (?p, 2, ?c)) t3 J_Done" ?p 2 ?c ?g 4 lt ds] known3(2)
    by (simp add: copy_calls_def eval_nat_numeral)
  from moves_trans [OF m1 moves_trans [OF m2 moves_trans [OF m3 moves_trans [OF m4 m5]]]]
  obtain ls where "gen_run lt ds ls s = Some (Ret (), ?S (Some (?p, length copy_calls, ?d)) t3 J_Done)"
    unfolding moves_def by blast
  moreover have "ConvertTorrentInfo ?d = \<lparr>ri_id = k, ri_link = '''', ri_pathToTFile = torrent_file ds path,
      ri_status = RS_GENERATED, ri_workProgress = 100, ri_pathToProject = path\<rparr>"
    using i(2) by (simp add: ConvertTorrentInfo_def generated_info_def)
  ultimately show ?thesis using t3(2) by (fastforce simp: generated_info_def)
qed

text \<open>C28: two requests for one torrent end the process. \<open>CreateTorrentAsync\<close> looks at the status before it starts a
  thread, but the thread sets the status only when it runs, so a second request that comes before that starts
  a second thread for the same torrent; when the torrent file exists, both find it, and the second attempt to
  remove it throws out of its thread.\<close>

theorem double_request:
  fixes s :: "('en, 'ti) gens"
  assumes "gs_threads s = []" and "gs_request s = None" and "engine_ok (gs_engine s)"
    and "view (t_mgr (gs_engine s)) k = None"
    and "encodes lt (t_fs (gs_engine s)) path files pieces e"
    and "sys_stat (t_fs (gs_engine s)) (tf_dir ds) \<noteq> None" and "IsFileExist (t_fs (gs_engine s)) (torrent_file ds path)"
    and "Remove (torrent_file ds path) (t_fs (gs_engine s)) = (Inr u, fs1)"
  shows "\<exists>s1 ls s2. gen_run lt ds [Gn_Ask k path, Gn_Start, Gn_Ask k path, Gn_Start] s = Some (Ret (), s1)
    \<and> gs_threads s1 = [(k, path, J_Create), (k, path, J_Create)]
    \<and> gen_run lt ds ls s1 = Some (Throw (Ios_Failure (''Can't remove file: '' @ torrent_file ds path)), s2)"
proof -
  have ask: "\<exists>t1. status_of k t = (Some UNKNOWN, t1) \<and> engine_ok t1 \<and> view (t_mgr t1) k = None \<and> t_fs t1 = t_fs t"
    if "engine_ok t" "view (t_mgr t) k = None" for t :: "'ti engine"
    using status_of_effect [OF that(1), of k] that(2) by (intro exI [of _ "snd (status_of k t)"]) (simp add: prod_eq_iff)
  let ?t = "gs_engine s"
  obtain t1 where t1: "status_of k ?t = (Some UNKNOWN, t1)" "engine_ok t1" "view (t_mgr t1) k = None" "t_fs t1 = t_fs ?t"
    using ask [OF assms(3,4)] by blast
  obtain t2 where t2: "status_of k t1 = (Some UNKNOWN, t2)" "engine_ok t2" "view (t_mgr t2) k = None" "t_fs t2 = t_fs ?t"
    using ask [OF t1(2,3)] t1(4) by auto
  obtain t3 where t3: "status_of k t2 = (Some UNKNOWN, t3)" "engine_ok t3" "view (t_mgr t3) k = None" "t_fs t3 = t_fs ?t"
    using ask [OF t2(2,3)] t2(4) by auto
  obtain t4 where t4: "status_of k t3 = (Some UNKNOWN, t4)" "t_fs t4 = t_fs ?t"
    using ask [OF t3(2,3)] t3(4) by auto
  let ?s1 = "s\<lparr>gs_engine := t4, gs_threads := [(k, path, J_Create), (k, path, J_Create)], gs_request := None\<rparr>"
  have "gen_run lt ds [Gn_Ask k path, Gn_Start, Gn_Ask k path, Gn_Start] s = Some (Ret (), ?s1)"
    using assms(1,2) t1(1) t2(1) t3(1) t4(1) by simp
  moreover obtain ls s2 where "gen_run lt ds ls ?s1
      = Some (Throw (Ios_Failure (''Can't remove file: '' @ torrent_file ds path)), s2)"
    using crossed_remove_run [of ?s1 k path k path t4 lt files pieces e files pieces e ds u fs1] assms(5-8) t4(2) by auto
  ultimately show ?thesis by (intro exI conjI) simp_all
qed

section \<open>Concrete runs\<close>

definition one_gen :: "fsys \<Rightarrow> (string, string) gens" where
  "one_gen fs = (two_gens fs)\<lparr>gs_threads := [(''a'', ''/x/prj'', J_Create)]\<rparr>"

lemma one_gen_sel [simp]:
  "gs_threads (one_gen fs) = [(''a'', ''/x/prj'', J_Create)]" "gs_engine (one_gen fs) = demo_engine\<lparr>t_fs := fs\<rparr>"
  "gs_request (one_gen fs) = None" "gs_copy (one_gen fs) = None"
  by (simp_all add: one_gen_def two_gens_def)

lemma demo_engine_fs: "fs_ok fs \<Longrightarrow> engine_ok (demo_engine\<lparr>t_fs := fs\<rparr>)"
  using demo_engine_ok by (simp add: engine_ok_def)

theorem torn_report_witness:
  "\<exists>ls s1 p this. gen_run path_lt demo_dirs ls (one_gen path_fs) = Some (Ret (), s1)
    \<and> gs_copy s1 = Some (p, length copy_calls, this)
    \<and> ri_status (ConvertTorrentInfo this) = RS_GENERATED \<and> ri_link (ConvertTorrentInfo this) = ''''"
proof -
  let ?t = "demo_engine\<lparr>t_fs := path_fs\<rparr>"
  have "engine_ok ?t" using demo_engine_fs path_fs_ok by blast
  moreover have "ifs_read (set_node [''t'', ''prj.torrent''] (RegNode ''/x/prj'') path_fs) ''/t/prj.torrent'' = ''/x/prj''"
    by (simp add: ifs_read_def sys_stat_def path_file)
  ultimately show ?thesis
    using torn_report [of "one_gen path_fs" "''a''" "''/x/prj''" ?t path_lt "[''/x/prj'']" "[0]" "''/x/prj''" demo_dirs
        "''/t/prj.torrent''" "set_node [''t'', ''prj.torrent''] (RegNode ''/x/prj'') path_fs" "''/x/prj''"]
    by (simp add: encodes_def path_lt_sel path_file path_write) (metis rpc_tinfo.select_convs(2,4))
qed

theorem double_request_witness:
  "\<exists>s1 ls s2. gen_run path_lt demo_dirs [Gn_Ask ''a'' ''/x/prj'', Gn_Start, Gn_Ask ''a'' ''/x/prj'', Gn_Start]
      ((one_gen (set_node [''t'', ''prj.torrent''] (RegNode ''old'') path_fs))\<lparr>gs_threads := []\<rparr>) = Some (Ret (), s1)
    \<and> gen_run path_lt demo_dirs ls s1 = Some (Throw (Ios_Failure ''Can't remove file: /t/prj.torrent''), s2)"
proof -
  let ?fs = "set_node [''t'', ''prj.torrent''] (RegNode ''old'') path_fs"
  let ?s = "(one_gen ?fs)\<lparr>gs_threads := []\<rparr>"
  have f: "torrent_file demo_dirs ''/x/prj'' = ''/t/prj.torrent''" by (simp add: torrent_file_def path_file)
  have "fs_ok ?fs"
    by (intro fs_ok_set_node path_fs_ok) (auto simp: is_dir_def path_fs_def demo_fs_sel set_node_def)
  then have "engine_ok (gs_engine ?s)" by (simp add: demo_engine_fs)
  moreover have "Remove ''/t/prj.torrent'' ?fs = (Inr (), del_node [''t'', ''prj.torrent''] ?fs)"
    by (simp add: Remove_def sys_remove_def sys_stat_def path_file path_fs_def demo_fs_sel)
  moreover have "sys_stat ?fs ''/t'' \<noteq> None" by (simp add: sys_stat_def path_file path_fs_def)
  moreover have "IsFileExist ?fs ''/t/prj.torrent''" by (simp add: IsFileExist_def sys_stat_def path_file)
  ultimately show ?thesis
    using double_request [of ?s "''a''" path_lt "''/x/prj''" "[''/x/prj'']" "[0]" "''/x/prj''" demo_dirs "()"]
    by (simp add: encodes_def path_lt_sel path_file f) blast
qed


end
