(* ===== verification/Client_Tasks.thy ===== *)
theory Client_Tasks
  imports Torrent_Reports
begin

text \<open>
  The tasks of the client (\<^verbatim>\<open>grpc_client.cpp\<close>) with the callbacks of the controller (\<^verbatim>\<open>controller.cpp\<close>), step by
  step: the worker's thread has a program counter, and one step is the code up to and with one call of the
  server or one access to what it shares with the engine's threads. Theory \<open>Grpc_Client\<close> has the same tasks as
  functions; a task that is not interrupted is proved to be that function. The server is any \<open>stub_api\<close>.
\<close>

text \<open>
  The counters hold the torrents of the list that are still to be handled. \<open>K_Starts\<close> is between the two looks
  at the status in \<open>CreateTorrentAsync\<close>, \<open>K_Caught\<close> is the handler of \<open>DownloadTorrent\<close>, \<open>K_Copy\<close> is in
  \<open>GetTorrentInfo\<close>, \<open>K_Send\<close> is before the report.
\<close>

datatype client_pc =
    K_Idle
  | K_Begin task_type
  | K_Generate "rpc_tinfo list"
  | K_Starts "rpc_tinfo list"
  | K_Download "rpc_tinfo list"
  | K_Caught rpc_tinfo "rpc_tinfo list"
  | K_Report "rpc_tinfo list"
  | K_Copy "rpc_tinfo list"
  | K_Send rpc_tinfo "rpc_tinfo list"

record ('en, 'ti) node =
  nd_client :: grpc
  nd_pc :: client_pc
  nd_gens :: "('en, 'ti) gens"

text \<open>The world of theory \<open>Controller\<close> that a node is: its threads are the engine's jobs.\<close>

definition jobs_of :: "('en, 'ti) gens \<Rightarrow> (string \<times> string) list" where
  "jobs_of s = map (\<lambda>(uuid, path, pc). (uuid, path)) (gs_threads s)"

definition node_world :: "('en, 'ti) node \<Rightarrow> 'srv \<Rightarrow> ('ti, 'srv) world" where
  "node_world n srv = \<lparr>wo_torrent = Some ((gs_engine (nd_gens n))\<lparr>t_jobs := jobs_of (nd_gens n)\<rparr>), wo_rpc = True, wo_srv = srv\<rparr>"

text \<open>The stub on the server alone, and a step that calls it.\<close>

definition ask ::
  "(daemon_info \<Rightarrow> 'srv \<Rightarrow> (rpc_tinfo list \<times> bool) \<times> 'srv) \<Rightarrow> (rpc_tinfo list \<Rightarrow> client_pc) \<Rightarrow> ('en, 'ti) node \<times> 'srv
   \<Rightarrow> unit outcome \<times> (('en, 'ti) node \<times> 'srv)" where
  "ask call pc = (\<lambda>(n, srv).
     if \<not> g_stub (nd_client n) then (Undefined, (n, srv))
     else (let (reader, srv1) = call (GetClientInfo (nd_client n)) srv
           in (Ret (), (n\<lparr>nd_pc := pc (ReadStream reader)\<rparr>, srv1))))"

definition send ::
  "'srv stub_api \<Rightarrow> rpc_tinfo \<Rightarrow> client_pc \<Rightarrow> ('en, 'ti) node \<times> 'srv \<Rightarrow> unit outcome \<times> (('en, 'ti) node \<times> 'srv)" where
  "send api tInfo pc = (\<lambda>(n, srv).
     case UpdateTorrentStatus api (nd_client n) tInfo srv of
       (Ret _, srv1) \<Rightarrow> (Ret (), (n\<lparr>nd_pc := pc\<rparr>, srv1))
     | (r, srv1) \<Rightarrow> (r, (n, srv1)))"

text \<open>A step of the client's thread on the engine.\<close>

definition on_gens ::
  "('en, 'ti) lt_api \<Rightarrow> dirs \<Rightarrow> 'ti glab \<Rightarrow> (unit outcome \<Rightarrow> ('en, 'ti) gens \<Rightarrow> unit outcome \<times> client_pc) \<Rightarrow> ('en, 'ti) node \<times> 'srv
   \<Rightarrow> (unit outcome \<times> (('en, 'ti) node \<times> 'srv)) option" where
  "on_gens lt ds l after = (\<lambda>(n, srv).
     case gen_step lt ds l (nd_gens n) of
       None \<Rightarrow> None
     | Some (r, s1) \<Rightarrow> (let (r1, pc) = after r s1 in Some (r1, (n\<lparr>nd_pc := pc, nd_gens := s1\<rparr>, srv))))"

text \<open>A task whose body is a single call of the server.\<close>

definition whole_task ::
  "'srv stub_api \<Rightarrow> ('ti, 'srv) world callback_api \<Rightarrow> task_type \<Rightarrow> ('en, 'ti) node \<times> 'srv \<Rightarrow> unit outcome \<times> (('en, 'ti) node \<times> 'srv)" where
  "whole_task api cb x = (\<lambda>(n, srv).
     let (r, (g, w)) = run_body (world_stub api) cb x (nd_client n, node_world n srv)
     in (r, (n\<lparr>nd_client := g, nd_pc := K_Idle\<rparr>, wo_srv w)))"

fun client_step ::
  "'srv stub_api \<Rightarrow> ('en, 'ti) lt_api \<Rightarrow> dirs \<Rightarrow> string \<Rightarrow> string result \<Rightarrow> client_pc \<Rightarrow> ('en, 'ti) node \<times> 'srv
   \<Rightarrow> (unit outcome \<times> (('en, 'ti) node \<times> 'srv)) option" where
  "client_step api lt ds fresh uuid K_Idle (n, srv) =
     (case Work_step (g_worker (nd_client n)) of
        None \<Rightarrow> None
      | Some t \<Rightarrow> Some (Ret (), (n\<lparr>nd_client := (nd_client n)\<lparr>g_worker := t\<rparr>,
                    nd_pc := (if w_log t = w_log (g_worker (nd_client n)) then K_Idle else K_Begin (last (w_log t)))\<rparr>, srv)))"
| "client_step api lt ds fresh uuid (K_Begin GENERATE_MAGENT) s = Some (ask (sa_GetInfoForGenerateTorrents api) K_Generate s)"
| "client_step api lt ds fresh uuid (K_Begin DOWNLOAD_TORRENT) s = Some (ask (sa_GetTorrentsForDownload api) K_Download s)"
| "client_step api lt ds fresh uuid (K_Begin UPDATE_TORRENT_STATUS) s = Some (ask (sa_GetTorrentsForUpdateStatus api) K_Report s)"
| "client_step api lt ds fresh uuid (K_Begin x) s = Some (whole_task api (controller_cb lt ds fresh uuid) x s)"
| "client_step api lt ds fresh uuid (K_Generate []) (n, srv) =
     Some (Ret (), (n\<lparr>nd_client := AddTaskAfterTimeOut UPDATE_TORRENT_STATUS 30 (nd_client n), nd_pc := K_Idle\<rparr>, srv))"
| "client_step api lt ds fresh uuid (K_Generate (ti # tis)) s =
     on_gens lt ds (Gn_Ask (ri_id ti) (ri_pathToProject ti))
       (\<lambda>r s1. (r, if gs_request s1 = None then K_Generate tis else K_Starts tis)) s"
| "client_step api lt ds fresh uuid (K_Starts tis) s = on_gens lt ds Gn_Start (\<lambda>r s1. (r, K_Generate tis)) s"
| "client_step api lt ds fresh uuid (K_Download []) (n, srv) =
     Some (Ret (), (n\<lparr>nd_client := AddTask UPDATE_TORRENT_STATUS (nd_client n), nd_pc := K_Idle\<rparr>, srv))"
| "client_step api lt ds fresh uuid (K_Download (ti # tis)) s =
     on_gens lt ds (Gn_Download fresh (ri_id ti) (ri_link ti))
       (\<lambda>r s1. case r of
                 Throw (Runtime_Error msg) \<Rightarrow> (Ret (), K_Caught ti tis)
               | _ \<Rightarrow> (r, K_Download tis)) s"
| "client_step api lt ds fresh uuid (K_Caught ti tis) s = Some (send api ti (K_Download tis) s)"
| "client_step api lt ds fresh uuid (K_Report []) (n, srv) = Some (Ret (), (n\<lparr>nd_pc := K_Idle\<rparr>, srv))"
| "client_step api lt ds fresh uuid (K_Report (ti # tis)) s =
     on_gens lt ds (Gn_Get (ri_id ti)) (\<lambda>r s1. (r, K_Copy tis)) s"
| "client_step api lt ds fresh uuid (K_Copy tis) s =
     on_gens lt ds Gn_Field
       (\<lambda>r s1. case gs_copy s1 of
                 Some (p, n, this) \<Rightarrow> (r, if n = length copy_calls then K_Send (ConvertTorrentInfo this) tis else K_Copy tis)
               | None \<Rightarrow> (r, K_Copy tis)) s"
| "client_step api lt ds fresh uuid (K_Send tInfo tis) s = Some (send api tInfo (K_Report tis) s)"

text \<open>The thread runs on without the others until it comes back to the worker's loop, or ends.\<close>

fun client_iter ::
  "'srv stub_api \<Rightarrow> ('en, 'ti) lt_api \<Rightarrow> dirs \<Rightarrow> string \<Rightarrow> string result \<Rightarrow> nat \<Rightarrow> ('en, 'ti) node \<times> 'srv
   \<Rightarrow> (unit outcome \<times> (('en, 'ti) node \<times> 'srv)) option" where
  "client_iter api lt ds fresh uuid 0 s = Some (Ret (), s)"
| "client_iter api lt ds fresh uuid (Suc m) s =
     (case client_step api lt ds fresh uuid (nd_pc (fst s)) s of
        None \<Rightarrow> None
      | Some (Ret _, s1) \<Rightarrow> client_iter api lt ds fresh uuid m s1
      | Some r \<Rightarrow> Some r)"

section \<open>A task that is not interrupted\<close>

definition comes ::
  "'srv stub_api \<Rightarrow> ('en, 'ti) lt_api \<Rightarrow> dirs \<Rightarrow> string \<Rightarrow> string result \<Rightarrow> ('en, 'ti) node \<times> 'srv \<Rightarrow> unit outcome
   \<Rightarrow> ('en, 'ti) node \<times> 'srv \<Rightarrow> bool" where
  "comes api lt ds fresh uuid s r s1 \<longleftrightarrow> (\<exists>m. client_iter api lt ds fresh uuid m s = Some (r, s1))"

lemma client_iter_add:
  "client_iter api lt ds fresh uuid m s = Some (Ret (), s1) \<Longrightarrow>
   client_iter api lt ds fresh uuid (m + k) s = client_iter api lt ds fresh uuid k s1"
  by (induction m arbitrary: s) (auto split: option.splits prod.splits outcome.splits)

lemma comes_refl: "comes api lt ds fresh uuid s (Ret ()) s"
  unfolding comes_def by (rule exI [of _ 0]) simp

lemma comes_trans:
  "comes api lt ds fresh uuid s (Ret ()) s1 \<Longrightarrow> comes api lt ds fresh uuid s1 r s2 \<Longrightarrow> comes api lt ds fresh uuid s r s2"
  unfolding comes_def by (metis client_iter_add)

lemma comes_step:
  assumes "client_step api lt ds fresh uuid (nd_pc (fst s)) s = Some (r, s1)"
  shows "comes api lt ds fresh uuid s r s1"
  unfolding comes_def
proof (rule exI [of _ 1])
  show "client_iter api lt ds fresh uuid 1 s = Some (r, s1)" using assms by (cases r) auto
qed

text \<open>The engine's operations leave the list of jobs alone.\<close>

lemma engine_jobs:
  "status_of u (t\<lparr>t_jobs := js\<rparr>) = (let (st, t1) = status_of u t in (st, t1\<lparr>t_jobs := js\<rparr>))"
  "GetTorrentInfo u (t\<lparr>t_jobs := js\<rparr>) = (let (i, t1) = GetTorrentInfo u t in (i, t1\<lparr>t_jobs := js\<rparr>))"
  "DownloadAsync lt ds fresh u link (t\<lparr>t_jobs := js\<rparr>) = (let (r, t1) = DownloadAsync lt ds fresh u link t in (r, t1\<lparr>t_jobs := js\<rparr>))"
  by (simp_all add: status_of_def GetTorrentInfo_def DownloadAsync_stages AddTorrent_def Let_def split_def split: sum.split)

lemma Get_twice:
  assumes "view s k = Some i"
  shows "snd (Get k s) = s"
proof -
  obtain p where "map_find (m_list s) k = Some p" using assms by (auto simp: view_def split: option.splits)
  then show ?thesis by (simp add: Get_def)
qed

text \<open>A request: two steps, or one when the torrent is being generated.\<close>

lemma request_steps:
  assumes "gs_request s = None" and "engine_ok (gs_engine s)"
  shows "\<exists>s1 s2. gen_step lt ds (Gn_Ask u p) s = Some (Ret (), s1)
    \<and> (if gs_request s1 = None then s2 = s1 else gen_step lt ds Gn_Start s1 = Some (Ret (), s2))
    \<and> gs_request s2 = None \<and> engine_ok (gs_engine s2)
    \<and> (gs_engine s2)\<lparr>t_jobs := jobs_of s2\<rparr> = CreateTorrentAsync u p ((gs_engine s)\<lparr>t_jobs := jobs_of s\<rparr>)"
proof -
  let ?t = "gs_engine s"
  obtain st1 t1 where a: "status_of u ?t = (st1, t1)" by fastforce
  obtain st2 t2 where b: "status_of u t1 = (st2, t2)" by fastforce
  have t1: "engine_ok t1" "view (t_mgr t1) = view (t_mgr ?t)"
    "st1 = Some (case view (t_mgr ?t) u of None \<Rightarrow> UNKNOWN | Some i \<Rightarrow> tStatus i)"
    using status_of_effect [OF assms(2), of u] a by simp_all
  have t2: "engine_ok t2" "st2 = st1" using status_of_effect [OF t1(1), of u] b t1(2,3) by simp_all
  have cr: "CreateTorrentAsync u p (?t\<lparr>t_jobs := jobs_of s\<rparr>) =
      (if st1 \<noteq> Some GENERATING \<and> st2 \<noteq> Some GENERATED then t2\<lparr>t_jobs := jobs_of s @ [(u, p)]\<rparr> else t2\<lparr>t_jobs := jobs_of s\<rparr>)"
    using a b t1(3) t2(2) by (auto simp: CreateTorrentAsync_def status_of_def Let_def split: option.splits prod.splits)
  have rest: "t1 = ?t\<lparr>t_mgr := t_mgr t1\<rparr>" "t2 = t1\<lparr>t_mgr := t_mgr t2\<rparr>"
    using a b by (auto simp: status_of_def Let_def split_def)
  show ?thesis
  proof (cases "st1 = Some GENERATING")
    case True
    then obtain i where "view (t_mgr t1) u = Some i" using t1(2,3) by (auto split: option.splits)
    then have "t2 = t1" using Get_twice b by (auto simp: status_of_def Let_def split_def)
    with True a assms(1) t1(1) cr show ?thesis by (auto simp: jobs_of_def)
  next
    case False
    let ?s1 = "s\<lparr>gs_engine := t1, gs_request := Some (u, p)\<rparr>"
    let ?s2 = "s\<lparr>gs_engine := t2, gs_request := None,
        gs_threads := gs_threads s @ (if st2 = Some GENERATED then [] else [(u, p, J_Create)])\<rparr>"
    have "gen_step lt ds (Gn_Ask u p) s = Some (Ret (), ?s1)" "gen_step lt ds Gn_Start ?s1 = Some (Ret (), ?s2)"
      using a b False assms(1) by simp_all
    moreover have "(gs_engine ?s2)\<lparr>t_jobs := jobs_of ?s2\<rparr> = CreateTorrentAsync u p (?t\<lparr>t_jobs := jobs_of s\<rparr>)"
      using cr False by (simp add: jobs_of_def)
    ultimately show ?thesis using t2(1) by (intro exI [of _ ?s1] exI [of _ ?s2]) simp
  qed
qed

text \<open>The loops of the three callbacks, from the counter at their head to the one at their end.\<close>

abbreviation ctl :: "('en, 'ti) lt_api \<Rightarrow> dirs \<Rightarrow> string \<Rightarrow> string result \<Rightarrow> ('ti, 'srv) world callback_api" where
  "ctl lt ds fresh uuid \<equiv> controller_cb lt ds fresh uuid"

lemma generate_loop:
  assumes "gs_request (nd_gens n) = None" and "engine_ok (gs_engine (nd_gens n))"
  shows "\<exists>s1. comes api lt ds fresh uuid (n\<lparr>nd_pc := K_Generate tis\<rparr>, srv) (Ret ()) (n\<lparr>nd_pc := K_Generate [], nd_gens := s1\<rparr>, srv)
    \<and> GenerateTorrents (ctl lt ds fresh uuid) tis (node_world n srv) = (Ret (), node_world (n\<lparr>nd_gens := s1\<rparr>) srv)
    \<and> gs_request s1 = None \<and> engine_ok (gs_engine s1)"
  using assms
proof (induction tis arbitrary: n)
  case Nil
  then show ?case
    by (intro exI [of _ "nd_gens n"]) (simp add: comes_refl GenerateTorrents_def)
next
  case (Cons ti tis)
  obtain s1 s2 where st: "gen_step lt ds (Gn_Ask (ri_id ti) (ri_pathToProject ti)) (nd_gens n) = Some (Ret (), s1)"
    "if gs_request s1 = None then s2 = s1 else gen_step lt ds Gn_Start s1 = Some (Ret (), s2)"
    "gs_request s2 = None" "engine_ok (gs_engine s2)"
    "(gs_engine s2)\<lparr>t_jobs := jobs_of s2\<rparr> = CreateTorrentAsync (ri_id ti) (ri_pathToProject ti)
       ((gs_engine (nd_gens n))\<lparr>t_jobs := jobs_of (nd_gens n)\<rparr>)"
    using request_steps [OF Cons.prems] by blast
  let ?n = "n\<lparr>nd_gens := s2\<rparr>"
  have one: "comes api lt ds fresh uuid (n\<lparr>nd_pc := K_Generate (ti # tis)\<rparr>, srv) (Ret ()) (?n\<lparr>nd_pc := K_Generate tis\<rparr>, srv)"
  proof (cases "gs_request s1 = None")
    case True
    with st(1,2) show ?thesis by (intro comes_step) (simp add: on_gens_def del: gen_step.simps)
  next
    case False
    then have "comes api lt ds fresh uuid (n\<lparr>nd_pc := K_Generate (ti # tis)\<rparr>, srv) (Ret ()) (n\<lparr>nd_pc := K_Starts tis, nd_gens := s1\<rparr>, srv)"
      using st(1) by (intro comes_step) (simp add: on_gens_def del: gen_step.simps)
    moreover have "comes api lt ds fresh uuid (n\<lparr>nd_pc := K_Starts tis, nd_gens := s1\<rparr>, srv) (Ret ()) (?n\<lparr>nd_pc := K_Generate tis\<rparr>, srv)"
      using False st(2) by (intro comes_step) (simp add: on_gens_def del: gen_step.simps)
    ultimately show ?thesis by (rule comes_trans)
  qed
  have world: "GenerateTorrent ti (node_world n srv) = (Ret (), node_world ?n srv)"
    using st(5) by (simp add: GenerateTorrent_def node_world_def)
  obtain s3 where "comes api lt ds fresh uuid (?n\<lparr>nd_pc := K_Generate tis\<rparr>, srv) (Ret ()) (?n\<lparr>nd_pc := K_Generate [], nd_gens := s3\<rparr>, srv)"
    "GenerateTorrents (ctl lt ds fresh uuid) tis (node_world ?n srv) = (Ret (), node_world (?n\<lparr>nd_gens := s3\<rparr>) srv)"
    "gs_request s3 = None" "engine_ok (gs_engine s3)"
    using Cons.IH [of ?n] st(3,4) by auto
  with comes_trans [OF one] world show ?case
    by (intro exI [of _ s3]) (simp add: GenerateTorrents_def controller_cb_def)
qed

lemma send_world:
  "UpdateTorrentStatus (world_stub api) g ti w = (let (r, srv) = UpdateTorrentStatus api g ti (wo_srv w) in (r, w\<lparr>wo_srv := srv\<rparr>))"
  by (simp add: UpdateTorrentStatus_def world_stub_def on_srv_def split_def Let_def)

lemma download_loop:
  assumes "engine_ok (gs_engine (nd_gens n))" and "g_stub (nd_client n)"
    and "DownloadTorrents (ctl lt ds fresh uuid) (UpdateTorrentStatus (world_stub api) (nd_client n)) tis (node_world n srv) = (r, w)"
  shows "\<exists>s1 srv1 rest. comes api lt ds fresh uuid (n\<lparr>nd_pc := K_Download tis\<rparr>, srv) r (n\<lparr>nd_pc := K_Download rest, nd_gens := s1\<rparr>, srv1)
    \<and> w = node_world (n\<lparr>nd_gens := s1\<rparr>) srv1 \<and> (r = Ret () \<longrightarrow> rest = [])"
  using assms
proof (induction tis arbitrary: n srv)
  case Nil
  then have "r = Ret ()" "w = node_world n srv" by (simp_all add: DownloadTorrents_def)
  then show ?case
    by (intro exI [of _ "nd_gens n"] exI [of _ srv] exI [of _ "[]"]) (simp add: comes_refl)
next
  case (Cons ti tis)
  let ?s = "nd_gens n"
  obtain r1 t1 where d: "DownloadAsync lt ds fresh (ri_id ti) (ri_link ti) (gs_engine ?s) = (r1, t1)" by fastforce
  let ?s1 = "?s\<lparr>gs_engine := t1\<rparr>" and ?n1 = "n\<lparr>nd_gens := ?s\<lparr>gs_engine := t1\<rparr>\<rparr>"
  have jobs: "jobs_of ?s1 = jobs_of ?s" by (simp add: jobs_of_def)
  have ok1: "engine_ok t1" using engine_ok_DownloadAsync [OF Cons.prems(1)] d by (metis snd_conv)
  have gs: "gen_step lt ds (Gn_Download fresh (ri_id ti) (ri_link ti)) ?s = Some (r1, ?s1)" using d by simp
  have dw: "DownloadAsync lt ds fresh (ri_id ti) (ri_link ti) ((gs_engine ?s)\<lparr>t_jobs := jobs_of ?s\<rparr>) = (r1, t1\<lparr>t_jobs := jobs_of ?s\<rparr>)"
    by (simp add: engine_jobs(3) d)
  note loop = Cons.prems(3) [unfolded DownloadTorrents_def, simplified]
  have next_torrent: ?case
    if one: "comes api lt ds fresh uuid (n\<lparr>nd_pc := K_Download (ti # tis)\<rparr>, srv) (Ret ()) (?n1\<lparr>nd_pc := K_Download tis\<rparr>, srv1)"
      and w1: "DownloadTorrent lt ds fresh (UpdateTorrentStatus (world_stub api) (nd_client n)) ti (node_world n srv) = (Ret (), node_world ?n1 srv1)"
    for srv1
  proof -
    have "DownloadTorrents (ctl lt ds fresh uuid) (UpdateTorrentStatus (world_stub api) (nd_client ?n1)) tis (node_world ?n1 srv1) = (r, w)"
      using loop w1 by (simp add: DownloadTorrents_def controller_cb_def)
    with Cons.IH [of ?n1 srv1] ok1 Cons.prems(2) obtain s2 srv2 rest where
      "comes api lt ds fresh uuid (?n1\<lparr>nd_pc := K_Download tis\<rparr>, srv1) r (?n1\<lparr>nd_pc := K_Download rest, nd_gens := s2\<rparr>, srv2)"
      "w = node_world (?n1\<lparr>nd_gens := s2\<rparr>) srv2" "r = Ret () \<longrightarrow> rest = []" by auto
    with comes_trans [OF one] show ?thesis by (intro exI [of _ s2] exI [of _ srv2] exI [of _ rest]) simp
  qed
  have stop: ?case
    if "r1 \<noteq> Ret ()" "\<And>msg. r1 \<noteq> Throw (Runtime_Error msg)"
  proof -
    have "comes api lt ds fresh uuid (n\<lparr>nd_pc := K_Download (ti # tis)\<rparr>, srv) r1 (n\<lparr>nd_pc := K_Download tis, nd_gens := ?s1\<rparr>, srv)"
      using that gs by (intro comes_step) (simp add: on_gens_def del: gen_step.simps split: outcome.split exn.split)
    moreover have "r = r1" "w = node_world ?n1 srv"
      using that loop dw jobs
      by (auto simp: controller_cb_def DownloadTorrent_def node_world_def split: outcome.splits exn.splits)
    ultimately show ?thesis using that(1) by (intro exI [of _ ?s1] exI [of _ srv] exI [of _ tis]) simp
  qed
  show ?case
  proof (cases "r1 = Ret ()")
    case True
    show ?thesis
    proof (rule next_torrent)
      show "comes api lt ds fresh uuid (n\<lparr>nd_pc := K_Download (ti # tis)\<rparr>, srv) (Ret ()) (?n1\<lparr>nd_pc := K_Download tis\<rparr>, srv)"
        using True gs by (intro comes_step) (simp add: on_gens_def del: gen_step.simps)
      show "DownloadTorrent lt ds fresh (UpdateTorrentStatus (world_stub api) (nd_client n)) ti (node_world n srv) = (Ret (), node_world ?n1 srv)"
        using True dw jobs by (simp add: DownloadTorrent_def node_world_def)
    qed
  next
    case False
    show ?thesis
    proof (cases "\<exists>msg. r1 = Throw (Runtime_Error msg)")
      case True
      obtain srv1 where sent: "UpdateTorrentStatus api (nd_client n) ti srv = (Ret (), srv1)"
        using Cons.prems(2) by (simp add: UpdateTorrentStatus_def)
      show ?thesis
      proof (rule next_torrent)
        have "comes api lt ds fresh uuid (n\<lparr>nd_pc := K_Download (ti # tis)\<rparr>, srv) (Ret ()) (?n1\<lparr>nd_pc := K_Caught ti tis\<rparr>, srv)"
          using True gs by (intro comes_step) (auto simp: on_gens_def simp del: gen_step.simps)
        moreover have "comes api lt ds fresh uuid (?n1\<lparr>nd_pc := K_Caught ti tis\<rparr>, srv) (Ret ()) (?n1\<lparr>nd_pc := K_Download tis\<rparr>, srv1)"
          using sent by (intro comes_step) (simp add: send_def)
        ultimately show "comes api lt ds fresh uuid (n\<lparr>nd_pc := K_Download (ti # tis)\<rparr>, srv) (Ret ()) (?n1\<lparr>nd_pc := K_Download tis\<rparr>, srv1)"
          by (rule comes_trans)
        show "DownloadTorrent lt ds fresh (UpdateTorrentStatus (world_stub api) (nd_client n)) ti (node_world n srv) = (Ret (), node_world ?n1 srv1)"
          using True dw jobs sent by (auto simp: DownloadTorrent_def node_world_def send_world)
      qed
    qed (use stop False in blast)
  qed
qed

lemma report_loop:
  assumes "engine_ok (gs_engine (nd_gens n))" and "g_stub (nd_client n)"
  shows "\<exists>s1 srv1. comes api lt ds fresh uuid (n\<lparr>nd_pc := K_Report tis\<rparr>, srv) (Ret ()) (n\<lparr>nd_pc := K_Report [], nd_gens := s1\<rparr>, srv1)
    \<and> for_each (\<lambda>ti w. and_then (UpdateTorrentInfo ti w) (UpdateTorrentStatus (world_stub api) (nd_client n))) tis (node_world n srv)
        = (Ret (), node_world (n\<lparr>nd_gens := s1\<rparr>) srv1)"
  using assms
proof (induction tis arbitrary: n srv)
  case Nil
  then show ?case
    by (intro exI [of _ "nd_gens n"] exI [of _ srv]) (simp add: comes_refl)
next
  case (Cons ti tis)
  let ?s = "nd_gens n" and ?u = "ri_id ti"
  obtain p m where g: "Get ?u (t_mgr (gs_engine ?s)) = (p, m)" by fastforce
  obtain i where i: "deref m p = Some i"
    using reg.load_get [OF engine_okD(2) [OF Cons.prems(1)], of ?u] g by auto
  let ?t = "(gs_engine ?s)\<lparr>t_mgr := m\<rparr>"
  let ?c = "\<lambda>k this. n\<lparr>nd_pc := K_Copy tis, nd_gens := ?s\<lparr>gs_engine := ?t, gs_copy := Some (p, k, this)\<rparr>\<rparr>"
  let ?s1 = "?s\<lparr>gs_engine := ?t, gs_copy := Some (p, length copy_calls, i)\<rparr>"
  let ?n1 = "n\<lparr>nd_gens := ?s1\<rparr>"
  obtain srv1 where sent: "UpdateTorrentStatus api (nd_client n) (ConvertTorrentInfo i) srv = (Ret (), srv1)"
    using Cons.prems(2) by (simp add: UpdateTorrentStatus_def)
  have "comes api lt ds fresh uuid (n\<lparr>nd_pc := K_Report (ti # tis)\<rparr>, srv) (Ret ()) (?c 0 (TorrentInfo ''''), srv)"
    using g by (intro comes_step) (simp add: on_gens_def)
  moreover have "comes api lt ds fresh uuid (?c 0 (TorrentInfo ''''), srv) (Ret ()) (?n1\<lparr>nd_pc := K_Send (ConvertTorrentInfo i) tis\<rparr>, srv)"
    unfolding comes_def
    by (rule exI [of _ 6])
      (simp add: eval_nat_numeral on_gens_def i copy_calls_def ConvertTorrentInfo_def TorrentInfo_def)
  moreover have "comes api lt ds fresh uuid (?n1\<lparr>nd_pc := K_Send (ConvertTorrentInfo i) tis\<rparr>, srv) (Ret ()) (?n1\<lparr>nd_pc := K_Report tis\<rparr>, srv1)"
    using sent by (intro comes_step) (simp add: send_def)
  ultimately have one: "comes api lt ds fresh uuid (n\<lparr>nd_pc := K_Report (ti # tis)\<rparr>, srv) (Ret ()) (?n1\<lparr>nd_pc := K_Report tis\<rparr>, srv1)"
    by (blast intro: comes_trans)
  have "engine_ok ?t" using engine_ok_Get [OF Cons.prems(1), of ?u] g by simp
  then obtain s2 srv2 where
    two: "comes api lt ds fresh uuid (?n1\<lparr>nd_pc := K_Report tis\<rparr>, srv1) (Ret ()) (?n1\<lparr>nd_pc := K_Report [], nd_gens := s2\<rparr>, srv2)"
    "for_each (\<lambda>ti w. and_then (UpdateTorrentInfo ti w) (UpdateTorrentStatus (world_stub api) (nd_client n))) tis (node_world ?n1 srv1)
        = (Ret (), node_world (?n1\<lparr>nd_gens := s2\<rparr>) srv2)"
    using Cons.IH [of ?n1 srv1] Cons.prems(2) by auto
  have "UpdateTorrentInfo ti (node_world n srv) = (Ret (ConvertTorrentInfo i), node_world ?n1 srv)"
    using g i by (simp add: UpdateTorrentInfo_def node_world_def GetTorrentInfo_def jobs_of_def)
  moreover have "UpdateTorrentStatus (world_stub api) (nd_client n) (ConvertTorrentInfo i) (node_world ?n1 srv) = (Ret (), node_world ?n1 srv1)"
    using sent by (simp add: send_world node_world_def)
  ultimately show ?case using two comes_trans [OF one two(1)]
    by (intro exI [of _ s2] exI [of _ srv2]) simp
qed

lemma world_stub_sel [simp]:
  "sa_Handshake (world_stub api) = (\<lambda>u. on_srv (sa_Handshake api u))"
  "sa_GetTaskList (world_stub api) = (\<lambda>di. on_srv (sa_GetTaskList api di))"
  "sa_GetInfoForGenerateTorrents (world_stub api) = (\<lambda>di. on_srv (sa_GetInfoForGenerateTorrents api di))"
  "sa_GetTorrentsForDownload (world_stub api) = (\<lambda>di. on_srv (sa_GetTorrentsForDownload api di))"
  "sa_GetTorrentsForUpdateStatus (world_stub api) = (\<lambda>di. on_srv (sa_GetTorrentsForUpdateStatus api di))"
  "sa_UpdateTorrentStatus (world_stub api) = (\<lambda>di ti. on_srv (sa_UpdateTorrentStatus api di ti))"
  by (simp_all add: world_stub_def)

text \<open>What a task does when its thread is not interrupted: the result, the client and the world it ends with.\<close>

definition does ::
  "'srv stub_api \<Rightarrow> ('en, 'ti) lt_api \<Rightarrow> dirs \<Rightarrow> string \<Rightarrow> string result \<Rightarrow> ('en, 'ti) node \<times> 'srv
   \<Rightarrow> unit outcome \<times> (grpc \<times> ('ti, 'srv) world) \<Rightarrow> bool" where
  "does api lt ds fresh uuid s res \<longleftrightarrow> (\<exists>r n1 srv1. comes api lt ds fresh uuid s r (n1, srv1)
     \<and> res = (r, (nd_client n1, node_world n1 srv1)) \<and> (r = Ret () \<longrightarrow> nd_pc n1 = K_Idle))"

lemma doesI:
  assumes "comes api lt ds fresh uuid s r (n1, srv1)" and "res = (r, (nd_client n1, node_world n1 srv1))"
    and "r = Ret () \<Longrightarrow> nd_pc n1 = K_Idle"
  shows "does api lt ds fresh uuid s res"
  using assms unfolding does_def by blast

lemma null_stub:
  assumes "nd_pc n = K_Begin x" and "x \<in> {GENERATE_MAGENT, DOWNLOAD_TORRENT, UPDATE_TORRENT_STATUS}" and "\<not> g_stub (nd_client n)"
  shows "does api lt ds fresh uuid (n, srv) (run_body (world_stub api) (ctl lt ds fresh uuid) x (nd_client n, node_world n srv))"
proof (rule doesI)
  show "comes api lt ds fresh uuid (n, srv) Undefined (n, srv)" using assms by (intro comes_step) (auto simp: ask_def)
  show "run_body (world_stub api) (ctl lt ds fresh uuid) x (nd_client n, node_world n srv) = (Undefined, (nd_client n, node_world n srv))"
    using assms by (auto simp: CreateTorrentTask_def DownloadTorrentTask_def UpdateTorrentTask_def)
qed simp

lemma whole_task_does:
  assumes "nd_pc n = K_Begin x"
    and "client_step api lt ds fresh uuid (K_Begin x) (n, srv) = Some (whole_task api (ctl lt ds fresh uuid) x (n, srv))"
    and "run_body (world_stub api) (ctl lt ds fresh uuid) x (nd_client n, node_world n srv) = (r, (g, w))"
    and "wo_torrent w = wo_torrent (node_world n srv)" and "wo_rpc w = wo_rpc (node_world n srv)"
  shows "does api lt ds fresh uuid (n, srv) (r, (g, w))"
proof (rule doesI)
  let ?n = "n\<lparr>nd_client := g, nd_pc := K_Idle\<rparr>"
  show "comes api lt ds fresh uuid (n, srv) r (?n, wo_srv w)"
    using assms(1,2,3) by (intro comes_step) (simp add: whole_task_def)
  show "(r, (g, w)) = (r, (nd_client ?n, node_world ?n (wo_srv w)))"
    using assms(4,5) by (cases w) (simp add: node_world_def)
qed simp

lemma list_asked:
  assumes "nd_pc n = K_Begin x" and "client_step api lt ds fresh uuid (K_Begin x) (n, srv) = Some (ask call pc (n, srv))"
    and "g_stub (nd_client n)" and "call (GetClientInfo (nd_client n)) srv = ((tis, ok), srv1)"
  shows "comes api lt ds fresh uuid (n, srv) (Ret ()) (n\<lparr>nd_pc := pc tis\<rparr>, srv1)"
  using assms by (intro comes_step) (simp add: ask_def)

lemma list_answered:
  assumes "call (GetClientInfo g) srv = ((tis, ok), srv1)"
  shows "on_srv (call (GetClientInfo g)) (node_world n srv) = ((tis, ok), node_world n srv1)"
  using assms by (simp add: on_srv_def node_world_def)

lemma generate_alone:
  assumes "nd_pc n = K_Begin GENERATE_MAGENT" and "gs_request (nd_gens n) = None" and "engine_ok (gs_engine (nd_gens n))"
    and "g_stub (nd_client n)"
  shows "does api lt ds fresh uuid (n, srv)
    (run_body (world_stub api) (ctl lt ds fresh uuid) GENERATE_MAGENT (nd_client n, node_world n srv))"
proof -
  let ?call = "sa_GetInfoForGenerateTorrents api"
  obtain tis ok srv1 where call: "?call (GetClientInfo (nd_client n)) srv = ((tis, ok), srv1)" by (metis surj_pair)
  obtain s1 where s1: "comes api lt ds fresh uuid (n\<lparr>nd_pc := K_Generate tis\<rparr>, srv1) (Ret ()) (n\<lparr>nd_pc := K_Generate [], nd_gens := s1\<rparr>, srv1)"
    "GenerateTorrents (ctl lt ds fresh uuid) tis (node_world n srv1) = (Ret (), node_world (n\<lparr>nd_gens := s1\<rparr>) srv1)"
    using generate_loop [OF assms(2,3), of api lt ds fresh uuid tis srv1] by blast
  let ?n = "n\<lparr>nd_client := AddTaskAfterTimeOut UPDATE_TORRENT_STATUS 30 (nd_client n), nd_pc := K_Idle, nd_gens := s1\<rparr>"
  have "comes api lt ds fresh uuid (n, srv) (Ret ()) (n\<lparr>nd_pc := K_Generate tis\<rparr>, srv1)"
    using list_asked [of n _ _ _ _ _ _ srv ?call K_Generate, OF assms(1) _ assms(4) call] by simp
  moreover have "comes api lt ds fresh uuid (n\<lparr>nd_pc := K_Generate [], nd_gens := s1\<rparr>, srv1) (Ret ()) (?n, srv1)"
    by (rule comes_step) simp
  ultimately have "comes api lt ds fresh uuid (n, srv) (Ret ()) (?n, srv1)" using s1(1) by (blast intro: comes_trans)
  then show ?thesis
  proof (rule doesI)
    show "run_body (world_stub api) (ctl lt ds fresh uuid) GENERATE_MAGENT (nd_client n, node_world n srv)
        = (Ret (), (nd_client ?n, node_world ?n srv1))"
      using assms(4) s1(2) list_answered [of ?call, OF call, of n] by (simp add: CreateTorrentTask_def node_world_def)
  qed simp
qed

lemma download_alone:
  assumes "nd_pc n = K_Begin DOWNLOAD_TORRENT" and "engine_ok (gs_engine (nd_gens n))" and "g_stub (nd_client n)"
  shows "does api lt ds fresh uuid (n, srv)
    (run_body (world_stub api) (ctl lt ds fresh uuid) DOWNLOAD_TORRENT (nd_client n, node_world n srv))"
proof -
  let ?call = "sa_GetTorrentsForDownload api" and ?S = "world_stub api" and ?cb = "ctl lt ds fresh uuid"
  obtain tis ok srv1 where call: "?call (GetClientInfo (nd_client n)) srv = ((tis, ok), srv1)" by (metis surj_pair)
  obtain r w where dl: "DownloadTorrents ?cb (UpdateTorrentStatus ?S (nd_client n)) tis (node_world n srv1) = (r, w)" by fastforce
  obtain s1 srv2 rest where s1: "comes api lt ds fresh uuid (n\<lparr>nd_pc := K_Download tis\<rparr>, srv1) r (n\<lparr>nd_pc := K_Download rest, nd_gens := s1\<rparr>, srv2)"
    "w = node_world (n\<lparr>nd_gens := s1\<rparr>) srv2" "r = Ret () \<longrightarrow> rest = []"
    using download_loop [OF assms(2,3) dl] by blast
  have "comes api lt ds fresh uuid (n, srv) (Ret ()) (n\<lparr>nd_pc := K_Download tis\<rparr>, srv1)"
    using list_asked [of n _ _ _ _ _ _ srv ?call K_Download, OF assms(1) _ assms(3) call] by simp
  then have loop: "comes api lt ds fresh uuid (n, srv) r (n\<lparr>nd_pc := K_Download rest, nd_gens := s1\<rparr>, srv2)"
    using s1(1) by (rule comes_trans)
  have body: "run_body ?S ?cb DOWNLOAD_TORRENT (nd_client n, node_world n srv) =
      (case r of Ret _ \<Rightarrow> (Ret (), (AddTask UPDATE_TORRENT_STATUS (nd_client n), w)) | _ \<Rightarrow> (r, (nd_client n, w)))"
    using assms(3) dl list_answered [of ?call, OF call, of n] by (cases r) (auto simp: DownloadTorrentTask_def)
  show ?thesis
  proof (cases "r = Ret ()")
    case True
    let ?n = "n\<lparr>nd_client := AddTask UPDATE_TORRENT_STATUS (nd_client n), nd_pc := K_Idle, nd_gens := s1\<rparr>"
    have "comes api lt ds fresh uuid (n\<lparr>nd_pc := K_Download [], nd_gens := s1\<rparr>, srv2) (Ret ()) (?n, srv2)"
      by (rule comes_step) simp
    with loop s1(3) True have "comes api lt ds fresh uuid (n, srv) (Ret ()) (?n, srv2)" by (auto intro: comes_trans)
    then show ?thesis unfolding body True s1(2) by (rule doesI) (simp_all add: node_world_def)
  next
    case False
    then have stopped: "run_body ?S ?cb DOWNLOAD_TORRENT (nd_client n, node_world n srv) = (r, (nd_client n, w))"
      using body by (cases r) simp_all
    show ?thesis unfolding stopped s1(2) by (rule doesI [OF loop]) (simp_all add: False node_world_def)
  qed
qed

lemma report_alone:
  assumes "nd_pc n = K_Begin UPDATE_TORRENT_STATUS" and "engine_ok (gs_engine (nd_gens n))" and "g_stub (nd_client n)"
  shows "does api lt ds fresh uuid (n, srv)
    (run_body (world_stub api) (ctl lt ds fresh uuid) UPDATE_TORRENT_STATUS (nd_client n, node_world n srv))"
proof -
  let ?call = "sa_GetTorrentsForUpdateStatus api"
  obtain tis ok srv1 where call: "?call (GetClientInfo (nd_client n)) srv = ((tis, ok), srv1)" by (metis surj_pair)
  obtain s1 srv2 where s1: "comes api lt ds fresh uuid (n\<lparr>nd_pc := K_Report tis\<rparr>, srv1) (Ret ()) (n\<lparr>nd_pc := K_Report [], nd_gens := s1\<rparr>, srv2)"
    "for_each (\<lambda>ti w. and_then (UpdateTorrentInfo ti w) (UpdateTorrentStatus (world_stub api) (nd_client n))) tis (node_world n srv1)
      = (Ret (), node_world (n\<lparr>nd_gens := s1\<rparr>) srv2)"
    using report_loop [OF assms(2,3), of api lt ds fresh uuid tis srv1] by blast
  let ?n = "n\<lparr>nd_pc := K_Idle, nd_gens := s1\<rparr>"
  have "comes api lt ds fresh uuid (n, srv) (Ret ()) (n\<lparr>nd_pc := K_Report tis\<rparr>, srv1)"
    using list_asked [of n _ _ _ _ _ _ srv ?call K_Report, OF assms(1) _ assms(3) call] by simp
  moreover have "comes api lt ds fresh uuid (n\<lparr>nd_pc := K_Report [], nd_gens := s1\<rparr>, srv2) (Ret ()) (?n, srv2)"
    by (rule comes_step) simp
  ultimately have "comes api lt ds fresh uuid (n, srv) (Ret ()) (?n, srv2)" using s1(1) by (blast intro: comes_trans)
  then show ?thesis
  proof (rule doesI)
    show "run_body (world_stub api) (ctl lt ds fresh uuid) UPDATE_TORRENT_STATUS (nd_client n, node_world n srv)
        = (Ret (), (nd_client ?n, node_world ?n srv2))"
      using assms(3) s1(2) list_answered [of ?call, OF call, of n]
      by (simp add: UpdateTorrentTask_def controller_cb_def node_world_def)
  qed simp
qed

text \<open>C18: the step-by-step model of the client's tasks is the same program as the tasks themselves. A task whose
  thread is not interrupted does, after finitely many steps, what the function of the task does: it ends in the
  same way, with the same client, engine, generating threads and server, whether it returns, lets an exception
  out or uses a null stub.\<close>

theorem task_alone:
  fixes api :: "'srv stub_api" and n :: "('en, 'ti) node"
  assumes "nd_pc n = K_Begin x" and "gs_request (nd_gens n) = None" and "engine_ok (gs_engine (nd_gens n))"
    and "run_body (world_stub api) (controller_cb lt ds fresh uuid) x (nd_client n, node_world n srv) = (r, (g, w))"
  shows "\<exists>m n1 srv1. client_iter api lt ds fresh uuid m (n, srv) = Some (r, (n1, srv1))
    \<and> nd_client n1 = g \<and> node_world n1 srv1 = w \<and> (r = Ret () \<longrightarrow> nd_pc n1 = K_Idle)"
proof -
  note pc = assms(1) and body = assms(4)
  have "does api lt ds fresh uuid (n, srv) (r, (g, w))"
  proof (cases x)
    case GENERATE_MAGENT
    note pc1 = pc [unfolded GENERATE_MAGENT]
    show ?thesis unfolding body [symmetric] unfolding GENERATE_MAGENT
      using null_stub [OF pc1] generate_alone [OF pc1 assms(2,3)] by (cases "g_stub (nd_client n)") simp_all
  next
    case DOWNLOAD_TORRENT
    note pc1 = pc [unfolded DOWNLOAD_TORRENT]
    show ?thesis unfolding body [symmetric] unfolding DOWNLOAD_TORRENT
      using null_stub [OF pc1] download_alone [OF pc1 assms(3)] by (cases "g_stub (nd_client n)") simp_all
  next
    case UPDATE_TORRENT_STATUS
    note pc1 = pc [unfolded UPDATE_TORRENT_STATUS]
    show ?thesis unfolding body [symmetric] unfolding UPDATE_TORRENT_STATUS
      using null_stub [OF pc1] report_alone [OF pc1 assms(3)] by (cases "g_stub (nd_client n)") simp_all
  next
    case UPDATE_TASK_LIST
    then show ?thesis using body
      by (intro whole_task_does [OF pc _ body]) (auto simp: UpdateTasksTask_def on_srv_def Let_def split_def split: if_splits)
  next
    case MAKE_HANDSHAKE
    then show ?thesis using body
      by (intro whole_task_does [OF pc _ body]) (auto simp: HandshakeTask_def on_srv_def Let_def split_def split: if_splits outcome.splits)
  next
    case (Unknown_Task k)
    then show ?thesis using body by (intro whole_task_does [OF pc _ body]) auto
  qed
  then show ?thesis unfolding does_def comes_def by blast
qed

definition demo_node :: "client_pc \<Rightarrow> (string, string) node" where
  "demo_node pc = \<lparr>nd_client = demo_client, nd_pc = pc, nd_gens = one_gen path_fs\<rparr>"

lemma demo_node_sel [simp]:
  "nd_client (demo_node pc) = demo_client" "nd_pc (demo_node pc) = pc" "nd_gens (demo_node pc) = one_gen path_fs"
  by (simp_all add: demo_node_def)

theorem task_alone_witness:
  "\<exists>m n1 srv1. client_iter ask_stub path_lt demo_dirs ''f'' (Inr ''u'') m (demo_node (K_Begin UPDATE_TORRENT_STATUS), []) = Some (Ret (), (n1, srv1))
    \<and> nd_pc n1 = K_Idle \<and> map (\<lambda>r. (ri_id r, ri_status r)) srv1 = [(''a'', RS_NONE)]"
proof -
  let ?n = "demo_node (K_Begin UPDATE_TORRENT_STATUS)" and ?t = "(demo_engine\<lparr>t_fs := path_fs\<rparr>)\<lparr>t_jobs := [(''a'', ''/x/prj'')]\<rparr>"
  let ?w = "node_world ?n []"
  have stub: "g_stub demo_client" by (simp add: demo_client_def client_eval demo_stub_def demo_cb_def)
  have t: "wo_torrent ?w = Some ?t" by (simp add: node_world_def jobs_of_def)
  have ok: "engine_ok (demo_engine\<lparr>t_fs := path_fs\<rparr>)" using demo_engine_fs path_fs_ok by blast
  then have "engine_ok ?t" by simp
  moreover have "sa_GetTorrentsForUpdateStatus ask_stub (GetClientInfo demo_client) (wo_srv ?w) = (([one_torrent ''a''], True), [])"
    by (simp add: ask_stub_def node_world_def)
  ultimately obtain w where w: "run_body (world_stub ask_stub) (controller_cb path_lt demo_dirs ''f'' (Inr ''u'')) UPDATE_TORRENT_STATUS (demo_client, ?w)
      = (Ret (), (demo_client, w))" "wo_srv w = [report_of ?t ''a'']"
    using report_all [OF stub t, of ask_stub] by (fastforce simp: ask_stub_def demo_stub_def one_torrent_def)
  then obtain m n1 srv1 where n1: "client_iter ask_stub path_lt demo_dirs ''f'' (Inr ''u'') m (?n, []) = Some (Ret (), (n1, srv1))"
    "node_world n1 srv1 = w" "nd_pc n1 = K_Idle"
    using task_alone [of ?n UPDATE_TORRENT_STATUS ask_stub path_lt demo_dirs "''f''" "Inr ''u''" "[]" "Ret ()" demo_client w] ok by auto
  have "srv1 = [report_of ?t ''a'']" using w(2) n1(2) by (auto simp: node_world_def)
  moreover have "report_of ?t ''a'' = ConvertTorrentInfo (TorrentInfo ''a'')" by (simp add: report_of_def)
  ultimately have "map (\<lambda>r. (ri_id r, ri_status r)) srv1 = [(''a'', RS_NONE)]" by (simp add: ConvertTorrentInfo_def)
  with n1(1,3) show ?thesis by (intro exI [of _ m] exI [of _ n1] exI [of _ srv1] conjI)
qed

end
