(* ===== verification/Client_Node.thy ===== *)
theory Client_Node
  imports Client_Tasks
begin

text \<open>
  One daemon against a server: the client's thread (theory \<open>Client_Tasks\<close>), the thread of its deferred tasks, the
  generating threads and the alert thread, with any interleaving. The \<^theory_text>\<open>locale\<close> \<open>fleet_server\<close> is what the
  client relies on of a server; inside it the state of a daemon is proved to stay well-formed, and its client's
  thread to never end the process.
\<close>

section \<open>What every object of the registry satisfies\<close>

definition infos_all :: "(tinfo \<Rightarrow> bool) \<Rightarrow> mgr \<Rightarrow> bool" where
  "infos_all P s \<longleftrightarrow> (\<forall>p < m_next s. \<exists>i. m_heap s p = Some i \<and> P i)"

lemma infos_all_init [simp]: "infos_all P mgr_init"
  by (simp add: infos_all_def mgr_init_def)

lemma infos_all_Get: "infos_all P s \<Longrightarrow> P (TorrentInfo k) \<Longrightarrow> infos_all P (snd (Get k s))"
  by (auto simp: infos_all_def Get_def make_shared_def less_Suc_eq split: option.splits)

lemma infos_all_Create:
  assumes "infos_all P s" and "P (TorrentInfo k)"
  shows "infos_all P (snd (Create k s))"
proof -
  have "TorrentInfo_copy (TorrentInfo k) = TorrentInfo k" by (simp add: TorrentInfo_def)
  with assms show ?thesis
    by (auto simp: infos_all_def Create_def Create_info_def make_shared_def Let_def less_Suc_eq split: option.splits)
qed

lemma infos_all_modify:
  "infos_all P s \<Longrightarrow> (\<And>i. P i \<Longrightarrow> P (f i)) \<Longrightarrow> infos_all P (modify p f s)"
  by (auto simp: infos_all_def modify_def)

text \<open>The links: the empty one and those libtorrent makes.\<close>

definition magnets :: "('en, 'ti) lt_api \<Rightarrow> string set" where
  "magnets lt = insert '''' (range (lt_magnet lt))"

abbreviation linked :: "('en, 'ti) lt_api \<Rightarrow> mgr \<Rightarrow> bool" where
  "linked lt \<equiv> infos_all (\<lambda>i. tLink i \<in> magnets lt)"

named_theorems link_intros

lemma magnets [simp]: "'''' \<in> magnets lt" "lt_magnet lt x \<in> magnets lt"
  by (simp_all add: magnets_def)

lemma linked_Get [link_intros]: "linked lt s \<Longrightarrow> linked lt (snd (Get k s))"
  by (rule infos_all_Get) (simp_all add: TorrentInfo_def)

lemma linked_Create [link_intros]: "linked lt s \<Longrightarrow> linked lt (snd (Create k s))"
  by (rule infos_all_Create) (simp_all add: TorrentInfo_def)

lemma linked_setters [link_intros]:
  "linked lt s \<Longrightarrow> linked lt (modify p (SetStatus st) s)" "linked lt s \<Longrightarrow> linked lt (modify p (SetProgress n) s)"
  "linked lt s \<Longrightarrow> linked lt (modify p (SetPathToProject d) s)" "linked lt s \<Longrightarrow> linked lt (modify p (SetPathToTFile d) s)"
  "linked lt s \<Longrightarrow> l \<in> magnets lt \<Longrightarrow> linked lt (modify p (SetLink l) s)"
  by (auto elim: infos_all_modify)

lemma linked_UpdateStatus [link_intros]: "linked lt s \<Longrightarrow> linked lt (UpdateStatus k st pr s)"
  by (simp add: UpdateStatus_def Let_def split_def link_intros)

lemma linked_alert: "linked lt (t_mgr t) \<Longrightarrow> linked lt (t_mgr (snd (handle_alert lt ds a t)))"
proof (cases a)
  case (State_Update sts)
  have "linked lt (t_mgr (update_progress st u))" if "linked lt (t_mgr u)" for st and u :: "'b engine"
    using that by (simp add: update_progress_def Let_def split_def link_intros)
  then have "linked lt (t_mgr (fold update_progress sts u))" if "linked lt (t_mgr u)" for u :: "'b engine"
    using that by (induction sts arbitrary: u) simp_all
  with State_Update show "linked lt (t_mgr t) \<Longrightarrow> ?thesis" by simp
qed (auto simp: Let_def split_def status_if_known_def intro!: link_intros split: option.split sum.split)

lemma linked_alerts: "linked lt (t_mgr t) \<Longrightarrow> linked lt (t_mgr (snd (handle_alerts lt ds as t)))"
proof (induction lt ds "as" t rule: handle_alerts.induct)
  case (2 lt ds a "as" t)
  obtain r t1 where step: "handle_alert lt ds a t = (r, t1)" by fastforce
  with linked_alert [OF 2(2), of ds a] have "linked lt (t_mgr t1)" by simp
  with 2 step show ?case by (cases r) auto
qed simp

lemma linked_DownloadAsync:
  "linked lt (t_mgr t) \<Longrightarrow> link \<in> magnets lt \<Longrightarrow> linked lt (t_mgr (snd (DownloadAsync lt ds fresh uuid link t)))"
  by (auto simp: DownloadAsync_def Let_def AddTorrent_def split_def intro!: link_intros split: sum.split)

lemma linked_job_step:
  assumes "linked lt (t_mgr t)" and "job_step lt ds fresh uuid path (pc, t) = (r, (pc1, t1))"
  shows "linked lt (t_mgr t1)"
proof (cases pc)
  case (J_Hash p files pieces failed)
  with assms show ?thesis by (cases pieces) (auto split: if_splits option.splits)
next
  case (J_Add x)
  with assms show ?thesis by (auto simp: AddTorrent_def Let_def split: prod.splits outcome.splits if_splits)
next
  case J_Create
  with assms linked_Create [OF assms(1), of uuid] show ?thesis by (auto split: prod.splits)
next
  case (U_Get st pr k)
  with assms linked_Get [OF assms(1), of uuid] show ?thesis by (auto split: prod.splits)
qed (use assms in \<open>auto simp: Let_def intro!: link_intros split: prod.splits sum.splits if_splits\<close>)

section \<open>The session of the engine\<close>

lemma session_alerts: "t_session (snd (handle_alerts lt ds as t)) = t_session t"
proof (induction lt ds "as" t rule: handle_alerts.induct)
  case (2 lt ds a "as" t)
  have "t_session (fold update_progress sts u) = t_session u" for sts and u :: "'b engine"
    by (induction sts arbitrary: u) (simp_all add: update_progress_def Let_def split_def)
  then have "t_session (snd (handle_alert lt ds a t)) = t_session t"
    by (cases a) (auto simp: Let_def split_def log_call_def status_if_known_def split: option.split sum.split)
  with 2 show ?case by (cases "handle_alert lt ds a t") (auto split: outcome.splits)
qed simp

lemma session_gen_step:
  assumes "gen_step lt ds l s = Some (r, s1)"
  shows "t_session (gs_engine s1) = t_session (gs_engine s)"
proof -
  have asked: "t_session (snd (status_of u t)) = t_session t" for u and t :: "'b engine"
    by (simp add: status_of_def Let_def split_def)
  show ?thesis
  proof (cases l)
    case (Gn_Run m fresh)
    have job: "t_session t1 = t_session t" if "job_step lt ds fresh uuid path (pc, t) = (w, (pc1, t1))" for uuid path pc t w pc1 t1
    proof (cases pc)
      case (J_Hash p files pieces failed)
      with that show ?thesis by (cases pieces) (auto split: if_splits option.splits)
    qed (use that in \<open>auto simp: AddTorrent_def Let_def split: prod.splits sum.splits outcome.splits if_splits\<close>)
    obtain u p pc where th: "gs_threads s ! m = (u, p, pc)" by (cases "gs_threads s ! m") auto
    obtain w pc1 t1 where st: "job_step lt ds fresh u p (pc, gs_engine s) = (w, (pc1, t1))" by (metis surj_pair)
    from assms Gn_Run th st job [OF st] show ?thesis by (auto split: if_splits)
  next
    case (Gn_Alerts "as")
    with assms session_alerts [of lt ds "as" "gs_engine s"] show ?thesis by (auto split: prod.splits)
  next
    case (Gn_Download fresh uuid link)
    obtain w t1 where d: "DownloadAsync lt ds fresh uuid link (gs_engine s) = (w, t1)" by fastforce
    have "t_session (snd (DownloadAsync lt ds fresh uuid link t)) = t_session t" for t
      by (simp add: DownloadAsync_def Let_def AddTorrent_def split_def split: sum.split)
    from this [of "gs_engine s"] assms Gn_Download d show ?thesis by auto
  next
    case (Gn_Ask u p)
    obtain st t1 where "status_of u (gs_engine s) = (st, t1)" by fastforce
    with asked [of u "gs_engine s"] assms Gn_Ask show ?thesis by (auto split: if_splits)
  next
    case Gn_Start
    with assms obtain u p where rq: "gs_request s = Some (u, p)" by (auto split: option.splits)
    obtain st t1 where "status_of u (gs_engine s) = (st, t1)" by fastforce
    with asked [of u "gs_engine s"] assms Gn_Start rq show ?thesis by auto
  next
    case (Gn_Get u)
    obtain p m where "Get u (t_mgr (gs_engine s)) = (p, m)" by fastforce
    with assms Gn_Get show ?thesis by auto
  next
    case Gn_Field
    with assms show ?thesis by (auto split: option.splits if_splits)
  qed
qed

fun no_ask :: "'ti glab \<Rightarrow> bool" where
  "no_ask (Gn_Ask uuid path) \<longleftrightarrow> False"
| "no_ask Gn_Start \<longleftrightarrow> False"
| "no_ask _ \<longleftrightarrow> True"

lemma gen_step_request:
  assumes "gen_step lt ds l s = Some (r, s1)" and "no_ask l"
  shows "gs_request s1 = gs_request s"
  using assms by (cases l) (auto simp: Let_def split: prod.splits option.splits if_splits)

section \<open>Steps of a daemon\<close>

datatype 'ti nlab =
    N_Client string
  | N_Handler int
  | N_Job nat string
  | N_Alerts "'ti alert list"

fun nlab_ok :: "'ti nlab \<Rightarrow> bool" where
  "nlab_ok (N_Alerts as) \<longleftrightarrow> list_all alert_ok as"
| "nlab_ok _ \<longleftrightarrow> True"

definition node_gens ::
  "('en, 'ti) lt_api \<Rightarrow> dirs \<Rightarrow> 'ti glab \<Rightarrow> ('en, 'ti) node \<times> 'srv \<Rightarrow> (unit outcome \<times> (('en, 'ti) node \<times> 'srv)) option" where
  "node_gens lt ds l = (\<lambda>(n, srv).
     case gen_step lt ds l (nd_gens n) of
       None \<Rightarrow> None
     | Some (r, s1) \<Rightarrow> Some (r, (n\<lparr>nd_gens := s1\<rparr>, srv)))"

fun node_step ::
  "(task_type option deferred list \<Rightarrow> task_type option deferred list) \<Rightarrow> 'srv stub_api \<Rightarrow> ('en, 'ti) lt_api \<Rightarrow> dirs \<Rightarrow> string result
   \<Rightarrow> 'ti nlab \<Rightarrow> ('en, 'ti) node \<times> 'srv \<Rightarrow> (unit outcome \<times> (('en, 'ti) node \<times> 'srv)) option" where
  "node_step srt api lt ds uuid (N_Client fresh) (n, srv) = client_step api lt ds fresh uuid (nd_pc n) (n, srv)"
| "node_step srt api lt ds uuid (N_Handler curWait) (n, srv) =
     (case Handler_step srt curWait (g_worker (nd_client n)) of
        None \<Rightarrow> None
      | Some t \<Rightarrow> Some (Ret (), (n\<lparr>nd_client := (nd_client n)\<lparr>g_worker := t\<rparr>\<rparr>, srv)))"
| "node_step srt api lt ds uuid (N_Job m fresh) s = node_gens lt ds (Gn_Run m fresh) s"
| "node_step srt api lt ds uuid (N_Alerts as) s = node_gens lt ds (Gn_Alerts as) s"

text \<open>A daemon when its process has started (\<^verbatim>\<open>Controller::Start\<close>), on the files it finds.\<close>

definition node_new :: "fsys \<Rightarrow> string \<Rightarrow> string \<Rightarrow> ('en, 'ti) node" where
  "node_new fs domainName port =
     (case Controller_Start fs domainName port () of
        (g, w) \<Rightarrow> \<lparr>nd_client = g, nd_pc = K_Idle,
          nd_gens = \<lparr>gs_engine = the (wo_torrent w), gs_threads = [], gs_request = None, gs_copy = None\<rparr>\<rparr>)"

section \<open>Well-formed daemons\<close>

text \<open>What is reported, and what is offered for download: a status that has a name, a percentage, a link
  libtorrent made.\<close>

definition report_ok :: "('en, 'ti) lt_api \<Rightarrow> rpc_tinfo \<Rightarrow> bool" where
  "report_ok lt r \<longleftrightarrow> (\<forall>n. ri_status r \<noteq> RS_Other n) \<and> ri_workProgress r \<le> 100 \<and> ri_link r \<in> magnets lt"

definition offer_ok :: "('en, 'ti) lt_api \<Rightarrow> rpc_tinfo \<Rightarrow> bool" where
  "offer_ok lt r \<longleftrightarrow> report_ok lt r \<and> ri_status r = RS_GENERATED \<and> ri_link r \<noteq> ''''"

definition copying :: "('en, 'ti) lt_api \<Rightarrow> ('en, 'ti) gens \<Rightarrow> bool" where
  "copying lt s \<longleftrightarrow> (\<exists>p m this v. gs_copy s = Some (p, m, this) \<and> m < length copy_calls
     \<and> owned (t_mgr (gs_engine s)) v p \<and> tLink this \<in> magnets lt \<and> tProgress this \<le> 100)"

fun pc_ok :: "('en, 'ti) lt_api \<Rightarrow> client_pc \<Rightarrow> ('en, 'ti) gens \<Rightarrow> bool" where
  "pc_ok lt (K_Starts tis) s \<longleftrightarrow> gs_request s \<noteq> None"
| "pc_ok lt (K_Download tis) s \<longleftrightarrow> gs_request s = None \<and> list_all (offer_ok lt) tis"
| "pc_ok lt (K_Caught ti tis) s \<longleftrightarrow> False"
| "pc_ok lt (K_Copy tis) s \<longleftrightarrow> gs_request s = None \<and> copying lt s"
| "pc_ok lt (K_Send r tis) s \<longleftrightarrow> gs_request s = None \<and> report_ok lt r"
| "pc_ok lt _ s \<longleftrightarrow> gs_request s = None"

definition engine_linked :: "('en, 'ti) lt_api \<Rightarrow> ('en, 'ti) gens \<Rightarrow> bool" where
  "engine_linked lt s \<longleftrightarrow> gens_ok lt s \<and> linked lt (t_mgr (gs_engine s)) \<and> t_session (gs_engine s)"

text \<open>The client holds the credentials of \<open>u\<close>, or has not shaken hands yet and does nothing else.\<close>

definition registered :: "string \<Rightarrow> grpc \<Rightarrow> client_pc \<Rightarrow> bool" where
  "registered u g pc \<longleftrightarrow> di_uuid (g_info g) = u
     \<or> (pc = K_Idle \<or> pc = K_Begin MAKE_HANDSHAKE) \<and> (\<forall>x \<in># waiting (g_worker g). x = MAKE_HANDSHAKE)"

fun begun_task :: "client_pc \<Rightarrow> task_type multiset" where
  "begun_task (K_Begin x) = {#x#}"
| "begun_task _ = {#}"

text \<open>The tasks a daemon is still to run.\<close>

definition todo :: "('en, 'ti) node \<Rightarrow> task_type multiset" where
  "todo n = waiting (g_worker (nd_client n)) + begun_task (nd_pc n)"

definition client_ok :: "string \<Rightarrow> ('en, 'ti) node \<Rightarrow> bool" where
  "client_ok u n \<longleftrightarrow> g_stub (nd_client n) \<and> g_isRun (nd_client n) \<and> wt_ok (g_worker (nd_client n))
     \<and> registered u (nd_client n) (nd_pc n) \<and> (\<exists>x \<in># todo n. carrier x)"

definition node_ok :: "('en, 'ti) lt_api \<Rightarrow> string \<Rightarrow> ('en, 'ti) node \<Rightarrow> bool" where
  "node_ok lt u n \<longleftrightarrow> engine_linked lt (nd_gens n) \<and> pc_ok lt (nd_pc n) (nd_gens n) \<and> client_ok u n"

lemma waiting_AddTask:
  "waiting (g_worker (AddTask t g)) = waiting (g_worker g) + (case CreateTask t of None \<Rightarrow> {#} | Some x \<Rightarrow> {#x#})"
  "waiting (g_worker (AddTaskAfterTimeOut t d g)) = waiting (g_worker g) + (case CreateTask t of None \<Rightarrow> {#} | Some x \<Rightarrow> {#x#})"
  by (cases t; simp add: AddTask_def AddTaskAfterTimeOut_def EnqueueTask_def EnqueueTaskAfterTimeOut_def Push_def
      add_deferred_def waiting_def pending_def)+

lemma waiting_fold:
  "waiting (g_worker (fold AddTask ts g)) = waiting (g_worker g) + mset (filter (\<lambda>x. CreateTask x \<noteq> None) ts)"
proof (induction ts arbitrary: g)
  case (Cons t ts)
  then show ?case by (cases t) (simp_all add: waiting_AddTask)
qed simp

lemma node_new_ok:
  assumes "fs_ok fs"
  shows "node_ok lt u (node_new fs domainName port)"
proof -
  have "waiting (Run wt_init :: task_type wt) = {#}"
    by (simp add: waiting_def pending_def Run_def wt_IsRunning_def wt_init_def mq_empty_def handler_init_def)
  then have c: "waiting (g_worker (Client_Start (grpc_new domainName port))) = {#MAKE_HANDSHAKE#}"
    by (simp add: Client_Start_def IsRun_def grpc_new_def waiting_AddTask)
  have "wt_ok (g_worker (Client_Start (grpc_new domainName port)))" "g_stub (Client_Start (grpc_new domainName port))"
    "g_isRun (Client_Start (grpc_new domainName port))"
    by (simp_all add: Client_Start_def IsRun_def grpc_new_def wt_ok_AddTask wt_ok_other)
  then have "client_ok u (node_new fs domainName port)"
    using c by (simp add: client_ok_def node_new_def Controller_Start_def registered_def todo_def carrier_def)
  moreover have "engine_ok (Torrent_Start (engine_init fs))" using engine_ok_start_stop(1) engine_ok_init assms by blast
  then have "engine_linked lt (nd_gens (node_new fs domainName port :: ('a, 'b) node))"
    by (simp add: engine_linked_def node_new_def Controller_Start_def gens_ok_def Torrent_Start_def engine_init_def IsWork_def)
  ultimately show ?thesis by (simp add: node_ok_def node_new_def Controller_Start_def)
qed

section \<open>Steps of the engine's threads\<close>

fun glab_linked :: "('en, 'ti) lt_api \<Rightarrow> 'ti glab \<Rightarrow> bool" where
  "glab_linked lt (Gn_Download fresh uuid link) \<longleftrightarrow> link \<in> magnets lt"
| "glab_linked lt _ \<longleftrightarrow> True"

lemma linked_gen_step:
  assumes "linked lt (t_mgr (gs_engine s))" and "glab_linked lt l" and "gen_step lt ds l s = Some (r, s1)"
  shows "linked lt (t_mgr (gs_engine s1))"
proof -
  have asked: "linked lt (t_mgr (snd (status_of u (gs_engine s))))" for u
    using linked_Get [OF assms(1), of u] by (simp add: status_of_def Let_def split_def)
  show ?thesis
  proof (cases l)
    case (Gn_Ask u p)
    obtain st t1 where "status_of u (gs_engine s) = (st, t1)" by fastforce
    with asked [of u] assms(3) Gn_Ask show ?thesis by (auto split: if_splits)
  next
    case Gn_Start
    with assms(3) obtain u p where rq: "gs_request s = Some (u, p)" by (auto split: option.splits)
    obtain st t1 where "status_of u (gs_engine s) = (st, t1)" by fastforce
    with asked [of u] assms(3) Gn_Start rq show ?thesis by auto
  next
    case (Gn_Run m fresh)
    obtain u p pc where th: "gs_threads s ! m = (u, p, pc)" by (cases "gs_threads s ! m") auto
    obtain w pc1 t1 where st: "job_step lt ds fresh u p (pc, gs_engine s) = (w, (pc1, t1))" by (metis surj_pair)
    from assms(3) Gn_Run th st linked_job_step [OF assms(1) st] show ?thesis by (auto split: if_splits)
  next
    case (Gn_Alerts "as")
    with assms(3) linked_alerts [OF assms(1), of ds "as"] show ?thesis by (auto split: prod.splits)
  next
    case (Gn_Download fresh u link)
    with assms(2,3) linked_DownloadAsync [OF assms(1), of link ds fresh u] show ?thesis by (auto split: prod.splits)
  next
    case (Gn_Get u)
    with assms(3) linked_Get [OF assms(1), of u] show ?thesis by (auto split: prod.splits)
  next
    case Gn_Field
    with assms(1,3) show ?thesis by (auto split: option.splits if_splits)
  qed
qed

lemma engine_linked_step:
  assumes "engine_linked lt s" and "lt_pieces_ok lt" and "glab_ok l" and "glab_linked lt l" and "gen_step lt ds l s = Some (r, s1)"
  shows "engine_linked lt s1"
  using assms(1) gen_step_ok [OF _ assms(2,3,5)] linked_gen_step [OF _ assms(4,5)] session_gen_step [OF assms(5)]
  by (simp add: engine_linked_def)

lemma copying_step:
  assumes "copying lt s" and "gens_ok lt s" and "lt_pieces_ok lt" and "no_get l" and "l \<noteq> Gn_Field"
    and "gen_step lt ds l s = Some (r, s1)"
  shows "copying lt s1"
  using assms(1) gen_step_copy [OF assms(6,4,5)] gen_step_grows [OF assms(2,3,6)]
  by (auto simp: copying_def grows_def) blast

text \<open>A step of another thread leaves the client's thread its counter.\<close>

lemma pc_ok_step:
  assumes "pc_ok lt pc s" and "engine_linked lt s" and "lt_pieces_ok lt" and "no_ask l" and "no_get l" and "l \<noteq> Gn_Field"
    and "gen_step lt ds l s = Some (r, s1)"
  shows "pc_ok lt pc s1"
  using assms(1,2) gen_step_request [OF assms(7,4)] copying_step [OF _ _ assms(3,5-7)]
  by (cases pc) (auto simp: engine_linked_def)

lemma client_ok_gens [simp]: "client_ok u (n\<lparr>nd_gens := s\<rparr>) = client_ok u n"
  by (simp add: client_ok_def todo_def)

lemma node_gens_ok:
  assumes "node_ok lt u n" and "lt_pieces_ok lt" and "no_ask l" and "no_get l" and "l \<noteq> Gn_Field" and "glab_ok l" and "glab_linked lt l"
    and "node_gens lt ds l (n, srv) = Some (r, (n1, srv1))"
  shows "node_ok lt u n1" and "srv1 = srv" and "nd_client n1 = nd_client n" and "nd_pc n1 = nd_pc n"
proof -
  obtain s1 where s1: "gen_step lt ds l (nd_gens n) = Some (r, s1)" "n1 = n\<lparr>nd_gens := s1\<rparr>" "srv1 = srv"
    using assms(8) by (auto simp: node_gens_def split: option.splits)
  have n: "engine_linked lt (nd_gens n)" "pc_ok lt (nd_pc n) (nd_gens n)" "client_ok u n" using assms(1) by (simp_all add: node_ok_def)
  from engine_linked_step [OF n(1) assms(2,6,7) s1(1)] pc_ok_step [OF n(2,1) assms(2-5) s1(1)] n(3) s1(2)
  show "node_ok lt u n1" by (simp add: node_ok_def)
qed (use assms(8) in \<open>auto simp: node_gens_def split: option.splits\<close>)

section \<open>Steps of the client's two threads\<close>

lemma registered_waiting:
  assumes "registered u g pc" and "g_info g1 = g_info g" and "pc1 = K_Idle \<or> pc1 = pc"
    and "\<And>x. x \<in># waiting (g_worker g1) \<Longrightarrow> x \<in># waiting (g_worker g) \<or> di_uuid (g_info g) = u"
  shows "registered u g1 pc1"
  using assms by (auto simp: registered_def)

lemma handler_ok:
  assumes "client_ok u n" and "qsort_spec srt" and "Handler_step srt curWait (g_worker (nd_client n)) = Some t"
  shows "client_ok u (n\<lparr>nd_client := (nd_client n)\<lparr>g_worker := t\<rparr>\<rparr>)" and "waiting t = waiting (g_worker (nd_client n))"
proof -
  have ok: "wt_ok (g_worker (nd_client n))" using assms(1) by (simp add: client_ok_def)
  show w: "waiting t = waiting (g_worker (nd_client n))" by (rule waiting_Handler_step [OF ok assms(2,3)])
  from w Handler_step_ok [OF ok assms(3)] assms(1)
  show "client_ok u (n\<lparr>nd_client := (nd_client n)\<lparr>g_worker := t\<rparr>\<rparr>)" by (simp add: client_ok_def registered_def todo_def)
qed

text \<open>The worker takes a step: what it begins was waiting.\<close>

lemma idle_ok:
  assumes "client_ok u n" and "nd_pc n = K_Idle" and "Work_step (g_worker (nd_client n)) = Some t"
    and "n1 = n\<lparr>nd_client := (nd_client n)\<lparr>g_worker := t\<rparr>,
           nd_pc := (if w_log t = w_log (g_worker (nd_client n)) then K_Idle else K_Begin (last (w_log t)))\<rparr>"
  shows "client_ok u n1" and "todo n1 = todo n"
proof -
  have ok: "wt_ok (g_worker (nd_client n))" using assms(1) by (simp add: client_ok_def)
  have w: "waiting (g_worker (nd_client n)) = waiting t + begun_task (nd_pc n1)"
    using waiting_Work_step [OF ok assms(3)] assms(4) by (simp split: if_splits)
  then show todo: "todo n1 = todo n" by (simp add: todo_def assms(2,4))
  have "registered u (nd_client n1) (nd_pc n1)"
  proof (cases "di_uuid (g_info (nd_client n)) = u")
    case False
    with assms(1) have "\<forall>x \<in># waiting t + begun_task (nd_pc n1). x = MAKE_HANDSHAKE"
      by (simp add: client_ok_def registered_def flip: w)
    then show ?thesis by (auto simp: registered_def assms(4) split: if_splits)
  qed (simp add: registered_def assms(4))
  with todo assms(1) Work_step_ok [OF ok assms(3)] show "client_ok u n1" by (simp add: client_ok_def assms(4))
qed

section \<open>Steps of a task\<close>

lemma registered_uuid:
  "client_ok u n \<Longrightarrow> nd_pc n \<noteq> K_Idle \<Longrightarrow> nd_pc n \<noteq> K_Begin MAKE_HANDSHAKE \<Longrightarrow> di_uuid (g_info (nd_client n)) = u"
  by (simp add: client_ok_def registered_def)

lemma client_ok_next:
  assumes "client_ok u n" and "nd_pc n \<noteq> K_Idle" and "nd_pc n \<noteq> K_Begin MAKE_HANDSHAKE"
    and "\<forall>x \<in># begun_task (nd_pc n). \<not> carrier x" and "waiting (g_worker (nd_client n)) \<subseteq># waiting (g_worker g)"
    and "g_info g = g_info (nd_client n)" and "g_stub g" and "g_isRun g" and "wt_ok (g_worker g)"
  shows "client_ok u (n\<lparr>nd_client := g, nd_pc := pc, nd_gens := s\<rparr>)"
proof -
  have "\<exists>x \<in># waiting (g_worker (nd_client n)). carrier x" using assms(1,4) by (auto simp: client_ok_def todo_def)
  then have "\<exists>x \<in># waiting (g_worker g). carrier x" using assms(5) by (meson mset_subset_eqD)
  then show ?thesis using assms(6-9) registered_uuid [OF assms(1-3)] by (auto simp: client_ok_def registered_def todo_def)
qed

lemma client_ok_pc:
  assumes "client_ok u n" and "nd_pc n \<noteq> K_Idle" and "nd_pc n \<noteq> K_Begin MAKE_HANDSHAKE"
    and "\<forall>x \<in># begun_task (nd_pc n). \<not> carrier x"
  shows "client_ok u (n\<lparr>nd_pc := pc\<rparr>)" and "client_ok u (n\<lparr>nd_pc := pc, nd_gens := s\<rparr>)"
proof -
  have c: "g_stub (nd_client n)" "g_isRun (nd_client n)" "wt_ok (g_worker (nd_client n))" using assms(1) by (simp_all add: client_ok_def)
  have "n\<lparr>nd_client := nd_client n, nd_pc := pc, nd_gens := s\<rparr> = n\<lparr>nd_pc := pc, nd_gens := s\<rparr>" for s by simp
  with client_ok_next [OF assms, where g = "nd_client n" and pc = pc] c
  have all: "client_ok u (n\<lparr>nd_pc := pc, nd_gens := s\<rparr>)" for s by simp
  then show "client_ok u (n\<lparr>nd_pc := pc, nd_gens := s\<rparr>)" .
  have "n\<lparr>nd_pc := pc, nd_gens := nd_gens n\<rparr> = n\<lparr>nd_pc := pc\<rparr>" by simp
  with all [of "nd_gens n"] show "client_ok u (n\<lparr>nd_pc := pc\<rparr>)" by simp
qed

lemma report_ok_Convert: "tLink this \<in> magnets lt \<Longrightarrow> tProgress this \<le> 100 \<Longrightarrow> report_ok lt (ConvertTorrentInfo this)"
  by (cases "tStatus this") (simp_all add: report_ok_def ConvertTorrentInfo_def)

lemma DownloadAsync_returns:
  "t_session t \<Longrightarrow> lt_parse_magnet lt link = Inr x \<Longrightarrow> fst (DownloadAsync lt ds fresh u link t) = Ret ()"
  by (simp add: DownloadAsync_def Let_def AddTorrent_def split_def)

lemma copy_step:
  assumes "copying lt s" and "engine_linked lt s"
  obtains s1 p m this where "gen_step lt ds Gn_Field s = Some (Ret (), s1)" and "gs_copy s1 = Some (p, Suc m, this)"
    and "tLink this \<in> magnets lt" and "tProgress this \<le> 100" and "Suc m \<noteq> length copy_calls \<Longrightarrow> copying lt s1"
proof -
  obtain p m c v where c: "gs_copy s = Some (p, m, c)" "m < length copy_calls" "owned (t_mgr (gs_engine s)) v p"
    "tLink c \<in> magnets lt" "tProgress c \<le> 100" using assms(1) unfolding copying_def by blast
  have "infos_all (\<lambda>i. tLink i \<in> magnets lt) (t_mgr (gs_engine s))" "mgr_sane (t_mgr (gs_engine s))"
    using assms(2) engine_okD(1) by (auto simp: engine_linked_def gens_ok_def)
  then obtain i where i: "m_heap (t_mgr (gs_engine s)) p = Some i" "tLink i \<in> magnets lt" "tProgress i \<le> 100"
    using c(3) by (auto simp: infos_all_def owned_def mgr_sane_def)
  let ?c = "(copy_calls ! m) i c" and ?s = "s\<lparr>gs_copy := Some (p, Suc m, (copy_calls ! m) i c)\<rparr>"
  have new: "tLink ?c \<in> magnets lt" "tProgress ?c \<le> 100"
    using copy_call_cases(1) [OF c(2), of i c] c(4,5) i(2,3) by auto
  have "gen_step lt ds Gn_Field s = Some (Ret (), ?s)" using c(1,2) i(1) by (simp add: deref_def)
  moreover have "copying lt ?s" if "Suc m \<noteq> length copy_calls" using that c(2,3) new by (auto simp: copying_def)
  ultimately show thesis using that [of ?s p m ?c] new by simp
qed

section \<open>What a client relies on\<close>

text \<open>
  Every call keeps the server's promises; a handshake answers with the credentials of the daemon that asked;
  only torrents that were generated are handed out; and the reports the daemon makes are accepted. Of
  libtorrent: the pieces hashed are those of the files, and a link it made can be parsed.
\<close>

definition lt_sound :: "('en, 'ti) lt_api \<Rightarrow> bool" where
  "lt_sound lt \<longleftrightarrow> lt_pieces_ok lt \<and> (\<forall>x. \<exists>content. lt_parse_magnet lt (lt_magnet lt x) = Inr content)"

locale fleet_server =
  fixes api :: "'srv stub_api" and I :: "'srv \<Rightarrow> bool" and lt :: "('en, 'ti) lt_api"
  assumes shakes: "I s \<Longrightarrow> I (snd (sa_Handshake api v s)) \<and> di_uuid (snd (fst (sa_Handshake api v s))) = v"
    and gives_tasks: "I s \<Longrightarrow> I (snd (sa_GetTaskList api di s))"
    and gives_generate: "I s \<Longrightarrow> I (snd (sa_GetInfoForGenerateTorrents api di s))"
    and gives_status: "I s \<Longrightarrow> I (snd (sa_GetTorrentsForUpdateStatus api di s))"
    and gives_downloads: "I s \<Longrightarrow> I (snd (sa_GetTorrentsForDownload api di s))
      \<and> list_all (offer_ok lt) (fst (fst (sa_GetTorrentsForDownload api di s)))"
    and takes_report: "I s \<Longrightarrow> report_ok lt ti \<Longrightarrow> I (snd (sa_UpdateTorrentStatus api di ti s))"
begin

lemma begin_ok:
  fixes n :: "('en, 'ti) node"
  assumes "node_ok lt u n" and "I srv" and "nd_pc n = K_Begin x"
  shows "\<exists>n1 srv1. client_step api lt ds fresh (Inr u) (K_Begin x) (n, srv) = Some (Ret (), (n1, srv1)) \<and> node_ok lt u n1 \<and> I srv1"
proof -
  have n: "engine_linked lt (nd_gens n)" "gs_request (nd_gens n) = None" "client_ok u n"
    using assms(1,3) by (simp_all add: node_ok_def)
  have g: "g_stub (nd_client n)" "g_isRun (nd_client n)" "wt_ok (g_worker (nd_client n))" using n(3) by (simp_all add: client_ok_def)
  have asked: ?thesis
    if "client_step api lt ds fresh (Inr u) (K_Begin x) (n, srv) = Some (ask call pc (n, srv))" "\<not> carrier x" "x \<noteq> MAKE_HANDSHAKE"
      "I (snd (call (GetClientInfo (nd_client n)) srv))" "\<And>s. gs_request s = None \<Longrightarrow> pc_ok lt (pc (fst (fst (call (GetClientInfo (nd_client n)) srv)))) s"
    for call pc
  proof -
    let ?r = "call (GetClientInfo (nd_client n)) srv"
    have "ask call pc (n, srv) = (Ret (), (n\<lparr>nd_pc := pc (fst (fst ?r))\<rparr>, snd ?r))"
      using g(1) by (simp add: ask_def split_def Let_def)
    moreover have "client_ok u (n\<lparr>nd_pc := pc (fst (fst ?r))\<rparr>)"
      by (rule client_ok_pc(1) [OF n(3)]) (use assms(3) that(2,3) in simp_all)
    ultimately show ?thesis using that(1,4,5) n(1,2) by (simp add: node_ok_def)
  qed
  have whole: ?thesis
    if "client_step api lt ds fresh (Inr u) (K_Begin x) (n, srv) = Some (whole_task api (controller_cb lt ds fresh (Inr u)) x (n, srv))"
      "run_body (world_stub api) (controller_cb lt ds fresh (Inr u)) x (nd_client n, node_world n srv) = (Ret (), (g, w))"
      "client_ok u (n\<lparr>nd_client := g, nd_pc := K_Idle\<rparr>)" "I (wo_srv w)" for g w
    using that n(1,2) by (simp add: whole_task_def node_ok_def)
  show ?thesis
  proof (cases x)
    case GENERATE_MAGENT
    then show ?thesis using gives_generate [OF assms(2)]
      by (intro asked [of "sa_GetInfoForGenerateTorrents api" K_Generate]) (simp_all add: carrier_def)
  next
    case DOWNLOAD_TORRENT
    then show ?thesis using gives_downloads [OF assms(2)]
      by (intro asked [of "sa_GetTorrentsForDownload api" K_Download]) (simp_all add: carrier_def)
  next
    case UPDATE_TORRENT_STATUS
    then show ?thesis using gives_status [OF assms(2)]
      by (intro asked [of "sa_GetTorrentsForUpdateStatus api" K_Report]) (simp_all add: carrier_def)
  next
    case UPDATE_TASK_LIST
    obtain ts ok srv1 where r: "sa_GetTaskList api (GetClientInfo (nd_client n)) srv = ((ts, ok), srv1)" by (metis surj_pair)
    let ?g = "fold AddTask ts (nd_client n)"
    let ?g1 = "AddTaskAfterTimeOut UPDATE_TASK_LIST (update_delay ?g) ?g"
    have "di_uuid (g_info (nd_client n)) = u" using registered_uuid [OF n(3)] assms(3) UPDATE_TASK_LIST by simp
    then have "client_ok u (n\<lparr>nd_client := ?g1, nd_pc := K_Idle\<rparr>)"
      using g by (simp add: client_ok_def registered_def todo_def wt_ok_AddTask waiting_AddTask carrier_def)
    moreover have "I srv1" using gives_tasks [OF assms(2), of "GetClientInfo (nd_client n)"] r by simp
    ultimately show ?thesis using UPDATE_TASK_LIST g r
      by (intro whole [of ?g1 "(node_world n srv)\<lparr>wo_srv := srv1\<rparr>"])
        (simp_all add: UpdateTasksTask_def IsRun_def on_srv_def node_world_def Let_def)
  next
    case MAKE_HANDSHAKE
    obtain ok di srv1 where r: "sa_Handshake api u srv = ((ok, di), srv1)" by (metis surj_pair)
    have srv1: "I srv1" "di_uuid di = u" using shakes [OF assms(2), of u] r by simp_all
    define g1 where "g1 = (if \<not> ok \<or> di_authStatus di \<noteq> Auth_OK then AddTaskAfterTimeOut MAKE_HANDSHAKE (update_delay (nd_client n)) (nd_client n)
      else AddTask UPDATE_TASK_LIST ((nd_client n)\<lparr>g_info := di\<rparr>))"
    have "client_ok u (n\<lparr>nd_client := g1, nd_pc := K_Idle\<rparr>)"
      using g srv1(2) n(3) by (auto simp: g1_def client_ok_def registered_def todo_def wt_ok_AddTask waiting_AddTask carrier_def)
    with r srv1(1) g(1) MAKE_HANDSHAKE show ?thesis
      by (intro whole [of g1 "(node_world n srv)\<lparr>wo_srv := srv1\<rparr>"])
        (simp_all add: HandshakeTask_def GetClientUUID_def controller_cb_def on_srv_def node_world_def g1_def)
  next
    case (Unknown_Task k)
    have "n\<lparr>nd_client := nd_client n, nd_pc := K_Idle\<rparr> = n\<lparr>nd_pc := K_Idle\<rparr>" by simp
    with client_ok_pc(1) [OF n(3), of K_Idle] assms(3) Unknown_Task have "client_ok u (n\<lparr>nd_client := nd_client n, nd_pc := K_Idle\<rparr>)"
      by (simp add: carrier_def)
    with assms(2) Unknown_Task show ?thesis
      by (intro whole [of "nd_client n" "node_world n srv"]) (simp_all add: node_world_def)
  qed
qed

text \<open>A step of a task on the engine that leaves a well-formed counter behind.\<close>

lemma gens_ok_next:
  fixes n :: "('en, 'ti) node"
  assumes lt: "lt_pieces_ok lt" and "node_ok lt u n" and "nd_pc n \<noteq> K_Idle" and "begun_task (nd_pc n) = {#}" and "glab_ok l" and "glab_linked lt l"
    and "gen_step lt ds l (nd_gens n) = Some (r, s1)" and "after r s1 = (Ret (), pc)" and "engine_linked lt s1 \<Longrightarrow> pc_ok lt pc s1"
  shows "\<exists>n1. on_gens lt ds l after (n, srv) = Some (Ret (), (n1, srv)) \<and> node_ok lt u n1"
proof -
  have n: "engine_linked lt (nd_gens n)" "client_ok u n" using assms(2) by (simp_all add: node_ok_def)
  have "nd_pc n \<noteq> K_Begin MAKE_HANDSHAKE" using assms(4) by auto
  then have "client_ok u (n\<lparr>nd_pc := pc, nd_gens := s1\<rparr>)" using client_ok_pc(2) [OF n(2) assms(3)] assms(4) by simp
  moreover have "engine_linked lt s1" by (rule engine_linked_step [OF n(1) lt assms(5-7)])
  ultimately show ?thesis using assms(7-9) by (simp add: on_gens_def node_ok_def)
qed

lemma task_ok:
  fixes n :: "('en, 'ti) node"
  assumes "node_ok lt u n" and "I srv" and "nd_pc n \<noteq> K_Idle" and "begun_task (nd_pc n) = {#}" and lt: "lt_sound lt"
  shows "\<exists>n1 srv1. client_step api lt ds fresh (Inr u) (nd_pc n) (n, srv) = Some (Ret (), (n1, srv1)) \<and> node_ok lt u n1 \<and> I srv1"
proof -
  have n: "engine_linked lt (nd_gens n)" "pc_ok lt (nd_pc n) (nd_gens n)" "client_ok u n"
    using assms(1) by (simp_all add: node_ok_def)
  have g: "g_stub (nd_client n)" "g_isRun (nd_client n)" "wt_ok (g_worker (nd_client n))" using n(3) by (simp_all add: client_ok_def)
  have D: "engine_ok (gs_engine (nd_gens n))" "t_session (gs_engine (nd_gens n))"
    using n(1) by (simp_all add: engine_linked_def gens_ok_def)
  have hs: "nd_pc n \<noteq> K_Begin MAKE_HANDSHAKE" using assms(4) by auto
  have pieces: "lt_pieces_ok lt" and parses: "\<And>x. \<exists>content. lt_parse_magnet lt (lt_magnet lt x) = Inr content"
    using lt by (simp_all add: lt_sound_def)
  note next_gens = gens_ok_next [OF pieces assms(1,3,4), where srv = srv and ds = ds]
  have ended: "client_ok u (n\<lparr>nd_client := g1, nd_pc := K_Idle\<rparr>)"
    if "g1 = AddTask UPDATE_TORRENT_STATUS (nd_client n) \<or> g1 = AddTaskAfterTimeOut UPDATE_TORRENT_STATUS 30 (nd_client n)" for g1
  proof -
    have "client_ok u (n\<lparr>nd_client := g1, nd_pc := K_Idle, nd_gens := nd_gens n\<rparr>)"
      using that g assms(4) by (intro client_ok_next [OF n(3) assms(3) hs]) (auto simp: waiting_AddTask wt_ok_AddTask)
    then show ?thesis by (simp add: client_ok_def todo_def)
  qed
  have moved: "node_ok lt u (n\<lparr>nd_pc := pc\<rparr>)" if "pc_ok lt pc (nd_gens n)" for pc
    using client_ok_pc(1) [OF n(3) assms(3) hs, of pc] assms(4) n(1) that by (simp add: node_ok_def)
  have via: ?thesis
    if "client_step api lt ds fresh (Inr u) (nd_pc n) (n, srv) = on_gens lt ds l after (n, srv)" "gen_step lt ds l (nd_gens n) = Some (r, sn)"
      "after r sn = (Ret (), pc)" "engine_linked lt sn \<Longrightarrow> pc_ok lt pc sn" "glab_ok l" "glab_linked lt l" for l after r sn pc
    using next_gens [of l r sn after pc, OF that(5,6,2-4)] that(1) assms(2) by auto
  show ?thesis
  proof (cases "nd_pc n")
    case (K_Generate tis)
    show ?thesis
    proof (cases tis)
      case Nil
      with K_Generate n ended assms(2) show ?thesis by (simp add: node_ok_def)
    next
      case (Cons ti rest)
      obtain st t1 where so: "status_of (ri_id ti) (gs_engine (nd_gens n)) = (st, t1)" by fastforce
      let ?s = "(nd_gens n)\<lparr>gs_engine := t1, gs_request := (if st = Some GENERATING then None else Some (ri_id ti, ri_pathToProject ti))\<rparr>"
      show ?thesis
        by (rule via [where l = "Gn_Ask (ri_id ti) (ri_pathToProject ti)" and r = "Ret ()" and sn = ?s
              and after = "\<lambda>r s1. (r, if gs_request s1 = None then K_Generate rest else K_Starts rest)"
              and pc = "if gs_request ?s = None then K_Generate rest else K_Starts rest"])
          (use K_Generate Cons n(2) so in simp_all)
    qed
  next
    case (K_Starts tis)
    with n(2) obtain uuid p where rq: "gs_request (nd_gens n) = Some (uuid, p)" by auto
    obtain st t1 where so: "status_of uuid (gs_engine (nd_gens n)) = (st, t1)" by fastforce
    let ?s = "(nd_gens n)\<lparr>gs_engine := t1, gs_request := None,
        gs_threads := gs_threads (nd_gens n) @ (if st = Some GENERATED then [] else [(uuid, p, J_Create)])\<rparr>"
    show ?thesis
      by (rule via [where l = Gn_Start and r = "Ret ()" and sn = ?s and pc = "K_Generate tis" and after = "\<lambda>r s1. (r, K_Generate tis)"])
        (use K_Starts rq so in simp_all)
  next
    case (K_Download tis)
    show ?thesis
    proof (cases tis)
      case Nil
      with K_Download n ended assms(2) show ?thesis by (simp add: node_ok_def)
    next
      case (Cons ti rest)
      then have link: "ri_link ti \<in> magnets lt" "ri_link ti \<noteq> ''''" using n(2) K_Download by (simp_all add: offer_ok_def report_ok_def)
      then obtain x where "ri_link ti = lt_magnet lt x" by (auto simp: magnets_def)
      then obtain c where "lt_parse_magnet lt (ri_link ti) = Inr c" using parses [of x] by auto
      from DownloadAsync_returns [OF D(2) this] obtain t1 where
        d: "DownloadAsync lt ds fresh (ri_id ti) (ri_link ti) (gs_engine (nd_gens n)) = (Ret (), t1)" by (metis prod.collapse)
      show ?thesis
        by (rule via [where l = "Gn_Download fresh (ri_id ti) (ri_link ti)" and r = "Ret ()" and sn = "(nd_gens n)\<lparr>gs_engine := t1\<rparr>"
              and after = "\<lambda>r s1. case r of Throw (Runtime_Error msg) \<Rightarrow> (Ret (), K_Caught ti rest) | _ \<Rightarrow> (r, K_Download rest)"
              and pc = "K_Download rest"]) (use K_Download Cons n(2) d link(1) in simp_all)
    qed
  next
    case (K_Report tis)
    show ?thesis
    proof (cases tis)
      case Nil
      with K_Report moved assms(2) n(2) show ?thesis by simp
    next
      case (Cons ti rest)
      obtain p m where get: "Get (ri_id ti) (t_mgr (gs_engine (nd_gens n))) = (p, m)" by fastforce
      have "owned m (ri_id ti) p" using owned_Get [OF engine_okD(2) [OF D(1)], of "ri_id ti"] get by simp
      then have "copying lt (s\<lparr>gs_engine := t\<lparr>t_mgr := m\<rparr>, gs_copy := Some (p, 0, TorrentInfo '''')\<rparr>)"
        for s :: "('en, 'ti) gens" and t :: "'ti engine" by (auto simp: copying_def copy_calls_def TorrentInfo_def)
      then show ?thesis
        by (intro via [where l = "Gn_Get (ri_id ti)" and r = "Ret ()" and pc = "K_Copy rest" and after = "\<lambda>r s1. (r, K_Copy rest)"
              and sn = "(nd_gens n)\<lparr>gs_engine := (gs_engine (nd_gens n))\<lparr>t_mgr := m\<rparr>, gs_copy := Some (p, 0, TorrentInfo '''')\<rparr>"])
          (use K_Report Cons n(2) get in simp_all)
    qed
  next
    case (K_Copy tis)
    with n(2) have "copying lt (nd_gens n)" by simp
    from copy_step [OF this n(1), of ds] obtain s1 p m this' where
      s1: "gen_step lt ds Gn_Field (nd_gens n) = Some (Ret (), s1)" "gs_copy s1 = Some (p, Suc m, this')"
        "tLink this' \<in> magnets lt" "tProgress this' \<le> 100" "Suc m \<noteq> length copy_calls \<Longrightarrow> copying lt s1" by blast
    have "gs_request s1 = None" using gen_step_request [OF s1(1)] n(2) K_Copy by simp
    with s1(5) report_ok_Convert [OF s1(3,4)] show ?thesis
      by (intro via [where l = Gn_Field and r = "Ret ()" and sn = s1
            and after = "\<lambda>r s1. case gs_copy s1 of
                 Some (p, n, this) \<Rightarrow> (r, if n = length copy_calls then K_Send (ConvertTorrentInfo this) tis else K_Copy tis)
               | None \<Rightarrow> (r, K_Copy tis)"
            and pc = "if Suc m = length copy_calls then K_Send (ConvertTorrentInfo this') tis else K_Copy tis"])
        (simp_all add: K_Copy s1(1,2) del: gen_step.simps)
  next
    case (K_Send r tis)
    obtain srv1 where sent: "UpdateTorrentStatus api (nd_client n) r srv = (Ret (), srv1)" "I srv1"
      using g(1) takes_report [OF assms(2), of r] n(2) K_Send by (auto simp: UpdateTorrentStatus_def)
    with K_Send moved [of "K_Report tis"] n(2) show ?thesis by (simp add: send_def)
  qed (use assms(3,4) n(2) in simp_all)
qed

text \<open>The client's thread never ends the process, and waits for nothing but its queue.\<close>

lemma client_ok_step:
  fixes n :: "('en, 'ti) node"
  assumes "node_ok lt u n" and "I srv" and lt: "lt_sound lt" and "client_step api lt ds fresh (Inr u) (nd_pc n) (n, srv) = Some (r, (n1, srv1))"
  shows "r = Ret ()" and "node_ok lt u n1" and "I srv1"
proof -
  have "r = Ret () \<and> node_ok lt u n1 \<and> I srv1"
  proof (cases "nd_pc n")
    case K_Idle
    with assms(4) obtain t where t: "Work_step (g_worker (nd_client n)) = Some t" by (auto split: option.splits)
    with idle_ok(1) [of u n t n1] K_Idle assms show ?thesis by (auto simp: node_ok_def)
  next
    case (K_Begin x)
    with begin_ok [OF assms(1,2) K_Begin, of ds fresh] assms(4) show ?thesis by auto
  next
    case (K_Starts tis)
    with task_ok [OF assms(1,2) _ _ lt, of ds fresh] assms(4) show ?thesis by auto
  qed (use task_ok [OF assms(1,2) _ _ lt, of ds fresh] assms(4) in auto)
  then show "r = Ret ()" "node_ok lt u n1" "I srv1" by simp_all
qed

lemma client_moves:
  fixes n :: "('en, 'ti) node"
  assumes "node_ok lt u n" and "I srv" and lt: "lt_sound lt" and "nd_pc n \<noteq> K_Idle"
  shows "client_step api lt ds fresh (Inr u) (nd_pc n) (n, srv) \<noteq> None"
proof (cases "begun_task (nd_pc n) = {#}")
  case True
  with task_ok [OF assms(1,2,4) _ lt] show ?thesis by fastforce
next
  case False
  then obtain x where "nd_pc n = K_Begin x" by (cases "nd_pc n") simp_all
  with begin_ok [OF assms(1,2) this] show ?thesis by fastforce
qed

lemma node_ok_step:
  fixes n :: "('en, 'ti) node"
  assumes "node_ok lt u n" and "I srv" and lt: "lt_sound lt" and "qsort_spec srt" and "nlab_ok l"
    and "node_step srt api lt ds (Inr u) l (n, srv) = Some (r, (n1, srv1))"
  shows "node_ok lt u n1" and "I srv1"
proof -
  have pieces: "lt_pieces_ok lt" using lt by (simp add: lt_sound_def)
  have "node_ok lt u n1 \<and> I srv1"
  proof (cases l)
    case (N_Client fresh)
    with client_ok_step [OF assms(1,2) lt] assms(6) show ?thesis by simp
  next
    case (N_Handler curWait)
    with assms handler_ok(1) [of u n srt curWait] show ?thesis by (auto simp: node_ok_def split: option.splits)
  next
    case (N_Job m fresh)
    with node_gens_ok(1,2) [OF assms(1) pieces, of "Gn_Run m fresh" ds srv r n1 srv1] assms(2,6) show ?thesis by simp
  next
    case (N_Alerts "as")
    with node_gens_ok(1,2) [OF assms(1) pieces, of "Gn_Alerts as" ds srv r n1 srv1] assms(2,5,6) show ?thesis by simp
  qed
  then show "node_ok lt u n1" "I srv1" by simp_all
qed

end

end
