(* ===== verification/Test_Server.thy ===== *)
theory Test_Server
  imports Grpc_Server Std_Map
begin

text \<open>
  \<^verbatim>\<open>Daemon/tests/grpc_server.cpp\<close>: the server the daemon is tried against, class \<open>ServerHandler\<close>. It tells the
  first daemon that shakes hands to generate a torrent, keeps the torrents that were generated in a queue, and
  hands each of them to another daemon. Its maps are those of theory \<open>Std_Map\<close>; \<^verbatim>\<open>std::set<string>\<close> is the
  ascending list of its elements. Every call is one step. The
  UUID the n-th request for a torrent gets is the parameter \<open>gen n\<close>. What is written to \<^verbatim>\<open>cout\<close> is left out.
\<close>

record server =
  sv_uuids :: "string list"
  sv_torrentDeque :: "rpc_tinfo list"
  sv_tasks :: "(string, task_type list) smap"
  sv_t2Download :: "(string, rpc_tinfo list) smap"
  sv_t2Update :: "(string, rpc_tinfo list) smap"
  sv_isFirst :: bool
  sv_generated :: nat

definition server_new :: server where
  "server_new = \<lparr>sv_uuids = [], sv_torrentDeque = [], sv_tasks = [], sv_t2Download = [], sv_t2Update = [],
     sv_isFirst = True, sv_generated = 0\<rparr>"

definition tinfo_message :: rpc_tinfo where
  "tinfo_message = \<lparr>ri_id = '''', ri_link = '''', ri_pathToTFile = '''', ri_status = RS_NONE, ri_workProgress = 0,
     ri_pathToProject = ''''\<rparr>"

section \<open>Lists of torrents\<close>

text \<open>The position of the first torrent with the same id.\<close>

fun FindTorrent :: "rpc_tinfo list \<Rightarrow> rpc_tinfo \<Rightarrow> nat option" where
  "FindTorrent [] info = None"
| "FindTorrent (it # rest) info = (if ri_id info = ri_id it then Some 0 else map_option Suc (FindTorrent rest info))"

definition RemoveTorrent_list :: "rpc_tinfo list \<Rightarrow> rpc_tinfo \<Rightarrow> rpc_tinfo list" where
  "RemoveTorrent_list tlist info =
     (case FindTorrent tlist info of None \<Rightarrow> tlist | Some it \<Rightarrow> take it tlist @ drop (Suc it) tlist)"

definition RemoveTorrent :: "string \<Rightarrow> rpc_tinfo \<Rightarrow> (string, rpc_tinfo list) smap \<Rightarrow> (string, rpc_tinfo list) smap" where
  "RemoveTorrent uuid info infoMap =
     (case map_find infoMap uuid of None \<Rightarrow> infoMap | Some v \<Rightarrow> map_put uuid (RemoveTorrent_list v info) infoMap)"

definition UpdateOrAddTorrent ::
  "string \<Rightarrow> rpc_tinfo \<Rightarrow> (string, rpc_tinfo list) smap \<Rightarrow> (string, rpc_tinfo list) smap" where
  "UpdateOrAddTorrent uuid info infoMap =
     (case map_find infoMap uuid of
        None \<Rightarrow> map_put uuid [info] infoMap
      | Some v \<Rightarrow>
          (case FindTorrent v info of
             Some infoVector \<Rightarrow> map_put uuid (v[infoVector := info]) infoMap
           | None \<Rightarrow> map_put uuid (v @ [info]) infoMap))"

definition Add2UpdateList :: "string \<Rightarrow> rpc_tinfo \<Rightarrow> server \<Rightarrow> server" where
  "Add2UpdateList uuid info s = s\<lparr>sv_t2Update := UpdateOrAddTorrent uuid info (sv_t2Update s)\<rparr>"

definition RemoveFromUpdateList :: "string \<Rightarrow> rpc_tinfo \<Rightarrow> server \<Rightarrow> server" where
  "RemoveFromUpdateList uuid info s = s\<lparr>sv_t2Update := RemoveTorrent uuid info (sv_t2Update s)\<rparr>"

definition Add2DownloadList :: "string \<Rightarrow> rpc_tinfo \<Rightarrow> server \<Rightarrow> server" where
  "Add2DownloadList uuid info s = s\<lparr>sv_t2Download := UpdateOrAddTorrent uuid info (sv_t2Download s)\<rparr>"

section \<open>Calls\<close>

definition Server_AddTask :: "string \<Rightarrow> task_type \<Rightarrow> server \<Rightarrow> server" where
  "Server_AddTask daemonUUID task s =
     (case map_find (sv_tasks s) daemonUUID of
        Some taskList \<Rightarrow> s\<lparr>sv_tasks := map_put daemonUUID (taskList @ [task]) (sv_tasks s)\<rparr>
      | None \<Rightarrow> s\<lparr>sv_tasks := map_put daemonUUID [task] (sv_tasks s)\<rparr>)"

definition Server_DownloadTorrent :: "string \<Rightarrow> server \<Rightarrow> server" where
  "Server_DownloadTorrent daemonId s =
     (case sv_torrentDeque s of
        [] \<Rightarrow> s
      | front # rest \<Rightarrow>
          Server_AddTask daemonId DOWNLOAD_TORRENT ((Add2DownloadList daemonId front s)\<lparr>sv_torrentDeque := rest\<rparr>))"

definition Server_Handshake :: "string \<Rightarrow> server \<Rightarrow> daemon_info \<times> server" where
  "Server_Handshake daemonUUID s =
     (let info = \<lparr>di_uuid = daemonUUID, di_authTocken = ''Some tocken'', di_authStatus = Auth_OK\<rparr>;
          s1 = s\<lparr>sv_uuids := insort_insert daemonUUID (sv_uuids s)\<rparr>
      in if sv_isFirst s1
         then (info, (Server_AddTask daemonUUID UPDATE_TORRENT_STATUS (Server_AddTask daemonUUID GENERATE_MAGENT s1))
                       \<lparr>sv_isFirst := False\<rparr>)
         else (info, Server_DownloadTorrent daemonUUID s1))"

definition Server_UpdateTorrentStatus :: "daemon_info \<Rightarrow> rpc_tinfo \<Rightarrow> server \<Rightarrow> server" where
  "Server_UpdateTorrentStatus dInfo tInfo s =
     (case ri_status tInfo of
        RS_GENERATED \<Rightarrow>
          if ri_link tInfo \<noteq> ''''
          then (let s1 = RemoveFromUpdateList (di_uuid dInfo) tInfo (s\<lparr>sv_torrentDeque := sv_torrentDeque s @ [tInfo]\<rparr>)
                in fold (\<lambda>daemonId s. if daemonId \<noteq> di_uuid dInfo then Server_DownloadTorrent daemonId s else s) (sv_uuids s1) s1)
          else s
      | RS_DOWNLOADED \<Rightarrow> RemoveFromUpdateList (di_uuid dInfo) tInfo s
      | _ \<Rightarrow> Server_AddTask (di_uuid dInfo) UPDATE_TORRENT_STATUS s)"

definition Server_GetTaskList :: "daemon_info \<Rightarrow> server \<Rightarrow> task_type list \<times> server" where
  "Server_GetTaskList dInfo s =
     (case map_find (sv_tasks s) (di_uuid dInfo) of
        Some taskList \<Rightarrow> (taskList, s\<lparr>sv_tasks := map_erase (di_uuid dInfo) (sv_tasks s)\<rparr>)
      | None \<Rightarrow> ([], s))"

text \<open>A daemon that is not known is sent an empty message.\<close>

definition Server_GetInfoForGenerateTorrents :: "(nat \<Rightarrow> string) \<Rightarrow> daemon_info \<Rightarrow> server \<Rightarrow> rpc_tinfo list \<times> server" where
  "Server_GetInfoForGenerateTorrents gen dInfo s =
     (if di_uuid dInfo \<in> set (sv_uuids s)
      then (let tInfo = tinfo_message\<lparr>ri_id := gen (sv_generated s), ri_pathToProject := ''/opt/VerAI/projects/1''\<rparr>
            in ([tInfo], Add2UpdateList (di_uuid dInfo) tInfo (s\<lparr>sv_generated := Suc (sv_generated s)\<rparr>)))
      else ([tinfo_message], s))"

definition Server_GetTorrentsForUpdateStatus :: "daemon_info \<Rightarrow> server \<Rightarrow> rpc_tinfo list \<times> server" where
  "Server_GetTorrentsForUpdateStatus dInfo s =
     (case map_find (sv_t2Update s) (di_uuid dInfo) of Some torrents \<Rightarrow> (torrents, s) | None \<Rightarrow> ([], s))"

definition Server_GetTorrentsForDownload :: "daemon_info \<Rightarrow> server \<Rightarrow> rpc_tinfo list \<times> server" where
  "Server_GetTorrentsForDownload dInfo s =
     (case map_find (sv_t2Download s) (di_uuid dInfo) of
        Some items \<Rightarrow>
          (let s1 = fold (Add2UpdateList (di_uuid dInfo)) items s
           in (items, Server_AddTask (di_uuid dInfo) UPDATE_TORRENT_STATUS
                        (s1\<lparr>sv_t2Download := map_erase (di_uuid dInfo) (sv_t2Download s1)\<rparr>)))
      | None \<Rightarrow> ([], s))"

definition test_handler :: "(nat \<Rightarrow> string) \<Rightarrow> server server_handler" where
  "test_handler gen =
     \<lparr>sh_Handshake = Server_Handshake, sh_UpdateTorrentStatus = Server_UpdateTorrentStatus,
      sh_GetTaskList = Server_GetTaskList, sh_GetInfoForGenerateTorrents = Server_GetInfoForGenerateTorrents gen,
      sh_GetTorrentsForDownload = Server_GetTorrentsForDownload,
      sh_GetTorrentsForUpdateStatus = Server_GetTorrentsForUpdateStatus\<rparr>"

section \<open>What the lists hold\<close>

definition listed :: "('k, 'v list) smap \<Rightarrow> 'k \<Rightarrow> 'v list" where
  "listed m u = (case map_find m u of None \<Rightarrow> [] | Some v \<Rightarrow> v)"

definition server_ok :: "server \<Rightarrow> bool" where
  "server_ok s \<longleftrightarrow> sorted (sv_uuids s) \<and> distinct (sv_uuids s) \<and> map_ok (sv_tasks s) \<and> map_ok (sv_t2Download s)
     \<and> map_ok (sv_t2Update s)"

lemma server_ok_new [simp, inv_intros]: "server_ok server_new"
  by (simp add: server_ok_def server_new_def)

lemma map_ok_UpdateOrAdd [inv_intros]: "map_ok m \<Longrightarrow> map_ok (UpdateOrAddTorrent u info m)"
  by (simp add: UpdateOrAddTorrent_def split: option.split)

lemma map_ok_RemoveTorrent [inv_intros]: "map_ok m \<Longrightarrow> map_ok (RemoveTorrent u info m)"
  by (simp add: RemoveTorrent_def split: option.split)

lemma list_ops_sel [simp]:
  "sv_uuids (Add2UpdateList u i s) = sv_uuids s" "sv_torrentDeque (Add2UpdateList u i s) = sv_torrentDeque s"
  "sv_tasks (Add2UpdateList u i s) = sv_tasks s" "sv_t2Download (Add2UpdateList u i s) = sv_t2Download s"
  "sv_t2Update (Add2UpdateList u i s) = UpdateOrAddTorrent u i (sv_t2Update s)"
  "sv_isFirst (Add2UpdateList u i s) = sv_isFirst s" "sv_generated (Add2UpdateList u i s) = sv_generated s"
  "sv_uuids (RemoveFromUpdateList u i s) = sv_uuids s" "sv_torrentDeque (RemoveFromUpdateList u i s) = sv_torrentDeque s"
  "sv_tasks (RemoveFromUpdateList u i s) = sv_tasks s" "sv_t2Download (RemoveFromUpdateList u i s) = sv_t2Download s"
  "sv_t2Update (RemoveFromUpdateList u i s) = RemoveTorrent u i (sv_t2Update s)"
  "sv_isFirst (RemoveFromUpdateList u i s) = sv_isFirst s"
  "sv_uuids (Add2DownloadList u i s) = sv_uuids s" "sv_torrentDeque (Add2DownloadList u i s) = sv_torrentDeque s"
  "sv_tasks (Add2DownloadList u i s) = sv_tasks s" "sv_t2Update (Add2DownloadList u i s) = sv_t2Update s"
  "sv_t2Download (Add2DownloadList u i s) = UpdateOrAddTorrent u i (sv_t2Download s)"
  by (simp_all add: Add2UpdateList_def RemoveFromUpdateList_def Add2DownloadList_def)

lemma AddTask_server_sel [simp]:
  "sv_uuids (Server_AddTask u t s) = sv_uuids s" "sv_torrentDeque (Server_AddTask u t s) = sv_torrentDeque s"
  "sv_t2Download (Server_AddTask u t s) = sv_t2Download s" "sv_t2Update (Server_AddTask u t s) = sv_t2Update s"
  "sv_isFirst (Server_AddTask u t s) = sv_isFirst s" "sv_generated (Server_AddTask u t s) = sv_generated s"
  by (simp_all add: Server_AddTask_def split: option.split)

lemma tasks_AddTask:
  assumes "map_ok (sv_tasks s)"
  shows "listed (sv_tasks (Server_AddTask u t s)) v = listed (sv_tasks s) v @ (if v = u then [t] else [])"
    and "map_ok (sv_tasks (Server_AddTask u t s))"
  using assms by (auto simp: Server_AddTask_def listed_def map_find_put split: option.split)

lemma server_ok_AddTask [inv_intros]: "server_ok s \<Longrightarrow> server_ok (Server_AddTask u t s)"
  by (simp add: server_ok_def tasks_AddTask)

lemma server_ok_DownloadTorrent [inv_intros]: "server_ok s \<Longrightarrow> server_ok (Server_DownloadTorrent u s)"
  by (auto simp: Server_DownloadTorrent_def split: list.split intro!: inv_intros)
    (simp add: server_ok_def Add2DownloadList_def map_ok_UpdateOrAdd)

lemma uuids_DownloadTorrent [simp]: "sv_uuids (Server_DownloadTorrent u s) = sv_uuids s"
  by (simp add: Server_DownloadTorrent_def split: list.split)

lemma server_ok_serve:
  "server_ok s \<Longrightarrow> server_ok (fold (\<lambda>d s. if d \<noteq> u then Server_DownloadTorrent d s else s) ds s)"
  by (induction ds arbitrary: s) (simp_all add: server_ok_DownloadTorrent)

lemma server_ok_handshake [inv_intros]: "server_ok s \<Longrightarrow> server_ok (snd (Server_Handshake u s))"
proof -
  assume "server_ok s"
  then have "server_ok (s\<lparr>sv_uuids := insort_insert u (sv_uuids s)\<rparr>)"
    by (simp add: server_ok_def sorted_insort_insert distinct_insort_insert)
  moreover have "server_ok (x\<lparr>sv_isFirst := b\<rparr>) = server_ok x" for x b by (simp add: server_ok_def)
  ultimately show ?thesis by (auto simp: Server_Handshake_def Let_def intro!: inv_intros)
qed

lemma server_ok_report [inv_intros]:
  assumes "server_ok s"
  shows "server_ok (Server_UpdateTorrentStatus di ti s)"
proof -
  have "server_ok (RemoveFromUpdateList u ti (s\<lparr>sv_torrentDeque := q\<rparr>))" "server_ok (RemoveFromUpdateList u ti s)" for u q
    using assms by (simp_all add: server_ok_def RemoveFromUpdateList_def map_ok_RemoveTorrent)
  then show ?thesis
    using assms
    by (auto simp: Server_UpdateTorrentStatus_def Let_def split: rpc_status.split intro!: inv_intros server_ok_serve)
qed

lemma updates_added [simp]:
  "sv_t2Download (fold (Add2UpdateList u) items s) = sv_t2Download s" "sv_tasks (fold (Add2UpdateList u) items s) = sv_tasks s"
  "sv_torrentDeque (fold (Add2UpdateList u) items s) = sv_torrentDeque s" "sv_uuids (fold (Add2UpdateList u) items s) = sv_uuids s"
  by (induction items arbitrary: s) simp_all

lemma server_ok_updates [inv_intros]: "server_ok s \<Longrightarrow> server_ok (fold (Add2UpdateList u) items s)"
  by (induction items arbitrary: s) (simp_all add: server_ok_def Add2UpdateList_def map_ok_UpdateOrAdd)

lemma server_ok_lists [inv_intros]:
  assumes "server_ok s"
  shows "server_ok (snd (Server_GetTaskList di s))" and "server_ok (snd (Server_GetInfoForGenerateTorrents gen di s))"
    and "server_ok (snd (Server_GetTorrentsForUpdateStatus di s))" and "server_ok (snd (Server_GetTorrentsForDownload di s))"
proof -
  show "server_ok (snd (Server_GetTaskList di s))" "server_ok (snd (Server_GetTorrentsForUpdateStatus di s))"
    using assms by (auto simp: server_ok_def Server_GetTaskList_def Server_GetTorrentsForUpdateStatus_def split: option.split)
  show "server_ok (snd (Server_GetInfoForGenerateTorrents gen di s))"
    using assms by (simp add: Server_GetInfoForGenerateTorrents_def server_ok_def Add2UpdateList_def map_ok_UpdateOrAdd Let_def)
  have "server_ok (x\<lparr>sv_t2Download := map_erase u (sv_t2Download s)\<rparr>)" if "server_ok x" for x u
    using that assms by (simp add: server_ok_def)
  then show "server_ok (snd (Server_GetTorrentsForDownload di s))"
    using assms by (auto simp: Server_GetTorrentsForDownload_def Let_def split: option.split intro!: inv_intros)
qed

section \<open>No torrent waits unannounced\<close>

text \<open>
  A daemon with torrents to download is told so: the task is in its list at the server, or the daemon has
  taken it and is among the set \<open>W\<close> of those that will ask.
\<close>

definition announced :: "string set \<Rightarrow> server \<Rightarrow> bool" where
  "announced W s \<longleftrightarrow> (\<forall>u. map_find (sv_t2Download s) u \<noteq> None \<longrightarrow> u \<in> W \<or> DOWNLOAD_TORRENT \<in> set (listed (sv_tasks s) u))"

lemma announced_new [simp]: "announced W server_new"
  by (simp add: announced_def server_new_def)

lemma announced_mono: "announced W s \<Longrightarrow> W \<subseteq> V \<Longrightarrow> announced V s"
  by (auto simp: announced_def)

lemma announced_cong:
  "sv_t2Download s1 = sv_t2Download s \<Longrightarrow> sv_tasks s1 = sv_tasks s \<Longrightarrow> announced W s1 = announced W s"
  by (simp add: announced_def)

lemma announced_AddTask [inv_intros]: "server_ok s \<Longrightarrow> announced W s \<Longrightarrow> announced W (Server_AddTask u t s)"
  by (auto simp: announced_def tasks_AddTask server_ok_def)

lemma map_find_UpdateOrAdd:
  "map_ok m \<Longrightarrow> map_find (UpdateOrAddTorrent u i m) v \<noteq> None \<longleftrightarrow> v = u \<or> map_find m v \<noteq> None"
  by (auto simp: UpdateOrAddTorrent_def map_find_put split: option.split)

lemma announced_DownloadTorrent [inv_intros]:
  assumes "server_ok s" and "announced W s"
  shows "announced W (Server_DownloadTorrent u s)"
proof (cases "sv_torrentDeque s")
  case (Cons front rest)
  let ?s = "(Add2DownloadList u front s)\<lparr>sv_torrentDeque := rest\<rparr>"
  have maps: "map_ok (sv_tasks ?s)" "map_ok (sv_t2Download s)" using assms(1) by (simp_all add: server_ok_def)
  show ?thesis
    unfolding announced_def
  proof (intro allI impI)
    fix v assume "map_find (sv_t2Download (Server_DownloadTorrent u s)) v \<noteq> None"
    then have "v = u \<or> map_find (sv_t2Download s) v \<noteq> None"
      using map_find_UpdateOrAdd [OF maps(2), of u front v] by (simp add: Server_DownloadTorrent_def Cons)
    then show "v \<in> W \<or> DOWNLOAD_TORRENT \<in> set (listed (sv_tasks (Server_DownloadTorrent u s)) v)"
      using assms(2) tasks_AddTask(1) [OF maps(1), of u DOWNLOAD_TORRENT v]
      by (auto simp: Server_DownloadTorrent_def Cons announced_def)
  qed
qed (use assms in \<open>simp add: Server_DownloadTorrent_def\<close>)

lemma announced_serve:
  "server_ok s \<Longrightarrow> announced W s \<Longrightarrow> announced W (fold (\<lambda>d s. if d \<noteq> u then Server_DownloadTorrent d s else s) ds s)"
  by (induction ds arbitrary: s) (simp_all add: server_ok_DownloadTorrent announced_DownloadTorrent)

lemma announced_handshake:
  assumes "server_ok s" and "announced W s"
  shows "announced W (snd (Server_Handshake u s))"
proof -
  let ?s = "s\<lparr>sv_uuids := insort_insert u (sv_uuids s)\<rparr>"
  have "server_ok ?s" "announced W ?s"
    using assms by (simp_all add: server_ok_def announced_def sorted_insort_insert distinct_insort_insert)
  moreover have "announced W (x\<lparr>sv_isFirst := b\<rparr>) = announced W x" for x b by (rule announced_cong) simp_all
  ultimately show ?thesis by (auto simp: Server_Handshake_def Let_def intro!: inv_intros)
qed

lemma announced_report:
  assumes "server_ok s" and "announced W s"
  shows "announced W (Server_UpdateTorrentStatus di ti s)"
proof -
  let ?u = "di_uuid di"
  have same: "announced W (RemoveFromUpdateList ?u ti (s\<lparr>sv_torrentDeque := q\<rparr>))" "announced W (RemoveFromUpdateList ?u ti s)"
    "server_ok (RemoveFromUpdateList ?u ti (s\<lparr>sv_torrentDeque := q\<rparr>))" for q
    using assms by (simp_all add: announced_def server_ok_def map_ok_RemoveTorrent)
  then show ?thesis
    using assms
    by (auto simp: Server_UpdateTorrentStatus_def Let_def split: rpc_status.split intro!: inv_intros announced_serve)
qed

lemma tasks_taken:
  assumes "server_ok s" and "Server_GetTaskList di s = (ts, s1)"
  shows "ts = listed (sv_tasks s) (di_uuid di)" and "sv_t2Download s1 = sv_t2Download s" and "sv_t2Update s1 = sv_t2Update s"
    and "listed (sv_tasks s1) v = (if v = di_uuid di then [] else listed (sv_tasks s) v)"
  using assms by (auto simp: Server_GetTaskList_def listed_def server_ok_def map_find_erase split: option.splits)

lemma announced_tasks:
  assumes "server_ok s" and "announced W s" and "Server_GetTaskList di s = (ts, s1)"
  shows "announced (if DOWNLOAD_TORRENT \<in> set ts then insert (di_uuid di) W else W) s1"
proof -
  note t = tasks_taken(1,2) [OF assms(1,3)]
  show ?thesis
    unfolding announced_def
  proof (intro allI impI)
    fix u assume "map_find (sv_t2Download s1) u \<noteq> None"
    with t(2) assms(2) have "u \<in> W \<or> DOWNLOAD_TORRENT \<in> set (listed (sv_tasks s) u)" by (simp add: announced_def)
    then show "u \<in> (if DOWNLOAD_TORRENT \<in> set ts then insert (di_uuid di) W else W)
        \<or> DOWNLOAD_TORRENT \<in> set (listed (sv_tasks s1) u)"
      using t(1) tasks_taken(4) [OF assms(1,3), of u] by (cases "u = di_uuid di") auto
  qed
qed

lemma announced_others:
  assumes "server_ok s" and "announced W s"
  shows "announced W (snd (Server_GetInfoForGenerateTorrents gen di s))" and "announced W (snd (Server_GetTorrentsForUpdateStatus di s))"
  using assms(2)
  by (auto simp: Server_GetInfoForGenerateTorrents_def Server_GetTorrentsForUpdateStatus_def Let_def announced_def split: option.split)

text \<open>A daemon that asks has nothing left to ask for.\<close>

lemma announced_downloads:
  assumes "server_ok s" and "announced W s"
  shows "announced (W - {di_uuid di}) (snd (Server_GetTorrentsForDownload di s))"
proof (cases "map_find (sv_t2Download s) (di_uuid di)")
  case None
  with assms(2) have "u \<noteq> di_uuid di" if "map_find (sv_t2Download s) u \<noteq> None" for u using that by auto
  with assms(2) None show ?thesis by (auto simp: announced_def Server_GetTorrentsForDownload_def)
next
  case (Some items)
  let ?s = "(fold (Add2UpdateList (di_uuid di)) items s)\<lparr>sv_t2Download := map_erase (di_uuid di) (sv_t2Download s)\<rparr>"
  have "server_ok ?s"
    using server_ok_updates [OF assms(1), of "di_uuid di" items] assms(1) by (simp add: server_ok_def)
  moreover have "announced (W - {di_uuid di}) ?s"
    using assms by (auto simp: announced_def server_ok_def map_find_erase split: if_splits)
  ultimately have "announced (W - {di_uuid di}) (Server_AddTask (di_uuid di) UPDATE_TORRENT_STATUS ?s)"
    by (rule announced_AddTask)
  with Some show ?thesis by (simp add: Server_GetTorrentsForDownload_def Let_def)
qed

section \<open>Each torrent is handed out once\<close>

datatype server_call =
    Sv_Handshake string
  | Sv_Report daemon_info rpc_tinfo
  | Sv_Tasks daemon_info
  | Sv_Generate daemon_info
  | Sv_Status daemon_info
  | Sv_Download daemon_info

text \<open>A call, with the torrents it hands out for download and to whom.\<close>

fun serve_call :: "(nat \<Rightarrow> string) \<Rightarrow> server_call \<Rightarrow> server \<Rightarrow> (string \<times> rpc_tinfo) list \<times> server" where
  "serve_call gen (Sv_Handshake u) s = ([], snd (sh_Handshake (test_handler gen) u s))"
| "serve_call gen (Sv_Report di ti) s = ([], sh_UpdateTorrentStatus (test_handler gen) di ti s)"
| "serve_call gen (Sv_Tasks di) s = ([], snd (sh_GetTaskList (test_handler gen) di s))"
| "serve_call gen (Sv_Generate di) s = ([], snd (sh_GetInfoForGenerateTorrents (test_handler gen) di s))"
| "serve_call gen (Sv_Status di) s = ([], snd (sh_GetTorrentsForUpdateStatus (test_handler gen) di s))"
| "serve_call gen (Sv_Download di) s =
     (let (tis, s1) = sh_GetTorrentsForDownload (test_handler gen) di s in (map (Pair (di_uuid di)) tis, s1))"

fun server_run :: "(nat \<Rightarrow> string) \<Rightarrow> server_call list \<Rightarrow> server \<Rightarrow> (string \<times> rpc_tinfo) list \<times> server" where
  "server_run gen [] s = ([], s)"
| "server_run gen (c # cs) s =
     (let (h1, s1) = serve_call gen c s; (h2, s2) = server_run gen cs s1 in (h1 @ h2, s2))"

fun offer :: "server_call \<Rightarrow> rpc_tinfo list" where
  "offer (Sv_Report di ti) = (if ri_status ti = RS_GENERATED \<and> ri_link ti \<noteq> '''' then [ti] else [])"
| "offer _ = []"

text \<open>The torrents at the server, in the queue and in the lists of the daemons.\<close>

definition held :: "(string, rpc_tinfo list) smap \<Rightarrow> rpc_tinfo multiset" where
  "held m = mset (concat (map snd m))"

definition stored :: "server \<Rightarrow> rpc_tinfo multiset" where
  "stored s = mset (sv_torrentDeque s) + held (sv_t2Download s)"

definition ids :: "rpc_tinfo multiset \<Rightarrow> string multiset" where
  "ids m = image_mset ri_id m"

lemma held_put: "map_ok m \<Longrightarrow> held (map_put u v m) + mset (listed m u) = held m + mset v"
proof (induction u v m rule: map_put.induct)
  case (2 u v u' v' m)
  have "u < u' \<Longrightarrow> map_find m u = None"
    using "2.prems" by (force simp: map_ok_Cons map_of_eq_None_iff)
  with 2 show ?case by (auto simp: held_def listed_def map_ok_Cons ac_simps)
qed (simp add: held_def listed_def)

lemma held_erase: "map_ok m \<Longrightarrow> held (map_erase u m) + mset (listed m u) = held m"
  by (induction u m rule: map_erase.induct) (auto simp: held_def listed_def map_ok_Cons ac_simps)

lemma listed_held: "map_ok m \<Longrightarrow> mset (listed m u) \<subseteq># held m"
  by (metis held_erase mset_subset_eq_add_right)

lemma FindTorrent_None: "FindTorrent v i = None \<longleftrightarrow> ri_id i \<notin> ri_id ` set v"
  by (induction v) auto

lemma held_UpdateOrAdd:
  assumes "map_ok m" and "ri_id i \<notin># ids (held m)"
  shows "held (UpdateOrAddTorrent u i m) = add_mset i (held m)"
proof (cases "map_find m u")
  case None
  with held_put [OF assms(1), of u "[i]"] show ?thesis by (simp add: UpdateOrAddTorrent_def listed_def)
next
  case (Some v)
  have "ri_id i \<notin> ri_id ` set v"
  proof
    assume "ri_id i \<in> ri_id ` set v"
    then have "ri_id i \<in># ids (held m)"
      using listed_held [OF assms(1), of u] Some by (auto simp: ids_def listed_def dest: mset_subset_eqD)
    with assms(2) show False by simp
  qed
  then have "FindTorrent v i = None" by (simp add: FindTorrent_None)
  then have "held (UpdateOrAddTorrent u i m) + mset v = add_mset i (held m) + mset v"
    using held_put [OF assms(1), of u "v @ [i]"] Some by (simp add: UpdateOrAddTorrent_def listed_def ac_simps)
  then show ?thesis by simp
qed

text \<open>While the ids are distinct, handing on what is queued moves torrents and loses none.\<close>

definition distinct_mset :: "'a multiset \<Rightarrow> bool" where
  "distinct_mset m \<longleftrightarrow> (\<forall>x. count m x \<le> 1)"

lemma distinct_mset_add: "distinct_mset (add_mset x m) \<longleftrightarrow> x \<notin># m \<and> distinct_mset m"
proof
  assume d: "distinct_mset (add_mset x m)"
  then have "count (add_mset x m) x \<le> 1" unfolding distinct_mset_def by blast
  moreover have "count m y \<le> 1" for y
  proof -
    have "count (add_mset x m) y \<le> 1" using d unfolding distinct_mset_def by blast
    then show ?thesis by (simp split: if_splits)
  qed
  ultimately show "x \<notin># m \<and> distinct_mset m" by (simp add: distinct_mset_def not_in_iff)
next
  assume "x \<notin># m \<and> distinct_mset m"
  then show "distinct_mset (add_mset x m)" by (simp add: distinct_mset_def not_in_iff)
qed

lemma stored_DownloadTorrent:
  assumes "server_ok s" and "distinct_mset (ids (stored s))"
  shows "stored (Server_DownloadTorrent u s) = stored s"
proof (cases "sv_torrentDeque s")
  case (Cons front rest)
  then have "ids (stored s) = add_mset (ri_id front) (ids (mset rest) + ids (held (sv_t2Download s)))"
    by (simp add: stored_def ids_def)
  with assms(2) have "ri_id front \<notin># ids (held (sv_t2Download s))" by (simp add: distinct_mset_add)
  from held_UpdateOrAdd [OF _ this, of u] assms(1) Cons show ?thesis
    by (simp add: Server_DownloadTorrent_def stored_def server_ok_def)
qed (simp add: Server_DownloadTorrent_def stored_def)

lemma stored_serve:
  assumes "server_ok s" and "distinct_mset (ids (stored s))"
  shows "stored (fold (\<lambda>d s. if d \<noteq> u then Server_DownloadTorrent d s else s) ds s) = stored s"
  using assms
  by (induction ds arbitrary: s) (simp_all add: stored_DownloadTorrent server_ok_DownloadTorrent)

lemma stored_cong:
  "sv_torrentDeque s1 = sv_torrentDeque s \<Longrightarrow> sv_t2Download s1 = sv_t2Download s \<Longrightarrow> stored s1 = stored s"
  by (simp add: stored_def)

lemma stored_AddTask [simp]: "stored (Server_AddTask u t s) = stored s"
  by (rule stored_cong) simp_all

lemma serve_call_stored:
  assumes "server_ok s" and "distinct_mset (ids (stored s) + ids (mset (offer c)))" and "serve_call gen c s = (h, s1)"
  shows "mset (map snd h) + stored s1 = stored s + mset (offer c)" and "server_ok s1"
proof -
  show "server_ok s1"
    using assms(1,3) server_ok_handshake [OF assms(1)] server_ok_report [OF assms(1)] server_ok_lists [OF assms(1)]
    by (cases c) (auto simp: test_handler_def split: prod.splits dest: sym, metis snd_conv)
  have ds: "distinct_mset (ids (stored s))" using assms(2) by (auto simp: distinct_mset_def intro: le_trans [OF le_add1])
  show "mset (map snd h) + stored s1 = stored s + mset (offer c)"
  proof (cases c)
    case (Sv_Handshake u)
    let ?s = "s\<lparr>sv_uuids := insort_insert u (sv_uuids s)\<rparr>"
    have eq: "stored ?s = stored s" by (rule stored_cong) simp_all
    have "server_ok ?s"
      using assms(1) by (simp add: server_ok_def sorted_insort_insert distinct_insort_insert)
    with stored_DownloadTorrent [of ?s u] ds eq have "stored (Server_DownloadTorrent u ?s) = stored s" by simp
    moreover have "stored (x\<lparr>sv_isFirst := b\<rparr>) = stored x" for x b by (rule stored_cong) simp_all
    ultimately show ?thesis
      using assms(3) Sv_Handshake eq by (auto simp: test_handler_def Server_Handshake_def Let_def)
  next
    case (Sv_Report di ti)
    let ?u = "di_uuid di"
    have rm: "stored (RemoveFromUpdateList ?u ti x) = stored x" for x by (rule stored_cong) simp_all
    show ?thesis
    proof (cases "ri_status ti = RS_GENERATED \<and> ri_link ti \<noteq> ''''")
      case True
      let ?s = "RemoveFromUpdateList ?u ti (s\<lparr>sv_torrentDeque := sv_torrentDeque s @ [ti]\<rparr>)"
      have st: "stored ?s = add_mset ti (stored s)" by (simp add: stored_def)
      have "server_ok ?s" using assms(1) by (simp add: server_ok_def map_ok_RemoveTorrent)
      moreover have "distinct_mset (ids (stored ?s))" using assms(2) Sv_Report True st by (simp add: ids_def)
      ultimately show ?thesis
        using assms(3) Sv_Report True stored_serve [of ?s ?u "sv_uuids ?s"] st
        by (auto simp: test_handler_def Server_UpdateTorrentStatus_def Let_def)
    next
      case False
      then show ?thesis
        using assms(3) Sv_Report rm
        by (auto simp: test_handler_def Server_UpdateTorrentStatus_def Let_def split: rpc_status.splits)
    qed
  next
    case (Sv_Download di)
    show ?thesis
    proof (cases "map_find (sv_t2Download s) (di_uuid di)")
      case (Some items)
      have ok: "map_ok (sv_t2Download s)" using assms(1) by (simp add: server_ok_def)
      have "mset items + held (map_erase (di_uuid di) (sv_t2Download s)) = held (sv_t2Download s)"
        using held_erase [OF ok, of "di_uuid di"] Some by (simp add: listed_def add.commute)
      moreover have "map snd (map (Pair (di_uuid di)) items) = items" by (simp add: comp_def)
      ultimately show ?thesis
        using assms(3) Sv_Download Some
        by (auto simp: test_handler_def Server_GetTorrentsForDownload_def Let_def stored_def ac_simps simp del: map_map)
    qed (use assms(3) Sv_Download in \<open>auto simp: test_handler_def Server_GetTorrentsForDownload_def\<close>)
  qed (use assms(3) in \<open>auto simp: test_handler_def Server_GetTaskList_def Server_GetInfoForGenerateTorrents_def
      Server_GetTorrentsForUpdateStatus_def Let_def stored_def split: option.splits\<close>)
qed

lemma distinct_mset_mset [simp]: "distinct_mset (mset xs) \<longleftrightarrow> distinct xs"
proof (induction xs)
  case (Cons x xs)
  then show ?case by (simp add: distinct_mset_add)
qed (simp add: distinct_mset_def)

lemma distinct_mset_right: "distinct_mset (a + b) \<Longrightarrow> distinct_mset b"
  by (auto simp: distinct_mset_def intro: le_trans [OF le_add2])

lemma server_run_stored:
  assumes "server_ok s" and "distinct_mset (ids (stored s) + ids (mset (concat (map offer cs))))"
    and "server_run gen cs s = (h, s1)"
  shows "mset (map snd h) + stored s1 = stored s + mset (concat (map offer cs))"
  using assms
proof (induction cs arbitrary: s h)
  case (Cons c cs)
  obtain h1 s2 where c: "serve_call gen c s = (h1, s2)" by fastforce
  obtain h2 where h: "server_run gen cs s2 = (h2, s1)" "h = h1 @ h2"
    using Cons.prems(3) c by (auto split: prod.splits)
  have all: "ids (stored s) + ids (mset (concat (map offer (c # cs))))
      = (ids (stored s) + ids (mset (offer c))) + ids (mset (concat (map offer cs)))"
    by (simp add: ids_def ac_simps)
  then have "distinct_mset (ids (stored s) + ids (mset (offer c)))"
    using Cons.prems(2) distinct_mset_right by (metis add.commute)
  note st = serve_call_stored [OF Cons.prems(1) this c]
  have "ids (mset (map snd h1)) + (ids (stored s2) + ids (mset (concat (map offer cs))))
      = ids (stored s) + ids (mset (concat (map offer (c # cs))))"
    using arg_cong [OF st(1), of ids] by (simp add: ids_def ac_simps)
  with Cons.prems(2) distinct_mset_right have "distinct_mset (ids (stored s2) + ids (mset (concat (map offer cs))))" by metis
  from Cons.IH [OF st(2) this h(1)] st(1) show ?case by (simp add: h(2)) (metis add.assoc add.commute)
qed simp

text \<open>C13: the server loses no torrent and hands none out twice. Whatever calls arrive and from whom, as long as no
  id is reported as generated twice: every torrent that was reported as generated with a link is either in
  the server's queue, or in the list of one daemon, or it was handed to exactly one daemon for download; and
  nothing else is ever handed out.\<close>

theorem handed_out_once:
  assumes "distinct (map ri_id (concat (map offer cs)))" and "server_run gen cs server_new = (h, s1)"
  shows "mset (map snd h) + (mset (sv_torrentDeque s1) + mset (concat (map snd (sv_t2Download s1)))) = mset (concat (map offer cs))
    \<and> distinct (map (ri_id \<circ> snd) h)"
proof -
  have new: "stored server_new = {#}" by (simp add: stored_def held_def server_new_def)
  have "distinct_mset (ids (mset (concat (map offer cs))))"
    using assms(1) by (simp add: ids_def flip: mset_map)
  with server_run_stored [OF server_ok_new _ assms(2)] new
  have eq: "mset (map snd h) + stored s1 = mset (concat (map offer cs))" by (simp add: ids_def)
  from arg_cong [OF this, of ids]
  have "ids (stored s1) + mset (map (ri_id \<circ> snd) h) = mset (map ri_id (concat (map offer cs)))"
    by (simp add: ids_def ac_simps flip: mset_map)
  moreover have "distinct_mset (mset (map ri_id (concat (map offer cs))))" using assms(1) by (simp del: mset_map)
  ultimately have "distinct_mset (mset (map (ri_id \<circ> snd) h))" by (metis distinct_mset_right)
  then have "distinct (map (ri_id \<circ> snd) h)" by (simp del: mset_map)
  with eq show ?thesis by (simp add: stored_def held_def)
qed

definition demo_di :: "string \<Rightarrow> daemon_info" where
  "demo_di u = \<lparr>di_uuid = u, di_authTocken = ''Some tocken'', di_authStatus = Auth_OK\<rparr>"

definition demo_generated :: rpc_tinfo where
  "demo_generated = tinfo_message\<lparr>ri_id := ''k'', ri_link := ''magnet'', ri_status := RS_GENERATED\<rparr>"

lemmas server_eval = test_handler_def Server_Handshake_def Server_UpdateTorrentStatus_def Server_GetTorrentsForDownload_def
  Server_DownloadTorrent_def Server_AddTask_def Add2DownloadList_def RemoveFromUpdateList_def Add2UpdateList_def
  UpdateOrAddTorrent_def RemoveTorrent_def RemoveTorrent_list_def Let_def insort_insert_key_def

theorem handed_out_once_witness:
  "\<exists>h s1. server_run (\<lambda>n. ''k'') [Sv_Handshake ''a'', Sv_Handshake ''b'', Sv_Report (demo_di ''a'') demo_generated,
      Sv_Download (demo_di ''b''), Sv_Download (demo_di ''b'')] server_new = (h, s1)
    \<and> h = [(''b'', demo_generated)] \<and> distinct (map (ri_id \<circ> snd) h)
    \<and> mset (sv_torrentDeque s1) + mset (concat (map snd (sv_t2Download s1))) = {#}"
proof -
  let ?cs = "[Sv_Handshake ''a'', Sv_Handshake ''b'', Sv_Report (demo_di ''a'') demo_generated,
      Sv_Download (demo_di ''b''), Sv_Download (demo_di ''b'')]"
  obtain h s1 where r: "server_run (\<lambda>n. ''k'') ?cs server_new = (h, s1)" by fastforce
  then have h: "h = [(''b'', demo_generated)]"
    by (auto simp: server_new_def demo_di_def demo_generated_def tinfo_message_def server_eval)
  have "concat (map offer ?cs) = [demo_generated]" by (simp add: demo_generated_def tinfo_message_def)
  with handed_out_once [OF _ r] h have "distinct (map (ri_id \<circ> snd) h)"
    "mset (sv_torrentDeque s1) + mset (concat (map snd (sv_t2Download s1))) = {#}" by simp_all
  with r h show ?thesis by blast
qed

text \<open>A daemon that is started again is handed its own torrent, when no other has shaken hands by then; the others
  never get it.\<close>

lemma own_torrent_back:
  assumes "a \<noteq> b" and "ri_status ti = RS_GENERATED" and "ri_link ti \<noteq> ''''"
  shows "fst (server_run gen [Sv_Handshake a, Sv_Report (demo_di a) ti, Sv_Handshake a, Sv_Handshake b,
      Sv_Download (demo_di b), Sv_Download (demo_di a)] server_new) = [(a, ti)]"
proof -
  define s1 where "s1 = server_new\<lparr>sv_uuids := [a], sv_tasks := [(a, [GENERATE_MAGENT, UPDATE_TORRENT_STATUS])], sv_isFirst := False\<rparr>"
  define s2 where "s2 = s1\<lparr>sv_torrentDeque := [ti]\<rparr>"
  define s3 where "s3 = s1\<lparr>sv_t2Download := [(a, [ti])], sv_tasks := [(a, [GENERATE_MAGENT, UPDATE_TORRENT_STATUS, DOWNLOAD_TORRENT])]\<rparr>"
  define s4 where "s4 = s3\<lparr>sv_uuids := insort b [a]\<rparr>"
  note s = s1_def s2_def s3_def s4_def server_eval server_new_def demo_di_def
  have "snd (Server_Handshake a server_new) = s1" by (simp add: s)
  moreover have "Server_UpdateTorrentStatus (demo_di a) ti s1 = s2" using assms(2,3) by (simp add: s)
  moreover have "snd (Server_Handshake a s2) = s3" by (simp add: s)
  moreover have "snd (Server_Handshake b s3) = s4" using assms(1) by (simp add: s)
  moreover have "Server_GetTorrentsForDownload (demo_di b) s4 = ([], s4)" using assms(1) by (simp add: s)
  moreover have "fst (Server_GetTorrentsForDownload (demo_di a) s4) = [ti]" by (simp add: s)
  ultimately show ?thesis by (simp add: test_handler_def split_def Let_def) (simp add: demo_di_def)
qed

section \<open>A task that is taken and lost\<close>

text \<open>The server keeps torrents for \<open>u\<close> and holds no task that would tell \<open>u\<close> of them.\<close>

definition untold :: "string \<Rightarrow> rpc_tinfo list \<Rightarrow> server \<Rightarrow> bool" where
  "untold u tis s \<longleftrightarrow> server_ok s \<and> \<not> sv_isFirst s \<and> sv_torrentDeque s = [] \<and> map_find (sv_t2Download s) u = Some tis
     \<and> DOWNLOAD_TORRENT \<notin> set (listed (sv_tasks s) u)"

lemma untold_AddTask: "untold u tis s \<Longrightarrow> t \<noteq> DOWNLOAD_TORRENT \<Longrightarrow> untold u tis (Server_AddTask v t s)"
  by (auto simp: untold_def server_ok_AddTask tasks_AddTask server_ok_def)

lemma untold_call:
  assumes "untold u tis s" and "offer c = []" and "\<forall>di. di_uuid di = u \<longrightarrow> c \<noteq> Sv_Download di" and "serve_call gen c s = (h, s1)"
  shows "untold u tis s1"
proof (cases c)
  case (Sv_Handshake v)
  let ?s = "s\<lparr>sv_uuids := insort_insert v (sv_uuids s)\<rparr>"
  have "s1 = ?s" using assms(1,4) Sv_Handshake
    by (simp add: test_handler_def Server_Handshake_def Server_DownloadTorrent_def untold_def)
  with assms(1) show ?thesis by (simp add: untold_def server_ok_def sorted_insort_insert distinct_insort_insert)
next
  case (Sv_Report di ti)
  have "untold u tis (RemoveFromUpdateList v ti s)" for v
    using assms(1) by (simp add: untold_def server_ok_def map_ok_RemoveTorrent)
  with assms(1,2,4) untold_AddTask [OF assms(1)] Sv_Report show ?thesis
    by (auto simp: test_handler_def Server_UpdateTorrentStatus_def split: rpc_status.splits if_splits)
next
  case (Sv_Tasks di)
  obtain ts s2 where t: "Server_GetTaskList di s = (ts, s2)" by fastforce
  have ok: "server_ok s" using assms(1) by (simp add: untold_def)
  have "s1 = s2" using assms(4) Sv_Tasks t by (simp add: test_handler_def)
  moreover have "sv_isFirst s2 = sv_isFirst s" "sv_torrentDeque s2 = sv_torrentDeque s"
    using t by (auto simp: Server_GetTaskList_def split: option.splits)
  moreover have "server_ok s2" using server_ok_lists(1) [OF ok, of di] t by simp
  ultimately show ?thesis using assms(1) tasks_taken(2,4) [OF ok t] by (simp add: untold_def)
next
  case (Sv_Generate di)
  have "server_ok s1" using server_ok_lists(2) [of s gen di] assms(1,4) Sv_Generate by (simp add: test_handler_def untold_def)
  with assms(1,4) Sv_Generate show ?thesis
    by (auto simp: test_handler_def untold_def Server_GetInfoForGenerateTorrents_def Let_def split: if_splits)
next
  case (Sv_Status di)
  with assms(1,4) show ?thesis by (auto simp: test_handler_def Server_GetTorrentsForUpdateStatus_def split: option.splits)
next
  case (Sv_Download di)
  have u: "di_uuid di \<noteq> u" using assms(3) Sv_Download by auto
  have ok: "map_ok (sv_t2Download s)" using assms(1) by (simp add: untold_def server_ok_def)
  show ?thesis
  proof (cases "map_find (sv_t2Download s) (di_uuid di)")
    case None
    with assms(1,4) Sv_Download show ?thesis by (simp add: test_handler_def Server_GetTorrentsForDownload_def)
  next
    case (Some items)
    let ?s = "(fold (Add2UpdateList (di_uuid di)) items s)\<lparr>sv_t2Download := map_erase (di_uuid di) (sv_t2Download s)\<rparr>"
    have "sv_isFirst (fold (Add2UpdateList v) is s) = sv_isFirst s" for v "is" by (induction "is" arbitrary: s) simp_all
    then have "untold u tis ?s"
      using assms(1) server_ok_updates [of s "di_uuid di" items] u ok by (simp add: untold_def server_ok_def map_find_erase)
    from untold_AddTask [OF this, of UPDATE_TORRENT_STATUS "di_uuid di"] assms(4) Sv_Download Some show ?thesis
      by (auto simp: test_handler_def Server_GetTorrentsForDownload_def Let_def)
  qed
qed



end
