(* ===== verification/Fleet.thy ===== *)
theory Fleet
  imports Client_Node Test_Server
begin

text \<open>
  Any number of daemons with the server of the tests: a step is a step of one daemon's thread, with the calls it
  makes, or the start of a daemon whose process has ended (the supervisor of \<^verbatim>\<open>main.cpp\<close> does that). The
  connection is the one of theory \<open>Grpc_Server\<close>, which loses nothing.
\<close>

section \<open>The test server keeps the promises its clients rely on\<close>

text \<open>The torrents the server has or will have handed out.\<close>

definition offers :: "server \<Rightarrow> rpc_tinfo set" where
  "offers s = set (sv_torrentDeque s) \<union> {ti. \<exists>u v. map_find (sv_t2Download s) u = Some v \<and> ti \<in> set v}"

definition server_typed :: "('en, 'ti) lt_api \<Rightarrow> server \<Rightarrow> bool" where
  "server_typed lt s \<longleftrightarrow> server_ok s \<and> (\<forall>ti \<in> offers s. offer_ok lt ti)"

lemma offers_cong:
  "sv_torrentDeque s1 = sv_torrentDeque s \<Longrightarrow> sv_t2Download s1 = sv_t2Download s \<Longrightarrow> offers s1 = offers s"
  by (simp add: offers_def)

lemma offers_AddTask [simp]: "offers (Server_AddTask u t s) = offers s"
  by (rule offers_cong) simp_all

lemma UpdateOrAdd_items:
  assumes "map_ok m" and "map_find (UpdateOrAddTorrent u i m) w = Some v" and "ti \<in> set v"
  shows "ti = i \<or> (\<exists>v'. map_find m w = Some v' \<and> ti \<in> set v')"
proof (cases "w = u")
  case True
  have "set (v'[k := i]) \<subseteq> insert i (set v')" for v' k by (rule set_update_subset_insert)
  with True assms show ?thesis
    by (auto simp: UpdateOrAddTorrent_def map_find_put split: option.splits)
next
  case False
  with assms show ?thesis by (auto simp: UpdateOrAddTorrent_def map_find_put split: option.splits)
qed

lemma offers_DownloadTorrent:
  assumes "server_ok s"
  shows "offers (Server_DownloadTorrent u s) \<subseteq> offers s"
proof (cases "sv_torrentDeque s")
  case (Cons front rest)
  have "map_ok (sv_t2Download s)" using assms by (simp add: server_ok_def)
  note items = UpdateOrAdd_items [OF this]
  have "ti \<in> offers s" if "map_find (UpdateOrAddTorrent u front (sv_t2Download s)) w = Some v" "ti \<in> set v" for ti w v
    using items [OF that] Cons by (auto simp: offers_def)
  then have "offers ((Add2DownloadList u front s)\<lparr>sv_torrentDeque := rest\<rparr>) \<subseteq> offers s"
    using Cons by (subst offers_def) (force simp: offers_def [of s])
  then show ?thesis
    using Cons by (simp add: Server_DownloadTorrent_def)
qed (simp add: Server_DownloadTorrent_def)

lemma offers_serve:
  assumes "server_ok s"
  shows "offers (fold (\<lambda>d s. if d \<noteq> u then Server_DownloadTorrent d s else s) ds s) \<subseteq> offers s"
  using assms
proof (induction ds arbitrary: s)
  case (Cons d ds)
  from Cons.IH [OF server_ok_DownloadTorrent [OF Cons.prems], of d] Cons.IH [OF Cons.prems] offers_DownloadTorrent [OF Cons.prems, of d]
  show ?case by auto
qed simp

lemma offers_handshake:
  assumes "server_ok s"
  shows "offers (snd (Server_Handshake u s)) \<subseteq> offers s"
proof -
  let ?s = "s\<lparr>sv_uuids := insort_insert u (sv_uuids s)\<rparr>"
  have "server_ok ?s" using assms by (simp add: server_ok_def sorted_insort_insert distinct_insort_insert)
  from offers_DownloadTorrent [OF this, of u] have "offers (Server_DownloadTorrent u ?s) \<subseteq> offers s" by (simp add: offers_def)
  moreover have "offers (x\<lparr>sv_isFirst := b\<rparr>) = offers x" for x b by (rule offers_cong) simp_all
  moreover have "offers ?s = offers s" by (rule offers_cong) simp_all
  ultimately show ?thesis by (simp add: Server_Handshake_def Let_def)
qed

lemma offers_report:
  assumes "server_ok s"
  shows "offers (Server_UpdateTorrentStatus di ti s) \<subseteq> offers s \<union> (if ri_status ti = RS_GENERATED \<and> ri_link ti \<noteq> '''' then {ti} else {})"
proof -
  let ?u = "di_uuid di" and ?q = "s\<lparr>sv_torrentDeque := sv_torrentDeque s @ [ti]\<rparr>"
  have rm: "offers (RemoveFromUpdateList ?u ti x) = offers x" for x by (rule offers_cong) simp_all
  have "server_ok (RemoveFromUpdateList ?u ti ?q)" using assms by (simp add: server_ok_def map_ok_RemoveTorrent)
  from offers_serve [OF this, of ?u "sv_uuids (RemoveFromUpdateList ?u ti ?q)"] rm [of ?q]
  have "offers (fold (\<lambda>d s. if d \<noteq> ?u then Server_DownloadTorrent d s else s) (sv_uuids (RemoveFromUpdateList ?u ti ?q))
      (RemoveFromUpdateList ?u ti ?q)) \<subseteq> insert ti (offers s)" by (auto simp: offers_def)
  with rm show ?thesis by (auto simp: Server_UpdateTorrentStatus_def Let_def split: rpc_status.split)
qed

lemma offers_downloads:
  assumes "server_ok s"
  shows "offers (snd (Server_GetTorrentsForDownload di s)) \<subseteq> offers s"
    and "set (fst (Server_GetTorrentsForDownload di s)) \<subseteq> offers s"
  using assms by (auto simp: Server_GetTorrentsForDownload_def Let_def offers_def map_find_erase server_ok_def split: option.splits if_splits)

interpretation test: fleet_server "loopback (test_handler gen)" "server_typed lt" lt
  for gen :: "nat \<Rightarrow> string" and lt :: "('en, 'ti) lt_api"
proof unfold_locales
  fix s :: server and v :: string and di :: daemon_info and ti :: rpc_tinfo
  assume s: "server_typed lt s"
  then have ok: "server_ok s" and off: "\<forall>ti \<in> offers s. offer_ok lt ti" by (simp_all add: server_typed_def)
  have "offers (snd (Server_GetTaskList di s)) = offers s" "offers (snd (Server_GetInfoForGenerateTorrents gen di s)) = offers s"
    "offers (snd (Server_GetTorrentsForUpdateStatus di s)) = offers s"
    by (auto simp: Server_GetTaskList_def Server_GetInfoForGenerateTorrents_def Server_GetTorrentsForUpdateStatus_def Let_def
        intro!: offers_cong split: option.split)
  then show "server_typed lt (snd (sa_GetTaskList (loopback (test_handler gen)) di s))"
    "server_typed lt (snd (sa_GetInfoForGenerateTorrents (loopback (test_handler gen)) di s))"
    "server_typed lt (snd (sa_GetTorrentsForUpdateStatus (loopback (test_handler gen)) di s))"
    using server_ok_lists [OF ok] off by (simp_all add: server_typed_def test_handler_def split_def Let_def)
  have "fst (Server_Handshake v s) = \<lparr>di_uuid = v, di_authTocken = ''Some tocken'', di_authStatus = Auth_OK\<rparr>"
    by (simp add: Server_Handshake_def Let_def)
  then show "server_typed lt (snd (sa_Handshake (loopback (test_handler gen)) v s))
      \<and> di_uuid (snd (fst (sa_Handshake (loopback (test_handler gen)) v s))) = v"
    using server_ok_handshake [OF ok, of v] offers_handshake [OF ok, of v] off
    by (auto simp: server_typed_def test_handler_def split_def Let_def)
  show "server_typed lt (snd (sa_GetTorrentsForDownload (loopback (test_handler gen)) di s))
      \<and> list_all (offer_ok lt) (fst (fst (sa_GetTorrentsForDownload (loopback (test_handler gen)) di s)))"
    using server_ok_lists(4) [OF ok, of di] offers_downloads [OF ok, of di] off
    by (auto simp: server_typed_def test_handler_def split_def Let_def list_all_iff)
  assume "report_ok lt ti"
  then show "server_typed lt (snd (sa_UpdateTorrentStatus (loopback (test_handler gen)) di ti s))"
    using server_ok_report [OF ok, of di ti] offers_report [OF ok, of di ti] off
    by (auto simp: server_typed_def test_handler_def offer_ok_def split: if_splits)
qed

section \<open>The fleet\<close>

record ('en, 'ti) fleet =
  fl_srv :: server
  fl_node :: "nat \<Rightarrow> ('en, 'ti) node"
  fl_end :: "nat \<Rightarrow> unit outcome"
  fl_again :: "nat \<Rightarrow> bool"

text \<open>What a fleet is made of: the folders, the UUIDs and the files of each daemon.\<close>

definition fleet_start :: "(nat \<Rightarrow> fsys) \<Rightarrow> ('en, 'ti) fleet" where
  "fleet_start fs = \<lparr>fl_srv = server_new, fl_node = (\<lambda>i. node_new (fs i) ''localhost'' ''50051''), fl_end = (\<lambda>_. Ret ()),
     fl_again = (\<lambda>_. False)\<rparr>"

abbreviation files_of :: "('en, 'ti) node \<Rightarrow> fsys" where
  "files_of n \<equiv> t_fs (gs_engine (nd_gens n))"

inductive fleet_step ::
  "(task_type option deferred list \<Rightarrow> task_type option deferred list) \<Rightarrow> (nat \<Rightarrow> string) \<Rightarrow> ('en, 'ti) lt_api \<Rightarrow> (nat \<Rightarrow> dirs)
   \<Rightarrow> (nat \<Rightarrow> string) \<Rightarrow> ('en, 'ti) fleet \<Rightarrow> ('en, 'ti) fleet \<Rightarrow> bool"
  for srt gen lt ds uuid where
  Moves: "fl_end f i = Ret () \<Longrightarrow> nlab_ok l \<Longrightarrow>
     node_step srt (loopback (test_handler gen)) lt (ds i) (Inr (uuid i)) l (fl_node f i, fl_srv f) = Some (r, (n1, srv1)) \<Longrightarrow>
     fleet_step srt gen lt ds uuid f
       (f\<lparr>fl_srv := srv1, fl_node := (fl_node f)(i := n1), fl_end := (fl_end f)(i := r)\<rparr>)"
| Starts: "fl_end f i \<noteq> Ret () \<Longrightarrow>
     fleet_step srt gen lt ds uuid f
       (f\<lparr>fl_node := (fl_node f)(i := node_new (files_of (fl_node f i)) ''localhost'' ''50051''), fl_end := (fl_end f)(i := Ret ()),
          fl_again := (fl_again f)(i := True)\<rparr>)"

inductive fleet_reach ::
  "(task_type option deferred list \<Rightarrow> task_type option deferred list) \<Rightarrow> (nat \<Rightarrow> string) \<Rightarrow> ('en, 'ti) lt_api \<Rightarrow> (nat \<Rightarrow> dirs)
   \<Rightarrow> (nat \<Rightarrow> string) \<Rightarrow> (nat \<Rightarrow> fsys) \<Rightarrow> ('en, 'ti) fleet \<Rightarrow> bool"
  for srt gen lt ds uuid fs where
  Begin: "fleet_reach srt gen lt ds uuid fs (fleet_start fs)"
| Goes: "fleet_reach srt gen lt ds uuid fs f \<Longrightarrow> fleet_step srt gen lt ds uuid f f1 \<Longrightarrow> fleet_reach srt gen lt ds uuid fs f1"

definition fleet_ok :: "('en, 'ti) lt_api \<Rightarrow> (nat \<Rightarrow> string) \<Rightarrow> ('en, 'ti) fleet \<Rightarrow> bool" where
  "fleet_ok lt uuid f \<longleftrightarrow> server_typed lt (fl_srv f) \<and> (\<forall>i. node_ok lt (uuid i) (fl_node f i))"

lemma fleet_ok_step:
  assumes "fleet_step srt gen lt ds uuid f f1" and "fleet_ok lt uuid f" and "lt_sound lt" and "qsort_spec srt"
  shows "fleet_ok lt uuid f1"
  using assms(1)
proof cases
  case (Moves i l r n1 srv1)
  have "node_ok lt (uuid i) (fl_node f i)" "server_typed lt (fl_srv f)" using assms(2) by (simp_all add: fleet_ok_def)
  from test.node_ok_step [OF this assms(3,4) Moves(3,4)] assms(2) Moves(1) show ?thesis by (simp add: fleet_ok_def)
next
  case (Starts i)
  have "fs_ok (files_of (fl_node f i))"
    using assms(2) by (auto simp: fleet_ok_def node_ok_def engine_linked_def gens_ok_def engine_ok_def)
  from node_new_ok [OF this, of lt "uuid i"] assms(2) Starts(1) show ?thesis by (simp add: fleet_ok_def)
qed

lemma fleet_reach_ok:
  assumes "fleet_reach srt gen lt ds uuid fs f" and "lt_sound lt" and "qsort_spec srt" and "\<And>i. fs_ok (fs i)"
  shows "fleet_ok lt uuid f"
  using assms(1)
proof induction
  case Begin
  have "server_typed lt server_new" by (simp add: server_typed_def offers_def) (simp add: server_new_def)
  then show ?case using node_new_ok [OF assms(4), where lt = lt] by (simp add: fleet_ok_def fleet_start_def)
next
  case (Goes f f1)
  from fleet_ok_step [OF Goes(2,3) assms(2,3)] show ?case .
qed

section \<open>Who knows of the torrents to download\<close>

text \<open>The daemon, when it is still to ask for downloads.\<close>

definition asks :: "string \<Rightarrow> ('en, 'ti) node \<Rightarrow> string set" where
  "asks u n = (if DOWNLOAD_TORRENT \<in># todo n then {u} else {})"

lemma asks_grow: "todo n \<subseteq># todo n1 \<Longrightarrow> asks u n \<subseteq> asks u n1"
  by (auto simp: asks_def dest: mset_subset_eqD)

lemma todo_sel [simp]:
  "todo (n\<lparr>nd_pc := pc\<rparr>) = waiting (g_worker (nd_client n)) + begun_task pc" "todo (n\<lparr>nd_gens := s\<rparr>) = todo n"
  by (simp_all add: todo_def)

text \<open>A step within a task sends at most a report.\<close>

lemma task_server:
  assumes "client_step api lt ds fresh uuid (nd_pc n) (n, srv) = Some (r, (n1, srv1))"
    and "nd_pc n \<noteq> K_Idle" and "begun_task (nd_pc n) = {#}"
  shows "(srv1 = srv \<or> (\<exists>ti. srv1 = snd (sa_UpdateTorrentStatus api (g_info (nd_client n)) ti srv))) \<and> todo n \<subseteq># todo n1"
proof -
  have sent: ?thesis if "send api ti pc (n, srv) = (r, (n1, srv1))" "begun_task pc = {#}" for ti pc
    using that assms(3)
    by (auto simp: send_def UpdateTorrentStatus_def GetClientInfo_def todo_def split: if_splits)
  have gens: ?thesis
    if "on_gens lt ds l after (n, srv) = Some (r, (n1, srv1))" "\<And>r s. begun_task (snd (after r s)) = {#}" for l after
  proof -
    note taken = that
    obtain w s1 where "gen_step lt ds l (nd_gens n) = Some (w, s1)"
      using taken(1) by (auto simp: on_gens_def split: option.splits)
    then show ?thesis using taken(1) taken(2) [of w s1] assms(3) by (cases "after w s1") (auto simp: on_gens_def todo_def)
  qed
  show ?thesis
  proof (cases "nd_pc n")
    case (K_Generate tis)
    show ?thesis
    proof (cases tis)
      case Nil
      with K_Generate assms(1,3) show ?thesis by (auto simp: todo_def waiting_AddTask)
    next
      case (Cons ti rest)
      with K_Generate assms(1) show ?thesis by (intro gens) (auto)
    qed
  next
    case (K_Starts tis)
    with assms(1) show ?thesis by (intro gens) auto
  next
    case (K_Download tis)
    show ?thesis
    proof (cases tis)
      case Nil
      with K_Download assms(1,3) show ?thesis by (auto simp: todo_def waiting_AddTask)
    next
      case (Cons ti rest)
      with K_Download assms(1) show ?thesis by (intro gens) (auto split: outcome.split exn.split)
    qed
  next
    case (K_Caught ti tis)
    with assms(1) show ?thesis by (intro sent) auto
  next
    case (K_Report tis)
    show ?thesis
    proof (cases tis)
      case Nil
      with K_Report assms(1,3) show ?thesis by (auto simp: todo_def)
    next
      case (Cons ti rest)
      with K_Report assms(1) show ?thesis by (intro gens) auto
    qed
  next
    case (K_Copy tis)
    with assms(1) show ?thesis by (intro gens) (auto split: option.split)
  next
    case (K_Send ti tis)
    with assms(1) show ?thesis by (intro sent) auto
  qed (use assms(2,3) in simp_all)
qed

lemma announced_begin:
  fixes n :: "('en, 'ti) node"
  assumes "node_ok lt u n" and "server_ok srv" and "announced (W \<union> asks u n) srv" and "nd_pc n = K_Begin x"
    and "client_step (loopback (test_handler gen)) lt ds fresh (Inr u) (K_Begin x) (n, srv) = Some (r, (n1, srv1))"
  shows "announced (W \<union> asks u n1) srv1"
proof -
  have n: "g_stub (nd_client n)" "g_isRun (nd_client n)" "client_ok u n" using assms(1) by (simp_all add: node_ok_def client_ok_def)
  have reg: "di_uuid (g_info (nd_client n)) = u" if "x \<noteq> MAKE_HANDSHAKE" using registered_uuid [OF n(3)] assms(4) that by simp
  have same: "asks u n1 = asks u n" if "todo n = add_mset x R" "todo n1 = add_mset y R" "x \<noteq> DOWNLOAD_TORRENT" "y \<noteq> DOWNLOAD_TORRENT" for R y
    using that by (simp add: asks_def)
  show ?thesis
  proof (cases x)
    case GENERATE_MAGENT
    with assms(5) n(1) have e: "srv1 = snd (Server_GetInfoForGenerateTorrents gen (g_info (nd_client n)) srv)" "nd_client n1 = nd_client n"
      "begun_task (nd_pc n1) = {#}" by (auto simp: ask_def test_handler_def GetClientInfo_def split_def Let_def)
    then have "asks u n1 = asks u n" using assms(4) GENERATE_MAGENT by (simp add: asks_def todo_def)
    with announced_others(1) [OF assms(2,3)] e(1) show ?thesis by simp
  next
    case UPDATE_TORRENT_STATUS
    with assms(5) n(1) have e: "srv1 = snd (Server_GetTorrentsForUpdateStatus (g_info (nd_client n)) srv)" "nd_client n1 = nd_client n"
      "begun_task (nd_pc n1) = {#}" by (auto simp: ask_def test_handler_def GetClientInfo_def split_def Let_def)
    then have "asks u n1 = asks u n" using assms(4) UPDATE_TORRENT_STATUS by (simp add: asks_def todo_def)
    with announced_others(2) [OF assms(2,3)] e(1) show ?thesis by simp
  next
    case DOWNLOAD_TORRENT
    with assms(5) n(1) have e: "srv1 = snd (Server_GetTorrentsForDownload (g_info (nd_client n)) srv)"
      by (auto simp: ask_def test_handler_def GetClientInfo_def split_def Let_def)
    have "(W \<union> asks u n) - {u} \<subseteq> W" by (auto simp: asks_def)
    with announced_mono [OF announced_downloads [OF assms(2,3), of "g_info (nd_client n)"], of W] e reg DOWNLOAD_TORRENT
    have "announced W srv1" by simp
    then show ?thesis by (rule announced_mono) simp
  next
    case UPDATE_TASK_LIST
    obtain ts s2 where ts: "Server_GetTaskList (g_info (nd_client n)) srv = (ts, s2)" by fastforce
    have e: "srv1 = s2" "todo n1 = todo n + mset (filter (\<lambda>x. CreateTask x \<noteq> None) ts)"
      using assms(4,5) UPDATE_TASK_LIST n(1,2) ts
      by (auto simp: whole_task_def UpdateTasksTask_def IsRun_def on_srv_def node_world_def GetClientInfo_def test_handler_def
          todo_def waiting_AddTask waiting_fold Let_def)
    have "(if DOWNLOAD_TORRENT \<in> set ts then insert u (W \<union> asks u n) else W \<union> asks u n) \<subseteq> W \<union> asks u n1"
      using e(2) by (auto simp: asks_def)
    moreover have "di_uuid (g_info (nd_client n)) = u" using reg UPDATE_TASK_LIST by simp
    ultimately show ?thesis
      using announced_mono [OF announced_tasks [OF assms(2,3) ts]] unfolding e(1) by metis
  next
    case MAKE_HANDSHAKE
    have "srv1 = snd (Server_Handshake u srv)" "\<exists>y. y \<noteq> DOWNLOAD_TORRENT \<and> todo n1 = add_mset y (waiting (g_worker (nd_client n)))"
      using assms(4,5) MAKE_HANDSHAKE n(1)
      by (auto simp: whole_task_def HandshakeTask_def GetClientUUID_def controller_cb_def on_srv_def node_world_def test_handler_def
          todo_def waiting_AddTask Let_def split_def)
    moreover from this(2) obtain y where "y \<noteq> DOWNLOAD_TORRENT" "todo n1 = add_mset y (waiting (g_worker (nd_client n)))" by blast
    then have "asks u n1 = asks u n" using assms(4) MAKE_HANDSHAKE by (simp add: asks_def todo_def)
    ultimately show ?thesis using announced_handshake [OF assms(2,3)] by simp
  next
    case (Unknown_Task k)
    with assms(4,5) have "srv1 = srv" "asks u n1 = asks u n" by (auto simp: whole_task_def node_world_def asks_def todo_def)
    with assms(3) show ?thesis by simp
  qed
qed

lemma announced_client:
  fixes n :: "('en, 'ti) node"
  assumes "node_ok lt u n" and "server_ok srv" and "announced (W \<union> asks u n) srv"
    and "client_step (loopback (test_handler gen)) lt ds fresh (Inr u) (nd_pc n) (n, srv) = Some (r, (n1, srv1))"
  shows "announced (W \<union> asks u n1) srv1"
proof (cases "nd_pc n = K_Idle")
  case True
  with assms(4) obtain t where t: "Work_step (g_worker (nd_client n)) = Some t" by (auto split: option.splits)
  have "client_ok u n" using assms(1) by (simp add: node_ok_def)
  from idle_ok(2) [OF this True t refl] True assms(3,4) t show ?thesis by (auto simp: asks_def)
next
  case idle: False
  show ?thesis
  proof (cases "begun_task (nd_pc n) = {#}")
    case True
    note t = task_server [OF assms(4) idle True]
    have "announced (W \<union> asks u n) srv1"
      using t announced_report [OF assms(2,3)] assms(3) by (auto simp: test_handler_def)
    then show ?thesis using asks_grow [of n n1 u] t by (auto elim: announced_mono)
  next
    case False
    then obtain x where "nd_pc n = K_Begin x" by (cases "nd_pc n") simp_all
    with announced_begin [OF assms(1-3) this] assms(4) show ?thesis by simp
  qed
qed

lemma announced_node:
  fixes n :: "('en, 'ti) node"
  assumes "node_ok lt u n" and "server_ok srv" and "announced (W \<union> asks u n) srv" and "qsort_spec srt"
    and "node_step srt (loopback (test_handler gen)) lt ds (Inr u) l (n, srv) = Some (r, (n1, srv1))"
  shows "announced (W \<union> asks u n1) srv1"
proof (cases l)
  case (N_Client fresh)
  with announced_client [OF assms(1-3)] assms(5) show ?thesis by simp
next
  case (N_Handler curWait)
  have "client_ok u n" using assms(1) by (simp add: node_ok_def)
  moreover obtain t where t: "Handler_step srt curWait (g_worker (nd_client n)) = Some t"
    "n1 = n\<lparr>nd_client := (nd_client n)\<lparr>g_worker := t\<rparr>\<rparr>" "srv1 = srv"
    using N_Handler assms(5) by (auto split: option.splits)
  ultimately have "todo n1 = todo n" using handler_ok(2) [OF _ assms(4)] by (simp add: todo_def)
  with assms(3) t(3) show ?thesis by (simp add: asks_def)
qed (use assms(3,5) in \<open>auto simp: node_gens_def asks_def split: option.splits\<close>)

text \<open>The daemons that may be left alone: those that have ended, or were started again since.\<close>

definition fallen :: "(nat \<Rightarrow> string) \<Rightarrow> ('en, 'ti) fleet \<Rightarrow> string set" where
  "fallen uuid f = {uuid i | i. fl_end f i \<noteq> Ret () \<or> fl_again f i}"

definition all_told :: "(nat \<Rightarrow> string) \<Rightarrow> ('en, 'ti) fleet \<Rightarrow> bool" where
  "all_told uuid f \<longleftrightarrow> announced (fallen uuid f \<union> (\<Union>i. asks (uuid i) (fl_node f i))) (fl_srv f)"

lemma all_told_step:
  assumes "fleet_step srt gen lt ds uuid f f1" and "all_told uuid f" and "fleet_ok lt uuid f" and "qsort_spec srt"
  shows "all_told uuid f1"
  using assms(1)
proof cases
  case (Moves i l r n1 srv1)
  let ?W = "fallen uuid f \<union> (\<Union>j \<in> - {i}. asks (uuid j) (fl_node f j))"
  have all: "fallen uuid f \<union> (\<Union>j. asks (uuid j) (fl_node f j)) = ?W \<union> asks (uuid i) (fl_node f i)" by auto
  have "node_ok lt (uuid i) (fl_node f i)" "server_ok (fl_srv f)" using assms(3) by (simp_all add: fleet_ok_def server_typed_def)
  from announced_node [OF this assms(2) [unfolded all_told_def all] assms(4) Moves(4)]
  have "announced (?W \<union> asks (uuid i) n1) (fl_srv f1)" using Moves(1) by simp
  moreover have "?W \<union> asks (uuid i) n1 \<subseteq> fallen uuid f1 \<union> (\<Union>j. asks (uuid j) (fl_node f1 j))"
    using Moves(1,2) by (auto simp: fallen_def)
  ultimately show ?thesis unfolding all_told_def by (rule announced_mono)
next
  case (Starts i)
  have "fallen uuid f \<subseteq> fallen uuid f1" "uuid i \<in> fallen uuid f1" using Starts(1) by (auto simp: fallen_def)
  moreover have "asks (uuid j) (fl_node f j) \<subseteq> insert (uuid i) (asks (uuid j) (fl_node f1 j))" for j
    using Starts(1) by (auto simp: asks_def)
  ultimately have "fallen uuid f \<union> (\<Union>j. asks (uuid j) (fl_node f j)) \<subseteq> fallen uuid f1 \<union> (\<Union>j. asks (uuid j) (fl_node f1 j))"
    by blast
  moreover have "fl_srv f1 = fl_srv f" using Starts(1) by simp
  ultimately show ?thesis using announced_mono [OF assms(2) [unfolded all_told_def]] by (simp only: all_told_def)
qed

lemma fleet_reach_told:
  assumes "fleet_reach srt gen lt ds uuid fs f" and "lt_sound lt" and "qsort_spec srt" and "\<And>i. fs_ok (fs i)"
  shows "all_told uuid f"
  using assms(1)
proof induction
  case Begin
  show ?case by (simp add: all_told_def fleet_start_def)
next
  case (Goes f f1)
  from all_told_step [OF Goes(2,3) fleet_reach_ok [OF Goes(1) assms(2-4)] assms(3)] show ?case .
qed

end
