(* ===== verification/Fleet_Run.thy ===== *)
theory Fleet_Run
  imports Fleet
begin

text \<open>
  A whole run of the fleet of theory \<open>Fleet\<close>: the first daemon is told to generate a torrent, generates and
  reports it; the second is told to download it, and starts to.
\<close>

section \<open>Moves of one daemon\<close>

text \<open>\<open>upd i n srv\<close>: daemon \<open>i\<close> has become \<open>n\<close>, and the server \<open>srv\<close>.\<close>

abbreviation upd :: "nat \<Rightarrow> ('en, 'ti) node \<Rightarrow> server \<Rightarrow> ('en, 'ti) fleet \<Rightarrow> ('en, 'ti) fleet" where
  "upd i n srv f \<equiv> f\<lparr>fl_srv := srv, fl_node := (fl_node f)(i := n)\<rparr>"

lemma upd_moves:
  assumes "fleet_reach srt gen lt ds uuid fs f" and "fl_end f i = Ret ()" and "nlab_ok l"
    and "node_step srt (loopback (test_handler gen)) lt (ds i) (Inr (uuid i)) l (fl_node f i, fl_srv f) = Some (Ret (), (n1, srv1))"
  shows "fleet_reach srt gen lt ds uuid fs (upd i n1 srv1 f)"
proof -
  have "(fl_end f)(i := Ret ()) = fl_end f" using assms(2) by auto
  then have "upd i n1 srv1 f = f\<lparr>fl_srv := srv1, fl_node := (fl_node f)(i := n1), fl_end := (fl_end f)(i := Ret ())\<rparr>" by simp
  with fleet_reach.Goes [OF assms(1) fleet_step.Moves [where f = f and i = i and l = l and ds = ds and uuid = uuid, OF assms(2-4)]] show ?thesis by simp
qed

lemma reach_client:
  assumes "fleet_reach srt gen lt ds uuid fs f" and "fl_end f i = Ret ()"
    and "comes (loopback (test_handler gen)) lt (ds i) fresh (Inr (uuid i)) (fl_node f i, fl_srv f) (Ret ()) (n1, srv1)"
  shows "fleet_reach srt gen lt ds uuid fs (upd i n1 srv1 f)"
proof -
  have "fleet_reach srt gen lt ds uuid fs (upd i n1 srv1 f)"
    if "client_iter (loopback (test_handler gen)) lt (ds i) fresh (Inr (uuid i)) m (n, srv) = Some (Ret (), (n1, srv1))"
      "fleet_reach srt gen lt ds uuid fs (upd i n srv f)" for m n srv
    using that
  proof (induction m arbitrary: n srv)
    case (Suc m)
    obtain n2 srv2 where s: "client_step (loopback (test_handler gen)) lt (ds i) fresh (Inr (uuid i)) (nd_pc n) (n, srv) = Some (Ret (), (n2, srv2))"
      "client_iter (loopback (test_handler gen)) lt (ds i) fresh (Inr (uuid i)) m (n2, srv2) = Some (Ret (), (n1, srv1))"
      using Suc.prems(1) by (auto split: option.splits outcome.splits)
    have "fleet_reach srt gen lt ds uuid fs (upd i n2 srv2 (upd i n srv f))"
      by (rule upd_moves [OF Suc.prems(2), where l = "N_Client fresh"]) (use assms(2) s(1) in simp_all)
    then have "fleet_reach srt gen lt ds uuid fs (upd i n2 srv2 f)" by simp
    with Suc.IH [OF s(2)] show ?case .
  qed simp
  moreover have "upd i (fl_node f i) (fl_srv f) f = f" by simp
  ultimately show ?thesis using assms(1,3) unfolding comes_def by metis
qed

lemma reach_thread:
  assumes "fleet_reach srt gen lt ds uuid fs f" and "fl_end f i = Ret ()"
    and "gen_run lt (ds i) (replicate m (Gn_Run k fresh)) (nd_gens (fl_node f i)) = Some (Ret (), s1)"
  shows "fleet_reach srt gen lt ds uuid fs (upd i ((fl_node f i)\<lparr>nd_gens := s1\<rparr>) (fl_srv f) f)"
proof -
  have "fleet_reach srt gen lt ds uuid fs (upd i ((fl_node f i)\<lparr>nd_gens := s1\<rparr>) (fl_srv f) f)"
    if "gen_run lt (ds i) (replicate m (Gn_Run k fresh)) s = Some (Ret (), s1)"
      "fleet_reach srt gen lt ds uuid fs (upd i ((fl_node f i)\<lparr>nd_gens := s\<rparr>) (fl_srv f) f)" for m s
    using that
  proof (induction m arbitrary: s)
    case (Suc m)
    obtain s2 where s: "gen_step lt (ds i) (Gn_Run k fresh) s = Some (Ret (), s2)"
      "gen_run lt (ds i) (replicate m (Gn_Run k fresh)) s2 = Some (Ret (), s1)"
      using Suc.prems(1) by (auto simp del: gen_step.simps split: option.splits outcome.splits)
    have "fleet_reach srt gen lt ds uuid fs
        (upd i ((fl_node f i)\<lparr>nd_gens := s2\<rparr>) (fl_srv f) (upd i ((fl_node f i)\<lparr>nd_gens := s\<rparr>) (fl_srv f) f))"
      by (rule upd_moves [OF Suc.prems(2), where l = "N_Job k fresh"])
        (use assms(2) s(1) in \<open>simp_all add: node_gens_def del: gen_step.simps\<close>)
    then have "fleet_reach srt gen lt ds uuid fs (upd i ((fl_node f i)\<lparr>nd_gens := s2\<rparr>) (fl_srv f) f)" by simp
    with Suc.IH [OF s(2)] show ?case .
  qed simp
  moreover have "upd i ((fl_node f i)\<lparr>nd_gens := nd_gens (fl_node f i)\<rparr>) (fl_srv f) f = f" by simp
  ultimately show ?thesis using assms(1,3) by metis
qed

section \<open>The worker between two tasks\<close>

text \<open>The worker's thread is in its inner loop: \<open>d\<close> are the tasks it has taken, \<open>q\<close> those that are queued.\<close>

definition at_work :: "string \<Rightarrow> grpc \<Rightarrow> task_type list \<Rightarrow> task_type list \<Rightarrow> bool" where
  "at_work u g d q \<longleftrightarrow> g_stub g \<and> g_isRun g \<and> di_uuid (g_info g) = u \<and> w_isRunning (g_worker g) \<and> w_pc (g_worker g) = WRun
     \<and> w_deq (g_worker g) = map Some d \<and> queueMessages (w_queue (g_worker g)) = map Some q"

lemma at_work_AddTask:
  "at_work u g d q \<Longrightarrow> CreateTask t = Some t \<Longrightarrow> at_work u (AddTask t g) d (q @ [t])"
  "at_work u g d q \<Longrightarrow> at_work u (AddTaskAfterTimeOut t m g) d q"
  by (simp_all add: at_work_def AddTask_def AddTaskAfterTimeOut_def EnqueueTask_def EnqueueTaskAfterTimeOut_def Push_def)

lemma at_work_fold:
  "at_work u g d q \<Longrightarrow> list_all (\<lambda>t. CreateTask t = Some t) ts \<Longrightarrow> at_work u (fold AddTask ts g) d (q @ ts)"
proof (induction ts arbitrary: g q)
  case (Cons t ts)
  then have "at_work u (AddTask t g) d (q @ [t])" by (simp add: at_work_AddTask)
  from Cons.IH [OF this] Cons.prems(2) show ?case by simp
qed simp

lemma next_task:
  assumes "at_work u (nd_client n) (x # d) q" and "nd_pc n = K_Idle"
  shows "\<exists>g. comes api lt ds fresh uuid (n, srv) (Ret ()) (n\<lparr>nd_client := g, nd_pc := K_Begin x\<rparr>, srv) \<and> at_work u g d q"
proof -
  let ?t = "run_task (Some x) ((g_worker (nd_client n))\<lparr>w_deq := map Some d\<rparr>)"
  have "Work_step (g_worker (nd_client n)) = Some ?t" using assms(1) by (simp add: at_work_def Work_step_def)
  then have "comes api lt ds fresh uuid (n, srv) (Ret ()) (n\<lparr>nd_client := (nd_client n)\<lparr>g_worker := ?t\<rparr>, nd_pc := K_Begin x\<rparr>, srv)"
    using assms(2) by (intro comes_step) simp
  moreover have "at_work u ((nd_client n)\<lparr>g_worker := ?t\<rparr>) d q" using assms(1) by (simp add: at_work_def)
  ultimately show ?thesis by blast
qed

lemma take_tasks:
  assumes "at_work u (nd_client n) [] (x # q)" and "nd_pc n = K_Idle"
  shows "\<exists>g. comes api lt ds fresh uuid (n, srv) (Ret ()) (n\<lparr>nd_client := g, nd_pc := K_Begin x\<rparr>, srv) \<and> at_work u g q []"
proof -
  let ?w = "g_worker (nd_client n)"
  let ?n = "\<lambda>w. n\<lparr>nd_client := (nd_client n)\<lparr>g_worker := w\<rparr>\<rparr>"
  let ?w1 = "?w\<lparr>w_pc := WLoop\<rparr>" and ?w2 = "?w\<lparr>w_pc := WWait\<rparr>"
  let ?w3 = "?w\<lparr>w_deq := map Some (x # q), w_queue := (w_queue ?w)\<lparr>queueMessages := []\<rparr>, w_pc := WRun\<rparr>"
  have w: "w_pc ?w = WRun" "w_deq ?w = []" "w_isRunning ?w" "queueMessages (w_queue ?w) = map Some (x # q)"
    using assms(1) by (simp_all add: at_work_def)
  have "Work_step ?w = Some ?w1" using w(1,2) by (simp add: Work_step_def)
  moreover have "Work_step ?w1 = Some ?w2" using w(3) by (simp add: Work_step_def wt_IsRunning_def)
  moreover have "Work_step ?w2 = Some ?w3" using w(4) by (simp add: Work_step_def WaitAndReturnAll_now)
  ultimately have "client_iter api lt ds fresh uuid 3 (n, srv) = Some (Ret (), (?n ?w3, srv))"
    using assms(2) by (simp add: numeral_3_eq_3)
  moreover have "?n ?w3 = (?n ?w3)\<lparr>nd_pc := K_Idle\<rparr>" using assms(2) by simp
  moreover have "at_work u (nd_client (?n ?w3)) (x # q) []" using assms(1) by (simp add: at_work_def)
  with next_task [OF this, of api lt ds fresh uuid srv] assms(2) obtain g where
    "comes api lt ds fresh uuid (?n ?w3, srv) (Ret ()) ((?n ?w3)\<lparr>nd_client := g, nd_pc := K_Begin x\<rparr>, srv)" "at_work u g q []" by auto
  ultimately have "comes api lt ds fresh uuid (n, srv) (Ret ()) ((?n ?w3)\<lparr>nd_client := g, nd_pc := K_Begin x\<rparr>, srv)"
    using comes_trans [of api lt ds fresh uuid "(n, srv)" "(?n ?w3, srv)"] unfolding comes_def by blast
  with \<open>at_work u g q []\<close> show ?thesis by auto
qed

lemma starts_work:
  fixes lt :: "('en, 'ti) lt_api"
  shows "\<exists>g. comes api lt ds fresh uuid (node_new fs h p, srv) (Ret ()) ((node_new fs h p)\<lparr>nd_client := g, nd_pc := K_Begin MAKE_HANDSHAKE\<rparr>, srv)
    \<and> at_work '''' g [] []"
proof -
  let ?n = "node_new fs h p :: ('en, 'ti) node"
  let ?w = "(g_worker (nd_client ?n))\<lparr>w_isRunning := True, w_queue := mq_empty, w_pc := WRun, w_log := [MAKE_HANDSHAKE]\<rparr>"
  let ?g = "(nd_client ?n)\<lparr>g_worker := ?w\<rparr>"
  have "client_iter api lt ds fresh uuid 4 (?n, srv) = Some (Ret (), (?n\<lparr>nd_client := ?g, nd_pc := K_Begin MAKE_HANDSHAKE\<rparr>, srv))"
    by (simp add: eval_nat_numeral node_new_def Controller_Start_def client_eval)
  moreover have "at_work '''' ?g [] []"
    by (simp add: at_work_def node_new_def Controller_Start_def client_eval daemon_info_empty_def)
  ultimately show ?thesis unfolding comes_def by blast
qed

section \<open>The tasks against the test server\<close>

abbreviation test_api :: "(nat \<Rightarrow> string) \<Rightarrow> server stub_api" where
  "test_api gen \<equiv> loopback (test_handler gen)"

lemma test_handler_sel [simp]:
  "sh_Handshake (test_handler gen) = Server_Handshake" "sh_UpdateTorrentStatus (test_handler gen) = Server_UpdateTorrentStatus"
  "sh_GetTaskList (test_handler gen) = Server_GetTaskList"
  "sh_GetInfoForGenerateTorrents (test_handler gen) = Server_GetInfoForGenerateTorrents gen"
  "sh_GetTorrentsForDownload (test_handler gen) = Server_GetTorrentsForDownload"
  "sh_GetTorrentsForUpdateStatus (test_handler gen) = Server_GetTorrentsForUpdateStatus"
  by (simp_all add: test_handler_def)

lemma whole_comes:
  assumes "client_step api lt ds fresh uuid (K_Begin x) (n\<lparr>nd_client := g, nd_pc := K_Begin x\<rparr>, srv)
      = Some (whole_task api (controller_cb lt ds fresh uuid) x (n\<lparr>nd_client := g, nd_pc := K_Begin x\<rparr>, srv))"
    and "run_body (world_stub api) (controller_cb lt ds fresh uuid) x (g, node_world (n\<lparr>nd_client := g, nd_pc := K_Begin x\<rparr>) srv) = (Ret (), (g1, w))"
  shows "comes api lt ds fresh uuid (n\<lparr>nd_client := g, nd_pc := K_Begin x\<rparr>, srv) (Ret ()) (n\<lparr>nd_client := g1, nd_pc := K_Idle\<rparr>, wo_srv w)"
  using assms by (intro comes_step) (simp add: whole_task_def)

lemma shakes_hands:
  assumes "at_work v g d q" and "Server_Handshake u srv = (di, srv1)"
  shows "\<exists>g1. comes (test_api gen) lt ds fresh (Inr u) (n\<lparr>nd_client := g, nd_pc := K_Begin MAKE_HANDSHAKE\<rparr>, srv) (Ret ())
      (n\<lparr>nd_client := g1, nd_pc := K_Idle\<rparr>, srv1) \<and> at_work u g1 d (q @ [UPDATE_TASK_LIST])"
proof -
  let ?n = "n\<lparr>nd_client := g, nd_pc := K_Begin MAKE_HANDSHAKE\<rparr>" and ?g = "AddTask UPDATE_TASK_LIST (g\<lparr>g_info := di\<rparr>)"
  have di: "di_authStatus di = Auth_OK" "di_uuid di = u" using assms(2) by (auto simp: Server_Handshake_def Let_def split: if_splits)
  have "run_body (world_stub (test_api gen)) (controller_cb lt ds fresh (Inr u)) MAKE_HANDSHAKE (g, node_world ?n srv)
      = (Ret (), (?g, (node_world ?n srv)\<lparr>wo_srv := srv1\<rparr>))"
    using assms di(1) by (simp add: HandshakeTask_def GetClientUUID_def controller_cb_def on_srv_def at_work_def) (simp add: node_world_def)
  from whole_comes [OF _ this] have "comes (test_api gen) lt ds fresh (Inr u) (?n, srv) (Ret ()) (n\<lparr>nd_client := ?g, nd_pc := K_Idle\<rparr>, srv1)"
    by simp
  moreover have "at_work u ?g d (q @ [UPDATE_TASK_LIST])"
    using assms(1) di(2) by (intro at_work_AddTask(1)) (simp_all add: at_work_def)
  ultimately show ?thesis by blast
qed

lemma polls:
  assumes "at_work u g d q" and "Server_GetTaskList (g_info g) srv = (ts, srv1)" and "list_all (\<lambda>t. CreateTask t = Some t) ts"
  shows "\<exists>g1. comes (test_api gen) lt ds fresh uuid (n\<lparr>nd_client := g, nd_pc := K_Begin UPDATE_TASK_LIST\<rparr>, srv) (Ret ())
      (n\<lparr>nd_client := g1, nd_pc := K_Idle\<rparr>, srv1) \<and> at_work u g1 d (q @ ts)"
proof -
  let ?n = "n\<lparr>nd_client := g, nd_pc := K_Begin UPDATE_TASK_LIST\<rparr>" and ?g = "fold AddTask ts g"
  let ?g1 = "AddTaskAfterTimeOut UPDATE_TASK_LIST (update_delay ?g) ?g"
  have "run_body (world_stub (test_api gen)) (controller_cb lt ds fresh uuid) UPDATE_TASK_LIST (g, node_world ?n srv)
      = (Ret (), (?g1, (node_world ?n srv)\<lparr>wo_srv := srv1\<rparr>))"
    using assms(1,2) by (simp add: UpdateTasksTask_def on_srv_def at_work_def IsRun_def GetClientInfo_def Let_def) (simp add: node_world_def)
  from whole_comes [OF _ this] have "comes (test_api gen) lt ds fresh uuid (?n, srv) (Ret ()) (n\<lparr>nd_client := ?g1, nd_pc := K_Idle\<rparr>, srv1)"
    by simp
  moreover have "at_work u ?g1 d (q @ ts)" by (rule at_work_AddTask(2) [OF at_work_fold [OF assms(1,3)]])
  ultimately show ?thesis by blast
qed

lemma ask_unknown:
  assumes "engine_ok t" and "view (t_mgr t) k = None"
  shows "\<exists>t1. status_of k t = (Some UNKNOWN, t1) \<and> engine_ok t1 \<and> view (t_mgr t1) k = None \<and> t_fs t1 = t_fs t \<and> t_session t1 = t_session t"
  using status_of_effect [OF assms(1), of k] assms(2)
  by (intro exI [of _ "snd (status_of k t)"]) (simp add: prod_eq_iff, simp add: status_of_def split_def Let_def)

lemma generates:
  assumes "at_work u g d q" and "Server_GetInfoForGenerateTorrents gen (g_info g) srv = ([ti], srv1)"
    and "gs_request (nd_gens n) = None" and "engine_ok (gs_engine (nd_gens n))" and "view (t_mgr (gs_engine (nd_gens n))) (ri_id ti) = None"
  shows "\<exists>g1 t. comes (test_api gen) lt ds fresh uuid (n\<lparr>nd_client := g, nd_pc := K_Begin GENERATE_MAGENT\<rparr>, srv) (Ret ())
      (n\<lparr>nd_client := g1, nd_pc := K_Idle, nd_gens := (nd_gens n)\<lparr>gs_engine := t, gs_request := None,
         gs_threads := gs_threads (nd_gens n) @ [(ri_id ti, ri_pathToProject ti, J_Create)]\<rparr>\<rparr>, srv1)
    \<and> at_work u g1 d q \<and> engine_ok t \<and> view (t_mgr t) (ri_id ti) = None \<and> t_fs t = t_fs (gs_engine (nd_gens n))
    \<and> t_session t = t_session (gs_engine (nd_gens n))"
proof -
  let ?s = "nd_gens n" and ?k = "ri_id ti"
  obtain t1 where t1: "status_of ?k (gs_engine ?s) = (Some UNKNOWN, t1)" "engine_ok t1" "view (t_mgr t1) ?k = None"
    "t_fs t1 = t_fs (gs_engine ?s)" "t_session t1 = t_session (gs_engine ?s)"
    using ask_unknown [OF assms(4,5)] by blast
  obtain t2 where t2: "status_of ?k t1 = (Some UNKNOWN, t2)" "engine_ok t2" "view (t_mgr t2) ?k = None"
    "t_fs t2 = t_fs (gs_engine ?s)" "t_session t2 = t_session (gs_engine ?s)"
    using ask_unknown [OF t1(2,3)] t1(4,5) by auto
  let ?g = "AddTaskAfterTimeOut UPDATE_TORRENT_STATUS 30 g"
  let ?n = "n\<lparr>nd_client := ?g, nd_pc := K_Idle, nd_gens := ?s\<lparr>gs_engine := t2, gs_request := None,
         gs_threads := gs_threads ?s @ [(?k, ri_pathToProject ti, J_Create)]\<rparr>\<rparr>"
  have "client_iter (test_api gen) lt ds fresh uuid 4 (n\<lparr>nd_client := g, nd_pc := K_Begin GENERATE_MAGENT\<rparr>, srv) = Some (Ret (), (?n, srv1))"
    using assms(1-3) t1(1) t2(1)
    by (simp add: eval_nat_numeral ask_def on_gens_def at_work_def GetClientInfo_def)
  moreover have "at_work u ?g d q" using assms(1) by (rule at_work_AddTask(2))
  ultimately show ?thesis unfolding comes_def using t2(2-5) by blast
qed

lemma reports:
  assumes "at_work u g d q" and "Server_GetTorrentsForUpdateStatus (g_info g) srv = ([ti], srv1)"
    and "engine_ok (gs_engine (nd_gens n))" and "view (t_mgr (gs_engine (nd_gens n))) (ri_id ti) = Some i"
  shows "\<exists>s. comes (test_api gen) lt ds fresh uuid (n\<lparr>nd_client := g, nd_pc := K_Begin UPDATE_TORRENT_STATUS\<rparr>, srv) (Ret ())
      (n\<lparr>nd_client := g, nd_pc := K_Idle, nd_gens := s\<rparr>, Server_UpdateTorrentStatus (g_info g) (ConvertTorrentInfo i) srv1)"
proof -
  let ?s = "nd_gens n" and ?n = "\<lambda>pc s. n\<lparr>nd_client := g, nd_pc := pc, nd_gens := s\<rparr>"
  obtain p where p: "map_find (m_list (t_mgr (gs_engine ?s))) (ri_id ti) = Some p"
    using assms(4) by (auto simp: view_def split: option.splits)
  note known = bound_known [OF engine_okD(2) [OF assms(3)] p [folded bound_def] assms(4)]
  let ?s0 = "?s\<lparr>gs_copy := Some (p, 0, TorrentInfo '''')\<rparr>" and ?s6 = "?s\<lparr>gs_copy := Some (p, length copy_calls, i)\<rparr>"
  have "client_iter (test_api gen) lt ds fresh uuid 2 (n\<lparr>nd_client := g, nd_pc := K_Begin UPDATE_TORRENT_STATUS\<rparr>, srv)
      = Some (Ret (), (?n (K_Copy []) ?s0, srv1))"
    using assms(1,2) known(1) by (simp add: numeral_2_eq_2 ask_def on_gens_def at_work_def GetClientInfo_def)
  then have c1: "comes (test_api gen) lt ds fresh uuid (n\<lparr>nd_client := g, nd_pc := K_Begin UPDATE_TORRENT_STATUS\<rparr>, srv) (Ret ())
      (?n (K_Copy []) ?s0, srv1)" unfolding comes_def by blast
  have c2: "comes (test_api gen) lt ds fresh uuid (?n (K_Copy []) ?s0, srv1) (Ret ()) (?n (K_Send (ConvertTorrentInfo i) []) ?s6, srv1)"
    unfolding comes_def
    by (rule exI [of _ 6])
      (simp add: eval_nat_numeral on_gens_def known(2) copy_calls_def ConvertTorrentInfo_def TorrentInfo_def)
  have "client_iter (test_api gen) lt ds fresh uuid 2 (?n (K_Send (ConvertTorrentInfo i) []) ?s6, srv1)
      = Some (Ret (), (?n K_Idle ?s6, Server_UpdateTorrentStatus (g_info g) (ConvertTorrentInfo i) srv1))"
    using assms(1) by (simp add: numeral_2_eq_2 send_def UpdateTorrentStatus_def at_work_def GetClientInfo_def)
  then have "comes (test_api gen) lt ds fresh uuid (?n (K_Send (ConvertTorrentInfo i) []) ?s6, srv1) (Ret ())
      (?n K_Idle ?s6, Server_UpdateTorrentStatus (g_info g) (ConvertTorrentInfo i) srv1)" unfolding comes_def by blast
  from comes_trans [OF c1 comes_trans [OF c2 this]] show ?thesis by blast
qed

lemma downloads:
  assumes "at_work u g d q" and "Server_GetTorrentsForDownload (g_info g) srv = ([ti], srv1)"
    and "DownloadAsync lt ds fresh (ri_id ti) (ri_link ti) (gs_engine (nd_gens n)) = (Ret (), t)"
  shows "\<exists>g1. comes (test_api gen) lt ds fresh uuid (n\<lparr>nd_client := g, nd_pc := K_Begin DOWNLOAD_TORRENT\<rparr>, srv) (Ret ())
      (n\<lparr>nd_client := g1, nd_pc := K_Idle, nd_gens := (nd_gens n)\<lparr>gs_engine := t\<rparr>\<rparr>, srv1) \<and> at_work u g1 d (q @ [UPDATE_TORRENT_STATUS])"
proof -
  let ?g = "AddTask UPDATE_TORRENT_STATUS g"
  have "client_iter (test_api gen) lt ds fresh uuid 3 (n\<lparr>nd_client := g, nd_pc := K_Begin DOWNLOAD_TORRENT\<rparr>, srv)
      = Some (Ret (), (n\<lparr>nd_client := ?g, nd_pc := K_Idle, nd_gens := (nd_gens n)\<lparr>gs_engine := t\<rparr>\<rparr>, srv1))"
    using assms by (simp add: eval_nat_numeral ask_def on_gens_def at_work_def GetClientInfo_def)
  moreover have "at_work u ?g d (q @ [UPDATE_TORRENT_STATUS])" using assms(1) by (intro at_work_AddTask(1)) simp_all
  ultimately show ?thesis unfolding comes_def by blast
qed

section \<open>The run\<close>

text \<open>A thread that runs alone generates its torrent.\<close>

lemma thread_generates:
  assumes "engine_ok t" and "t_session t" and "k \<noteq> ''''" and "view (t_mgr t) k = None"
    and "encodes lt (t_fs t) path files pieces e"
    and "WriteTorrent lt ds e (GetFileName path) (t_fs t) = (Inr file, fs1)" and "lt_torrent_info lt fs1 file = Inr x"
  shows "\<exists>t3 i. comes_to lt ds fresh k path (J_Create, t) (J_Done, t3) \<and> view (t_mgr t3) k = Some i \<and> tId i = k
    \<and> tStatus i = GENERATED \<and> tLink i = lt_magnet lt x"
proof -
  let ?p = "fst (Create k (t_mgr t))" and ?m = "create_s4 k path pieces (lt_num_pieces lt files) (t_mgr t)"
  let ?t2 = "t\<lparr>t_mgr := ?m, t_fs := fs1\<rparr>"
  note A = create_s4_facts [OF engine_okD(2) [OF assms(1)], where uuid = k and path = path and pieces = pieces
      and n = "lt_num_pieces lt files"]
  obtain i where i: "view ?m k = Some i" "tId i = k" using A(4) assms(4) by auto
  have wr: "WriteTorrent lt ds e (GetFileName path) (t_fs (t\<lparr>t_mgr := ?m\<rparr>)) = (Inr file, fs1)" using assms(6) by simp
  have c: "comes_to lt ds fresh k path (J_Create, t) (J_Read ?p, ?t2)"
    using comes_to_trans [OF comes_to_folder comes_to_written(1) [OF wr]] assms(5) by (simp add: encodes_def)
  obtain t3 where t3: "comes_to lt ds fresh k path (J_Read ?p, ?t2) (J_Done, t3)"
    "view (t_mgr t3) k = Some (generated_info (lt_magnet lt x) (torrent_file ds path) i)"
    using comes_to_generated [of ?t2 k ?p lt ds path x fresh] A(1,2) assms(2,3,7) comes_to_written(2) [OF wr] i(1) by auto
  from comes_to_trans [OF c t3(1)] t3(2) i(2) show ?thesis
    by (intro exI [of _ t3] exI) (auto simp: generated_info_def)
qed

text \<open>What the server answers on the way; of the credentials it looks at the UUID alone.\<close>

definition server_scene :: "(nat \<Rightarrow> string) \<Rightarrow> string \<Rightarrow> string \<Rightarrow> rpc_tinfo \<Rightarrow> server \<Rightarrow> server \<Rightarrow> server \<Rightarrow> server \<Rightarrow> bool" where
  "server_scene gen a b T S1 S2 S3 S4 \<longleftrightarrow> snd (Server_Handshake a server_new) = S1 \<and> snd (Server_Handshake b S3) = S4
    \<and> (\<forall>A. di_uuid A = a \<longrightarrow> Server_GetTaskList A S1 = ([GENERATE_MAGENT, UPDATE_TORRENT_STATUS], S2)
        \<and> Server_GetInfoForGenerateTorrents gen A S2 = ([T], S3) \<and> Server_GetTorrentsForUpdateStatus A S4 = ([T], S4))"

definition server_offer :: "string \<Rightarrow> string \<Rightarrow> rpc_tinfo \<Rightarrow> server \<Rightarrow> server \<Rightarrow> server \<Rightarrow> server \<Rightarrow> bool" where
  "server_offer a b R S4 S5 S6 S7 \<longleftrightarrow> (\<forall>A. di_uuid A = a \<longrightarrow> Server_UpdateTorrentStatus A R S4 = S5)
    \<and> map_find (sv_t2Download S5) b = Some [R]
    \<and> (\<forall>B. di_uuid B = b \<longrightarrow> Server_GetTaskList B S5 = ([DOWNLOAD_TORRENT], S6) \<and> Server_GetTorrentsForDownload B S6 = ([R], S7))"

lemma server_scenes:
  fixes gen :: "nat \<Rightarrow> string"
  assumes "a \<noteq> b"
  defines "T \<equiv> tinfo_message\<lparr>ri_id := gen 0, ri_pathToProject := ''/opt/VerAI/projects/1''\<rparr>"
  shows "\<exists>S1 S2 S3 S4. server_scene gen a b T S1 S2 S3 S4
    \<and> (\<forall>R. ri_status R = RS_GENERATED \<and> ri_link R \<noteq> '''' \<and> ri_id R = gen 0 \<longrightarrow> (\<exists>S5 S6 S7. server_offer a b R S4 S5 S6 S7))"
proof -
  let ?S1 = "server_new\<lparr>sv_uuids := [a], sv_tasks := [(a, [GENERATE_MAGENT, UPDATE_TORRENT_STATUS])], sv_isFirst := False\<rparr>"
  let ?S2 = "?S1\<lparr>sv_tasks := []\<rparr>"
  let ?S3 = "?S2\<lparr>sv_t2Update := [(a, [T])], sv_generated := 1\<rparr>"
  let ?S4 = "?S3\<lparr>sv_uuids := insort b [a]\<rparr>"
  have s1: "snd (Server_Handshake a server_new) = ?S1" by (simp add: server_new_def server_eval)
  have s4: "snd (Server_Handshake b ?S3) = ?S4"
    using assms(1) by (auto simp add: server_new_def server_eval)
  have A: "Server_GetTaskList A ?S1 = ([GENERATE_MAGENT, UPDATE_TORRENT_STATUS], ?S2)"
    "Server_GetInfoForGenerateTorrents gen A ?S2 = ([T], ?S3)" "Server_GetTorrentsForUpdateStatus A ?S4 = ([T], ?S4)"
    if "di_uuid A = a" for A
    using that by (simp_all add: server_new_def Server_GetTaskList_def Server_GetInfoForGenerateTorrents_def
        Server_GetTorrentsForUpdateStatus_def server_eval T_def)
  have scene: "server_scene gen a b T ?S1 ?S2 ?S3 ?S4"
    unfolding server_scene_def by (intro conjI allI impI) (rule s1 s4 A, assumption?)+
  have "\<exists>S5 S6 S7. server_offer a b R ?S4 S5 S6 S7" if R: "ri_status R = RS_GENERATED \<and> ri_link R \<noteq> '''' \<and> ri_id R = gen 0" for R
  proof -
    let ?S5 = "?S4\<lparr>sv_tasks := [(b, [DOWNLOAD_TORRENT])], sv_t2Download := [(b, [R])], sv_t2Update := [(a, [])]\<rparr>"
    let ?S6 = "?S5\<lparr>sv_tasks := []\<rparr>"
    have r: "Server_UpdateTorrentStatus A R ?S4 = ?S5" if "di_uuid A = a" for A
      using assms R that by (auto simp: server_new_def server_eval)
    have B: "Server_GetTaskList B ?S5 = ([DOWNLOAD_TORRENT], ?S6)"
      "Server_GetTorrentsForDownload B ?S6 = ([R], snd (Server_GetTorrentsForDownload (demo_di b) ?S6))" if "di_uuid B = b" for B
      using that by (simp_all add: Server_GetTaskList_def Server_GetTorrentsForDownload_def demo_di_def Let_def)
    have f: "map_find (sv_t2Download ?S5) b = Some [R]" by simp
    have "server_offer a b R ?S4 ?S5 ?S6 (snd (Server_GetTorrentsForDownload (demo_di b) ?S6))"
      unfolding server_offer_def by (intro conjI allI impI) (rule r f B, assumption?)+
    then show ?thesis by blast
  qed
  with scene show ?thesis by blast
qed

definition can_generate :: "('en, 'ti) lt_api \<Rightarrow> dirs \<Rightarrow> fsys \<Rightarrow> string \<Rightarrow> 'ti \<Rightarrow> bool" where
  "can_generate lt ds fs path x \<longleftrightarrow> (\<exists>files pieces e file fs1. encodes lt fs path files pieces e
     \<and> WriteTorrent lt ds e (GetFileName path) fs = (Inr file, fs1) \<and> lt_torrent_info lt fs1 file = Inr x)"

lemma take_first:
  assumes "at_work u g [] (x # q)"
  shows "\<exists>g1. comes api lt ds fresh uuid (n\<lparr>nd_client := g, nd_pc := K_Idle\<rparr>, srv) (Ret ()) (n\<lparr>nd_client := g1, nd_pc := K_Begin x\<rparr>, srv)
    \<and> at_work u g1 q []"
  using take_tasks [of u "n\<lparr>nd_client := g, nd_pc := K_Idle\<rparr>" x q api lt ds fresh uuid srv] assms by auto

text \<open>A daemon starts and shakes hands; then it polls and begins the first of its tasks.\<close>

lemma starts_and_shakes:
  fixes lt :: "('en, 'ti) lt_api"
  assumes "snd (Server_Handshake u srv) = srv1"
  shows "\<exists>g. comes (test_api gen) lt ds fresh (Inr u) (node_new fs h p, srv) (Ret ()) ((node_new fs h p)\<lparr>nd_client := g, nd_pc := K_Idle\<rparr>, srv1)
    \<and> at_work u g [] [UPDATE_TASK_LIST]"
proof -
  let ?n = "node_new fs h p :: ('en, 'ti) node"
  obtain g where g: "comes (test_api gen) lt ds fresh (Inr u) (?n, srv) (Ret ()) (?n\<lparr>nd_client := g, nd_pc := K_Begin MAKE_HANDSHAKE\<rparr>, srv)"
    "at_work '''' g [] []"
    using starts_work [where api = "test_api gen" and lt = lt and ds = ds and fresh = fresh and uuid = "Inr u" and fs = fs and h = h
        and p = p and srv = srv] by blast
  obtain di where "Server_Handshake u srv = (di, srv1)" using assms by (metis prod.collapse)
  from shakes_hands [OF g(2) this, of gen lt ds fresh ?n] obtain g1 where
    "comes (test_api gen) lt ds fresh (Inr u) (?n\<lparr>nd_client := g, nd_pc := K_Begin MAKE_HANDSHAKE\<rparr>, srv) (Ret ())
      (?n\<lparr>nd_client := g1, nd_pc := K_Idle\<rparr>, srv1)" "at_work u g1 [] [UPDATE_TASK_LIST]" by auto
  with comes_trans [OF g(1)] show ?thesis by blast
qed

lemma polls_and_begins:
  assumes "at_work u g [] [UPDATE_TASK_LIST]" and "\<forall>A. di_uuid A = u \<longrightarrow> Server_GetTaskList A srv = (x # ts, srv1)"
    and "list_all (\<lambda>t. CreateTask t = Some t) (x # ts)"
  shows "\<exists>g1. comes (test_api gen) lt ds fresh uuid (n\<lparr>nd_client := g, nd_pc := K_Idle\<rparr>, srv) (Ret ()) (n\<lparr>nd_client := g1, nd_pc := K_Begin x\<rparr>, srv1)
    \<and> at_work u g1 ts []"
proof -
  obtain g1 where g1: "comes (test_api gen) lt ds fresh uuid (n\<lparr>nd_client := g, nd_pc := K_Idle\<rparr>, srv) (Ret ())
      (n\<lparr>nd_client := g1, nd_pc := K_Begin UPDATE_TASK_LIST\<rparr>, srv)" "at_work u g1 [] []"
    using take_first [OF assms(1), of "test_api gen" lt ds fresh uuid n srv] by blast
  have "Server_GetTaskList (g_info g1) srv = (x # ts, srv1)" using assms(2) g1(2) by (simp add: at_work_def)
  from polls [OF g1(2) this assms(3), of gen lt ds fresh uuid n] obtain g2 where
    g2: "comes (test_api gen) lt ds fresh uuid (n\<lparr>nd_client := g1, nd_pc := K_Begin UPDATE_TASK_LIST\<rparr>, srv) (Ret ())
      (n\<lparr>nd_client := g2, nd_pc := K_Idle\<rparr>, srv1)" "at_work u g2 [] (x # ts)" by auto
  obtain g3 where "comes (test_api gen) lt ds fresh uuid (n\<lparr>nd_client := g2, nd_pc := K_Idle\<rparr>, srv1) (Ret ())
      (n\<lparr>nd_client := g3, nd_pc := K_Begin x\<rparr>, srv1)" "at_work u g3 ts []"
    using take_first [OF g2(2), of "test_api gen" lt ds fresh uuid n srv1] by blast
  with comes_trans [OF g1(1) comes_trans [OF g2(1)]] show ?thesis by blast
qed

text \<open>The first daemon, up to the start of its thread.\<close>

lemma first_generates:
  fixes lt :: "('en, 'ti) lt_api"
  assumes "snd (Server_Handshake a srv) = S1" and "fs_ok fs"
    and "\<forall>A. di_uuid A = a \<longrightarrow> Server_GetTaskList A S1 = ([GENERATE_MAGENT, UPDATE_TORRENT_STATUS], S2)
      \<and> Server_GetInfoForGenerateTorrents gen A S2 = ([T], S3)"
  shows "\<exists>n g t. comes (test_api gen) lt ds fresh (Inr a) (node_new fs h p, srv) (Ret ()) (n\<lparr>nd_client := g, nd_pc := K_Idle\<rparr>, S3)
    \<and> at_work a g [UPDATE_TORRENT_STATUS] [] \<and> gs_engine (nd_gens n) = t \<and> gs_threads (nd_gens n) = [(ri_id T, ri_pathToProject T, J_Create)]
    \<and> engine_ok t \<and> view (t_mgr t) (ri_id T) = None \<and> t_fs t = fs \<and> t_session t"
proof -
  let ?n = "node_new fs h p :: ('en, 'ti) node"
  have ok: "engine_ok (gs_engine (nd_gens ?n))"
    using node_new_ok [OF assms(2), of lt a h p] by (simp add: node_ok_def engine_linked_def gens_ok_def)
  have new: "gs_request (nd_gens ?n) = None" "view (t_mgr (gs_engine (nd_gens ?n))) (ri_id T) = None" "gs_threads (nd_gens ?n) = []"
    "t_fs (gs_engine (nd_gens ?n)) = fs" "t_session (gs_engine (nd_gens ?n))"
    by (simp_all add: node_new_def Controller_Start_def Torrent_Start_def engine_init_def IsWork_def)
  obtain g where g: "comes (test_api gen) lt ds fresh (Inr a) (?n, srv) (Ret ()) (?n\<lparr>nd_client := g, nd_pc := K_Idle\<rparr>, S1)"
    "at_work a g [] [UPDATE_TASK_LIST]" using starts_and_shakes [OF assms(1), of gen lt ds fresh fs h p] by blast
  obtain g1 where g1: "comes (test_api gen) lt ds fresh (Inr a) (?n\<lparr>nd_client := g, nd_pc := K_Idle\<rparr>, S1) (Ret ())
      (?n\<lparr>nd_client := g1, nd_pc := K_Begin GENERATE_MAGENT\<rparr>, S2)" "at_work a g1 [UPDATE_TORRENT_STATUS] []"
    using polls_and_begins [OF g(2), of S1 GENERATE_MAGENT "[UPDATE_TORRENT_STATUS]" S2 gen lt ds fresh "Inr a" ?n] assms(3) by auto
  have "Server_GetInfoForGenerateTorrents gen (g_info g1) S2 = ([T], S3)" using assms(3) g1(2) by (simp add: at_work_def)
  from generates [where lt = lt and ds = ds and fresh = fresh and uuid = "Inr a", OF g1(2) this new(1) ok new(2)] new(3-5) obtain g2 t where
    g2: "comes (test_api gen) lt ds fresh (Inr a) (?n\<lparr>nd_client := g1, nd_pc := K_Begin GENERATE_MAGENT\<rparr>, S2) (Ret ())
      (?n\<lparr>nd_client := g2, nd_pc := K_Idle, nd_gens := (nd_gens ?n)\<lparr>gs_engine := t, gs_request := None,
         gs_threads := [(ri_id T, ri_pathToProject T, J_Create)]\<rparr>\<rparr>, S3)"
    "at_work a g2 [UPDATE_TORRENT_STATUS] []" "engine_ok t" "view (t_mgr t) (ri_id T) = None" "t_fs t = fs" "t_session t" by auto
  let ?m = "?n\<lparr>nd_client := g2, nd_pc := K_Idle, nd_gens := (nd_gens ?n)\<lparr>gs_engine := t, gs_request := None,
         gs_threads := [(ri_id T, ri_pathToProject T, J_Create)]\<rparr>\<rparr>"
  have same: "?m\<lparr>nd_client := g2, nd_pc := K_Idle\<rparr> = ?m" by simp
  from comes_trans [OF g(1) comes_trans [OF g1(1) g2(1)]] g2(2-6) show ?thesis
    by (intro exI [of _ ?m] exI [of _ g2] exI [of _ t]) (simp only: same, simp)
qed

text \<open>The server offers the torrent of the first daemon to the second.\<close>

lemma fleet_offers:
  fixes lt :: "('en, 'ti) lt_api"
  assumes "lt_sound lt" and "qsort_spec srt" and "\<And>i. fs_ok (fs i)" and "uuid 0 \<noteq> uuid (1::nat)" and "gen 0 \<noteq> ''''"
    and "can_generate lt (ds 0) (fs 0) ''/opt/VerAI/projects/1'' x" and "lt_magnet lt x \<noteq> ''''"
  shows "\<exists>f g R S6 S7. fleet_reach srt gen lt ds uuid fs f \<and> fl_end f = (\<lambda>_. Ret ()) \<and> fl_again f = (\<lambda>_. False)
    \<and> fl_node f 1 = (node_new (fs 1) ''localhost'' ''50051'')\<lparr>nd_client := g, nd_pc := K_Idle\<rparr> \<and> at_work (uuid 1) g [] [UPDATE_TASK_LIST]
    \<and> ri_id R = gen 0 \<and> ri_link R = lt_magnet lt x
    \<and> map_find (sv_t2Download (fl_srv f)) (uuid 1) = Some [R]
    \<and> (\<forall>B. di_uuid B = uuid 1 \<longrightarrow> Server_GetTaskList B (fl_srv f) = ([DOWNLOAD_TORRENT], S6) \<and> Server_GetTorrentsForDownload B S6 = ([R], S7))"
proof -
  let ?F = "fleet_start fs :: ('en, 'ti) fleet" and ?a = "uuid 0" and ?b = "uuid 1"
  let ?T = "tinfo_message\<lparr>ri_id := gen 0, ri_pathToProject := ''/opt/VerAI/projects/1''\<rparr>"
  let ?new = "\<lambda>i. node_new (fs i) ''localhost'' ''50051'' :: ('en, 'ti) node"
  obtain S1 S2 S3 S4 where scene: "server_scene gen ?a ?b ?T S1 S2 S3 S4"
    "\<forall>R. ri_status R = RS_GENERATED \<and> ri_link R \<noteq> '''' \<and> ri_id R = gen 0 \<longrightarrow> (\<exists>S5 S6 S7. server_offer ?a ?b R S4 S5 S6 S7)"
    using server_scenes [OF assms(4), of gen] by blast
  note sc = scene(1) [unfolded server_scene_def]
  have F: "fl_end ?F = (\<lambda>_. Ret ())" "fl_again ?F = (\<lambda>_. False)" "fl_srv ?F = server_new" "fl_node ?F = ?new"
    by (simp_all add: fleet_start_def)
  obtain n g t where A: "comes (test_api gen) lt (ds 0) '''' (Inr ?a) (?new 0, server_new) (Ret ()) (n\<lparr>nd_client := g, nd_pc := K_Idle\<rparr>, S3)"
    "at_work ?a g [UPDATE_TORRENT_STATUS] []" "gs_engine (nd_gens n) = t" "gs_threads (nd_gens n) = [(gen 0, ''/opt/VerAI/projects/1'', J_Create)]"
    "engine_ok t" "view (t_mgr t) (gen 0) = None" "t_fs t = fs 0" "t_session t"
    using first_generates [of ?a server_new S1 "fs 0" S2 gen ?T S3 lt "ds 0" "''''" "''localhost''" "''50051''"] assms(3) sc by auto
  let ?n1 = "n\<lparr>nd_client := g, nd_pc := K_Idle\<rparr>" and ?F1 = "upd 0 (n\<lparr>nd_client := g, nd_pc := K_Idle\<rparr>) S3 ?F"
  have r1: "fleet_reach srt gen lt ds uuid fs ?F1"
    by (rule reach_client [OF fleet_reach.Begin]) (use F A(1) in simp_all)
  obtain gb where B: "comes (test_api gen) lt (ds 1) '''' (Inr ?b) (?new 1, S3) (Ret ()) ((?new 1)\<lparr>nd_client := gb, nd_pc := K_Idle\<rparr>, S4)"
    "at_work ?b gb [] [UPDATE_TASK_LIST]"
    using starts_and_shakes [of ?b S3 S4 gen lt "ds 1" "''''" "fs 1" "''localhost''" "''50051''"] sc by auto
  let ?F2 = "upd 1 ((?new 1)\<lparr>nd_client := gb, nd_pc := K_Idle\<rparr>) S4 ?F1"
  have r2: "fleet_reach srt gen lt ds uuid fs ?F2"
    by (rule reach_client [OF r1]) (use F B(1) in simp_all)
  have "can_generate lt (ds 0) (t_fs t) ''/opt/VerAI/projects/1'' x" using assms(6) A(7) by simp
  then obtain files pieces e tf fs1 where p: "encodes lt (t_fs t) ''/opt/VerAI/projects/1'' files pieces e"
    "WriteTorrent lt (ds 0) e (GetFileName ''/opt/VerAI/projects/1'') (t_fs t) = (Inr tf, fs1)" "lt_torrent_info lt fs1 tf = Inr x"
    unfolding can_generate_def by blast
  obtain t3 i where G: "comes_to lt (ds 0) '''' (gen 0) ''/opt/VerAI/projects/1'' (J_Create, t) (J_Done, t3)"
    "view (t_mgr t3) (gen 0) = Some i" "tId i = gen 0" "tStatus i = GENERATED" "tLink i = lt_magnet lt x"
    using thread_generates [OF A(5,8) assms(5) A(6) p, of "''''"] by blast
  let ?s3 = "(nd_gens n)\<lparr>gs_engine := t3, gs_threads := [(gen 0, ''/opt/VerAI/projects/1'', J_Done)]\<rparr>"
  obtain m where "gen_run lt (ds 0) (replicate m (Gn_Run 0 '''')) (nd_gens n) = Some (Ret (), ?s3)"
    using gen_run_thread [of lt "ds 0" "''''" "gen 0" "''/opt/VerAI/projects/1''" _ J_Create "nd_gens n" J_Done t3 0] G(1) A(3,4)
    unfolding comes_to_def by auto
  then have "fleet_reach srt gen lt ds uuid fs (upd 0 ((fl_node ?F2 0)\<lparr>nd_gens := ?s3\<rparr>) (fl_srv ?F2) ?F2)"
    by (intro reach_thread [OF r2]) (use F in simp_all)
  then have r3: "fleet_reach srt gen lt ds uuid fs (upd 0 (?n1\<lparr>nd_gens := ?s3\<rparr>) S4 ?F2)" by simp
  let ?F3 = "upd 0 (?n1\<lparr>nd_gens := ?s3\<rparr>) S4 ?F2"
  have "node_ok lt ?a (?n1\<lparr>nd_gens := ?s3\<rparr>)" using fleet_reach_ok [OF r3 assms(1-3)] by (auto simp: fleet_ok_def split: if_splits)
  then have ok3: "engine_ok t3" by (simp add: node_ok_def engine_linked_def gens_ok_def)
  let ?R = "ConvertTorrentInfo i"
  have R: "ri_status ?R = RS_GENERATED" "ri_link ?R = lt_magnet lt x" "ri_id ?R = gen 0"
    using G(3-5) by (simp_all add: ConvertTorrentInfo_def)
  obtain S5 S6 S7 where offer: "server_offer ?a ?b ?R S4 S5 S6 S7" using scene(2) R assms(7) by metis
  note off = offer [unfolded server_offer_def]
  obtain g4 where N: "comes (test_api gen) lt (ds 0) '''' (Inr ?a) (?n1\<lparr>nd_gens := ?s3\<rparr>, S4) (Ret ())
      ((?n1\<lparr>nd_gens := ?s3\<rparr>)\<lparr>nd_client := g4, nd_pc := K_Begin UPDATE_TORRENT_STATUS\<rparr>, S4)" "at_work ?a g4 [] []"
    using next_task [of ?a "?n1\<lparr>nd_gens := ?s3\<rparr>" UPDATE_TORRENT_STATUS "[]" "[]" "test_api gen" lt "ds 0" "''''" "Inr ?a" S4] A(2) by auto
  have g4: "Server_GetTorrentsForUpdateStatus (g_info g4) S4 = ([?T], S4)" "Server_UpdateTorrentStatus (g_info g4) ?R S4 = S5"
    using sc off N(2) by (simp_all add: at_work_def)
  have v: "view (t_mgr (gs_engine (nd_gens (?n1\<lparr>nd_gens := ?s3\<rparr>)))) (ri_id ?T) = Some i" using G(2) by simp
  obtain s where "comes (test_api gen) lt (ds 0) '''' (Inr ?a)
      ((?n1\<lparr>nd_gens := ?s3\<rparr>)\<lparr>nd_client := g4, nd_pc := K_Begin UPDATE_TORRENT_STATUS\<rparr>, S4) (Ret ())
      ((?n1\<lparr>nd_gens := ?s3\<rparr>)\<lparr>nd_client := g4, nd_pc := K_Idle, nd_gens := s\<rparr>, S5)"
    using reports [OF N(2) g4(1) _ v, of gen lt "ds 0" "''''" "Inr ?a"] ok3 g4(2) by auto
  note c = comes_trans [OF N(1) this]
  let ?F4 = "upd 0 ((?n1\<lparr>nd_gens := ?s3\<rparr>)\<lparr>nd_client := g4, nd_pc := K_Idle, nd_gens := s\<rparr>) S5 ?F3"
  have "fleet_reach srt gen lt ds uuid fs ?F4"
    by (rule reach_client [OF r3]) (use F c in simp_all)
  moreover have "fl_end ?F4 = (\<lambda>_. Ret ())" "fl_again ?F4 = (\<lambda>_. False)" "fl_srv ?F4 = S5"
    "fl_node ?F4 1 = (?new 1)\<lparr>nd_client := gb, nd_pc := K_Idle\<rparr>" using F by simp_all
  ultimately show ?thesis using B(2) R(2,3) off
    by (intro exI [of _ ?F4] exI [of _ gb] exI [of _ ?R] exI [of _ S6] exI [of _ S7] conjI) simp_all
qed

section \<open>What holds in every fleet\<close>


text \<open>C12: what travels in a fleet is well-typed. Every torrent the server keeps to hand out was generated, has a link
  that libtorrent made, and a percentage; every report a daemon is about to send has a status that is one of
  the protocol's names, a percentage, and a link that is empty or one libtorrent made.\<close>

theorem fleet_typed:
  assumes "fleet_reach srt gen lt ds uuid fs f" and "lt_sound lt" and "qsort_spec srt" and "\<And>i. fs_ok (fs i)"
    and "ti \<in> set (sv_torrentDeque (fl_srv f)) \<or> map_find (sv_t2Download (fl_srv f)) u = Some v \<and> ti \<in> set v
      \<or> nd_pc (fl_node f i) = K_Send ti tis"
  shows "ri_status ti \<in> {RS_NONE, RS_DOWNLOADED, RS_DOWNLOADING, RS_GENERATED, RS_GENERATING, RS_PAUSED, RS_ERROR}
    \<and> ri_workProgress ti \<le> 100 \<and> (ri_link ti = '''' \<or> (\<exists>x. ri_link ti = lt_magnet lt x))
    \<and> (nd_pc (fl_node f i) \<noteq> K_Send ti tis \<longrightarrow> ri_status ti = RS_GENERATED \<and> ri_link ti \<noteq> '''')"
proof -
  have ok: "fleet_ok lt uuid f" by (rule fleet_reach_ok [OF assms(1-4)])
  then have "pc_ok lt (nd_pc (fl_node f i)) (nd_gens (fl_node f i))" by (simp add: fleet_ok_def node_ok_def)
  moreover have "offer_ok lt ti" if "ti \<in> offers (fl_srv f)" using that ok by (simp add: fleet_ok_def server_typed_def)
  ultimately have "report_ok lt ti \<and> (nd_pc (fl_node f i) \<noteq> K_Send ti tis \<longrightarrow> ri_status ti = RS_GENERATED \<and> ri_link ti \<noteq> '''')"
    using assms(5) by (auto simp: offers_def offer_ok_def)
  then show ?thesis by (cases "ri_status ti") (auto simp: report_ok_def magnets_def)
qed


text \<open>C2: a torrent goes from the daemon that generates it to the one that downloads it. In a fleet whose first daemon
  can generate the project it is told to, there is a run, in which no process ends, after which the second daemon
  has the torrent as \<open>DOWNLOADING\<close> under the id the server gave it, with the link libtorrent makes of the torrent
  file the first daemon wrote, and has handed exactly this link to its session.\<close>

theorem fleet_delivers:
  fixes lt :: "('en, 'ti) lt_api"
  assumes "lt_sound lt" and "qsort_spec srt" and "\<And>i. fs_ok (fs i)" and "uuid 0 \<noteq> uuid (1::nat)" and "gen 0 \<noteq> ''''"
    and "can_generate lt (ds 0) (fs 0) ''/opt/VerAI/projects/1'' x" and "lt_magnet lt x \<noteq> ''''"
  shows "\<exists>f t i param. fleet_reach srt gen lt ds uuid fs f \<and> fl_end f = (\<lambda>_. Ret ()) \<and> gs_engine (nd_gens (fl_node f 1)) = t
    \<and> view (t_mgr t) (gen 0) = Some i \<and> tStatus i = DOWNLOADING \<and> tLink i = lt_magnet lt x
    \<and> t_calls t = [Async_Add param] \<and> ap_url param = lt_magnet lt x"
proof -
  let ?n = "node_new (fs 1) ''localhost'' ''50051'' :: ('en, 'ti) node"
  obtain f g R S6 S7 where f: "fleet_reach srt gen lt ds uuid fs f" "fl_end f = (\<lambda>_. Ret ())"
    "fl_node f 1 = ?n\<lparr>nd_client := g, nd_pc := K_Idle\<rparr>" "at_work (uuid 1) g [] [UPDATE_TASK_LIST]"
    "ri_id R = gen 0" "ri_link R = lt_magnet lt x"
    "\<forall>B. di_uuid B = uuid 1 \<longrightarrow> Server_GetTaskList B (fl_srv f) = ([DOWNLOAD_TORRENT], S6) \<and> Server_GetTorrentsForDownload B S6 = ([R], S7)"
    using fleet_offers [of lt srt fs uuid gen ds x, OF assms] by (elim exE conjE) (rule that; assumption)
  obtain g1 where g1: "comes (test_api gen) lt (ds 1) '''' (Inr (uuid 1)) (?n\<lparr>nd_client := g, nd_pc := K_Idle\<rparr>, fl_srv f) (Ret ())
      (?n\<lparr>nd_client := g1, nd_pc := K_Begin DOWNLOAD_TORRENT\<rparr>, S6)" "at_work (uuid 1) g1 [] []"
    using polls_and_begins [OF f(4), of "fl_srv f" DOWNLOAD_TORRENT "[]" S6 gen lt "ds 1" "''''" "Inr (uuid 1)" ?n] f(7) by auto
  have ok: "engine_ok (gs_engine (nd_gens ?n))"
    using node_new_ok [OF assms(3), of lt "uuid 1" 1] by (simp add: node_ok_def engine_linked_def gens_ok_def)
  have new: "t_session (gs_engine (nd_gens ?n))" "t_calls (gs_engine (nd_gens ?n)) = []"
    by (simp_all add: node_new_def Controller_Start_def Torrent_Start_def engine_init_def IsWork_def)
  have "\<forall>y. \<exists>c. lt_parse_magnet lt (lt_magnet lt y) = Inr c" using assms(1) by (simp add: lt_sound_def)
  then obtain c where "lt_parse_magnet lt (lt_magnet lt x) = Inr c" by blast
  then have "lt_parse_magnet lt (lt_magnet lt x) = Inr (fst c, snd c)" by simp
  from DownloadAsync_success [OF ok new(1) assms(5) this, of "ds 1" "''''"] new(2) obtain t i param where
    t: "DownloadAsync lt (ds 1) '''' (gen 0) (lt_magnet lt x) (gs_engine (nd_gens ?n)) = (Ret (), t)"
      "view (t_mgr t) (gen 0) = Some i" "tStatus i = DOWNLOADING" "tLink i = lt_magnet lt x" "t_calls t = [Async_Add param]"
      "ap_url param = lt_magnet lt x" by auto
  have d: "Server_GetTorrentsForDownload (g_info g1) S6 = ([R], S7)" using f(7) g1(2) by (simp add: at_work_def)
  obtain g2 where g2: "comes (test_api gen) lt (ds 1) '''' (Inr (uuid 1)) (?n\<lparr>nd_client := g1, nd_pc := K_Begin DOWNLOAD_TORRENT\<rparr>, S6) (Ret ())
      (?n\<lparr>nd_client := g2, nd_pc := K_Idle, nd_gens := (nd_gens ?n)\<lparr>gs_engine := t\<rparr>\<rparr>, S7)"
    using downloads [OF g1(2) d, of lt "ds 1" "''''" ?n t gen "Inr (uuid 1)"] t(1) f(5,6) by auto
  let ?m = "?n\<lparr>nd_client := g2, nd_pc := K_Idle, nd_gens := (nd_gens ?n)\<lparr>gs_engine := t\<rparr>\<rparr>"
  have "fleet_reach srt gen lt ds uuid fs (upd 1 ?m S7 f)"
    by (rule reach_client [OF f(1)]) (use f(2,3) comes_trans [OF g1(1) g2] in simp_all)
  then show ?thesis using f(2) t(2-6)
    by (intro exI [of _ "upd 1 ?m S7 f"] exI [of _ t] exI [of _ i] exI [of _ param] conjI) simp_all
qed

section \<open>A concrete fleet\<close>

text \<open>Daemon \<open>i\<close> has \<open>i\<close> letters \<open>a\<close> for its UUID; all have the same folders and files.\<close>

definition demo_uuid :: "nat \<Rightarrow> string" where
  "demo_uuid i = replicate i CHR ''a''"

lemma demo_fleet:
  "lt_sound path_lt" "\<And>i :: nat. fs_ok path_fs" "demo_uuid 0 \<noteq> demo_uuid 1" "inj demo_uuid"
  "can_generate path_lt demo_dirs path_fs ''/opt/VerAI/projects/1'' ''/opt/VerAI/projects/1''"
  "lt_magnet path_lt ''/opt/VerAI/projects/1'' \<noteq> ''''"
proof -
  show "lt_sound path_lt" by (auto simp: lt_sound_def lt_pieces_ok_def path_lt_def demo_lt_def)
  show "\<And>i :: nat. fs_ok path_fs" by (rule path_fs_ok)
  show "demo_uuid 0 \<noteq> demo_uuid 1" by (simp add: demo_uuid_def)
  show "inj demo_uuid" by (rule injI) (metis demo_uuid_def length_replicate)
  show "lt_magnet path_lt ''/opt/VerAI/projects/1'' \<noteq> ''''" by (simp add: path_lt_sel)
  show "can_generate path_lt demo_dirs path_fs ''/opt/VerAI/projects/1'' ''/opt/VerAI/projects/1''"
    unfolding can_generate_def
  proof (intro exI conjI)
    let ?fs = "set_node [''t'', ''1.torrent''] (RegNode ''/opt/VerAI/projects/1'') path_fs"
    have f: "GetFileName ''/opt/VerAI/projects/1'' = ''1''" "resolve ''/t/1.torrent'' = [''t'', ''1.torrent'']" "\<not> needs_dir ''/t/1.torrent''"
      by (simp_all add: GetFileName_def resolve_def needs_dir_def)
    show "encodes path_lt path_fs ''/opt/VerAI/projects/1'' [''/opt/VerAI/projects/1''] [0] ''/opt/VerAI/projects/1''"
      by (simp add: encodes_def path_lt_sel)
    show "WriteTorrent path_lt demo_dirs ''/opt/VerAI/projects/1'' (GetFileName ''/opt/VerAI/projects/1'') path_fs = (Inr ''/t/1.torrent'', ?fs)"
      by (simp add: WriteTorrent_def Let_def path_file f CreateFolder_def sys_stat_def IsFileExist_def Remove_def
          sys_remove_def ofs_write_def can_write_def path_lt_sel path_fs_def is_dir_def demo_fs_sel set_node_def del_node_def)
    show "lt_torrent_info path_lt ?fs ''/t/1.torrent'' = Inr ''/opt/VerAI/projects/1''"
      by (simp add: path_lt_sel ifs_read_def sys_stat_def f)
  qed
qed

theorem fleet_delivers_witness:
  "\<exists>f t i. fleet_reach (sort_by ms_compare) (\<lambda>_. ''k'') path_lt (\<lambda>_. demo_dirs) demo_uuid (\<lambda>_. path_fs) f
    \<and> gs_engine (nd_gens (fl_node f 1)) = t \<and> view (t_mgr t) ''k'' = Some i \<and> tStatus i = DOWNLOADING
    \<and> tLink i = ''magnet:/opt/VerAI/projects/1''"
proof -
  have "(''k'' :: string) \<noteq> ''''" by simp
  from fleet_delivers [of path_lt "sort_by ms_compare" "\<lambda>_. path_fs" demo_uuid "\<lambda>_. ''k''" "\<lambda>_. demo_dirs" "''/opt/VerAI/projects/1''",
      OF demo_fleet(1) qsort_spec_sort_by demo_fleet(2,3) this demo_fleet(5,6)]
  show ?thesis by (simp add: path_lt_sel) blast
qed

text \<open>The state in which the server has the torrent for the second daemon.\<close>

lemma demo_offer:
  "\<exists>f R. fleet_reach (sort_by ms_compare) (\<lambda>_. ''k'') path_lt (\<lambda>_. demo_dirs) demo_uuid (\<lambda>_. path_fs) f
    \<and> fl_end f 1 = Ret () \<and> \<not> fl_again f 1 \<and> map_find (sv_t2Download (fl_srv f)) (demo_uuid 1) = Some [R]
    \<and> ri_link R = ''magnet:/opt/VerAI/projects/1'' \<and> nd_pc (fl_node f 1) = K_Idle"
proof -
  have "(''k'' :: string) \<noteq> ''''" by simp
  note F = fleet_offers [of path_lt "sort_by ms_compare" "\<lambda>_. path_fs" demo_uuid "\<lambda>_. ''k''" "\<lambda>_. demo_dirs" "''/opt/VerAI/projects/1''",
      OF demo_fleet(1) qsort_spec_sort_by demo_fleet(2,3) this demo_fleet(5,6)]
  then obtain f R where "fleet_reach (sort_by ms_compare) (\<lambda>_. ''k'') path_lt (\<lambda>_. demo_dirs) demo_uuid (\<lambda>_. path_fs) f"
    "fl_end f = (\<lambda>_. Ret ())" "fl_again f = (\<lambda>_. False)" "map_find (sv_t2Download (fl_srv f)) (demo_uuid 1) = Some [R]"
    "ri_link R = lt_magnet path_lt ''/opt/VerAI/projects/1''" "nd_pc (fl_node f 1) = K_Idle"
    by (elim exE conjE) (rule that, assumption+, simp)
  then show ?thesis by (intro exI [of _ f] exI [of _ R]) (simp add: path_lt_sel)
qed


theorem fleet_typed_witness:
  "\<exists>f R. fleet_reach (sort_by ms_compare) (\<lambda>_. ''k'') path_lt (\<lambda>_. demo_dirs) demo_uuid (\<lambda>_. path_fs) f
    \<and> map_find (sv_t2Download (fl_srv f)) ''a'' = Some [R] \<and> ri_status R = RS_GENERATED \<and> ri_workProgress R \<le> 100
    \<and> ri_link R = ''magnet:/opt/VerAI/projects/1''"
proof -
  have a: "demo_uuid 1 = ''a''" by (simp add: demo_uuid_def)
  obtain f R where f: "fleet_reach (sort_by ms_compare) (\<lambda>_. ''k'') path_lt (\<lambda>_. demo_dirs) demo_uuid (\<lambda>_. path_fs) f"
    "map_find (sv_t2Download (fl_srv f)) (demo_uuid 1) = Some [R]" "ri_link R = ''magnet:/opt/VerAI/projects/1''" "nd_pc (fl_node f 1) = K_Idle"
    using demo_offer by blast
  have at: "R \<in> set (sv_torrentDeque (fl_srv f)) \<or> map_find (sv_t2Download (fl_srv f)) (demo_uuid 1) = Some [R] \<and> R \<in> set [R]
      \<or> nd_pc (fl_node f 1) = K_Send R []" using f(2) by simp
  from fleet_typed [OF f(1) demo_fleet(1) qsort_spec_sort_by demo_fleet(2) at] f show ?thesis unfolding a by auto
qed


end
