(* ===== verification/Server_Locks.thy ===== *)
theory Server_Locks
  imports Test_Server Lock_Programs
begin

text \<open>
  The calls of \<^verbatim>\<open>tests/grpc_server.cpp\<close> with the three recursive mutexes of the server, as gRPC runs them: each
  call on a thread of its own. A program of theory \<open>Lock_Programs\<close> is what a handler does between its calls of
  \<^verbatim>\<open>lock\<close> and \<^verbatim>\<open>unlock\<close>; run alone it is the handler of theory \<open>Test_Server\<close>.
\<close>

datatype mtx = MtxTDeque | MtxTDownload | MtxTUpdate

datatype reply =
    Re_Info daemon_info
  | Re_Nothing
  | Re_Tasks "task_type list"
  | Re_Torrents "rpc_tinfo list"

type_synonym 'r handler = "(mtx, server, 'r) prog"

section \<open>The handlers\<close>

definition AddTask_locked :: "string \<Rightarrow> task_type \<Rightarrow> unit handler" where
  "AddTask_locked daemonUUID task = locked MtxTDeque (Write (Server_AddTask daemonUUID task) (Return ()))"

definition Add2UpdateList_locked :: "string \<Rightarrow> rpc_tinfo \<Rightarrow> unit handler" where
  "Add2UpdateList_locked uuid info = locked MtxTUpdate (Write (Add2UpdateList uuid info) (Return ()))"

definition RemoveFromUpdateList_locked :: "string \<Rightarrow> rpc_tinfo \<Rightarrow> unit handler" where
  "RemoveFromUpdateList_locked uuid info = locked MtxTUpdate (Write (RemoveFromUpdateList uuid info) (Return ()))"

definition Add2DownloadList_locked :: "string \<Rightarrow> rpc_tinfo \<Rightarrow> unit handler" where
  "Add2DownloadList_locked uuid info = locked MtxTDownload (Write (Add2DownloadList uuid info) (Return ()))"

definition DownloadTorrent_locked :: "string \<Rightarrow> unit handler" where
  "DownloadTorrent_locked daemonId = locked MtxTDeque (Read (\<lambda>s.
     case sv_torrentDeque s of
       [] \<Rightarrow> Return ()
     | front # _ \<Rightarrow>
         bind (Add2DownloadList_locked daemonId front) (\<lambda>_.
           Write (\<lambda>s. s\<lparr>sv_torrentDeque := tl (sv_torrentDeque s)\<rparr>) (AddTask_locked daemonId DOWNLOAD_TORRENT))))"

definition Handshake_locked :: "string \<Rightarrow> reply handler" where
  "Handshake_locked daemonUUID =
     (let info = \<lparr>di_uuid = daemonUUID, di_authTocken = ''Some tocken'', di_authStatus = Auth_OK\<rparr>
      in locked MtxTDeque (Write (\<lambda>s. s\<lparr>sv_uuids := insort_insert daemonUUID (sv_uuids s)\<rparr>) (Read (\<lambda>s.
           if sv_isFirst s
           then bind (AddTask_locked daemonUUID GENERATE_MAGENT) (\<lambda>_.
                  bind (AddTask_locked daemonUUID UPDATE_TORRENT_STATUS) (\<lambda>_.
                    Write (\<lambda>s. s\<lparr>sv_isFirst := False\<rparr>) (Return (Re_Info info))))
           else bind (DownloadTorrent_locked daemonUUID) (\<lambda>_. Return (Re_Info info))))))"

definition UpdateTorrentStatus_locked :: "daemon_info \<Rightarrow> rpc_tinfo \<Rightarrow> reply handler" where
  "UpdateTorrentStatus_locked dInfo tInfo = locked MtxTDeque (bind
     (case ri_status tInfo of
        RS_GENERATED \<Rightarrow>
          if ri_link tInfo \<noteq> ''''
          then Write (\<lambda>s. s\<lparr>sv_torrentDeque := sv_torrentDeque s @ [tInfo]\<rparr>)
                 (bind (RemoveFromUpdateList_locked (di_uuid dInfo) tInfo) (\<lambda>_. Read (\<lambda>s.
                    each (\<lambda>daemonId. if daemonId \<noteq> di_uuid dInfo then DownloadTorrent_locked daemonId else Return ()) (sv_uuids s))))
          else Return ()
      | RS_DOWNLOADED \<Rightarrow> RemoveFromUpdateList_locked (di_uuid dInfo) tInfo
      | _ \<Rightarrow> AddTask_locked (di_uuid dInfo) UPDATE_TORRENT_STATUS)
     (\<lambda>_. Return Re_Nothing))"

definition GetTaskList_locked :: "daemon_info \<Rightarrow> reply handler" where
  "GetTaskList_locked dInfo = locked MtxTDeque (Read (\<lambda>s.
     case map_find (sv_tasks s) (di_uuid dInfo) of
       Some taskList \<Rightarrow> Write (\<lambda>s. s\<lparr>sv_tasks := map_erase (di_uuid dInfo) (sv_tasks s)\<rparr>) (Return (Re_Tasks taskList))
     | None \<Rightarrow> Return (Re_Tasks [])))"

definition GetInfoForGenerateTorrents_locked :: "(nat \<Rightarrow> string) \<Rightarrow> daemon_info \<Rightarrow> reply handler" where
  "GetInfoForGenerateTorrents_locked gen dInfo = locked MtxTDeque (Read (\<lambda>s.
     if di_uuid dInfo \<in> set (sv_uuids s)
     then (let tInfo = tinfo_message\<lparr>ri_id := gen (sv_generated s), ri_pathToProject := ''/opt/VerAI/projects/1''\<rparr>
           in Write (\<lambda>s. s\<lparr>sv_generated := Suc (sv_generated s)\<rparr>)
                (bind (Add2UpdateList_locked (di_uuid dInfo) tInfo) (\<lambda>_. Return (Re_Torrents [tInfo]))))
     else Return (Re_Torrents [tinfo_message])))"

definition GetTorrentsForUpdateStatus_locked :: "daemon_info \<Rightarrow> reply handler" where
  "GetTorrentsForUpdateStatus_locked dInfo = locked MtxTUpdate (Read (\<lambda>s.
     Return (Re_Torrents (case map_find (sv_t2Update s) (di_uuid dInfo) of Some torrents \<Rightarrow> torrents | None \<Rightarrow> []))))"

definition GetTorrentsForDownload_locked :: "daemon_info \<Rightarrow> reply handler" where
  "GetTorrentsForDownload_locked dInfo = locked MtxTDownload (Read (\<lambda>s.
     case map_find (sv_t2Download s) (di_uuid dInfo) of
       Some items \<Rightarrow>
         bind (each (Add2UpdateList_locked (di_uuid dInfo)) items) (\<lambda>_.
           Write (\<lambda>s. s\<lparr>sv_t2Download := map_erase (di_uuid dInfo) (sv_t2Download s)\<rparr>)
             (bind (AddTask_locked (di_uuid dInfo) UPDATE_TORRENT_STATUS) (\<lambda>_. Return (Re_Torrents items))))
     | None \<Rightarrow> Return (Re_Torrents [])))"

fun call_locked :: "(nat \<Rightarrow> string) \<Rightarrow> server_call \<Rightarrow> reply handler" where
  "call_locked gen (Sv_Handshake u) = Handshake_locked u"
| "call_locked gen (Sv_Report di ti) = UpdateTorrentStatus_locked di ti"
| "call_locked gen (Sv_Tasks di) = GetTaskList_locked di"
| "call_locked gen (Sv_Generate di) = GetInfoForGenerateTorrents_locked gen di"
| "call_locked gen (Sv_Status di) = GetTorrentsForUpdateStatus_locked di"
| "call_locked gen (Sv_Download di) = GetTorrentsForDownload_locked di"

text \<open>The same calls of theory \<open>Test_Server\<close>, each in one step, with their replies.\<close>

fun call_whole :: "(nat \<Rightarrow> string) \<Rightarrow> server_call \<Rightarrow> server \<Rightarrow> reply \<times> server" where
  "call_whole gen (Sv_Handshake u) s = map_prod Re_Info (\<lambda>x. x) (Server_Handshake u s)"
| "call_whole gen (Sv_Report di ti) s = (Re_Nothing, Server_UpdateTorrentStatus di ti s)"
| "call_whole gen (Sv_Tasks di) s = map_prod Re_Tasks (\<lambda>x. x) (Server_GetTaskList di s)"
| "call_whole gen (Sv_Generate di) s = map_prod Re_Torrents (\<lambda>x. x) (Server_GetInfoForGenerateTorrents gen di s)"
| "call_whole gen (Sv_Status di) s = map_prod Re_Torrents (\<lambda>x. x) (Server_GetTorrentsForUpdateStatus di s)"
| "call_whole gen (Sv_Download di) s = map_prod Re_Torrents (\<lambda>x. x) (Server_GetTorrentsForDownload di s)"

lemmas locked_defs = AddTask_locked_def Add2UpdateList_locked_def RemoveFromUpdateList_locked_def Add2DownloadList_locked_def

section \<open>A call that is not interrupted\<close>

lemma alone_parts [simp]:
  "alone (AddTask_locked u t) s = ((), Server_AddTask u t s)"
  "alone (Add2UpdateList_locked u i) s = ((), Add2UpdateList u i s)"
  "alone (RemoveFromUpdateList_locked u i) s = ((), RemoveFromUpdateList u i s)"
  "alone (Add2DownloadList_locked u i) s = ((), Add2DownloadList u i s)"
  by (simp_all add: locked_defs)

lemma alone_DownloadTorrent [simp]: "alone (DownloadTorrent_locked u) s = ((), Server_DownloadTorrent u s)"
  by (auto simp: DownloadTorrent_locked_def Server_DownloadTorrent_def Add2DownloadList_def split: list.split)

lemma alone_each_download:
  "snd (alone (if u \<noteq> v then DownloadTorrent_locked u else Return ()) s) = (if u \<noteq> v then Server_DownloadTorrent u s else s)"
  by simp

lemma call_alone: "alone (call_locked gen c) s = call_whole gen c s"
proof (cases c)
  case (Sv_Report di ti)
  then show ?thesis
    by (cases "ri_status ti")
      (simp_all add: UpdateTorrentStatus_locked_def Server_UpdateTorrentStatus_def Let_def alone_each_download cong: fold_cong)
qed (auto simp: Handshake_locked_def Server_Handshake_def GetTaskList_locked_def Server_GetTaskList_def Let_def
      GetInfoForGenerateTorrents_locked_def Server_GetInfoForGenerateTorrents_def
      GetTorrentsForUpdateStatus_locked_def Server_GetTorrentsForUpdateStatus_def
      GetTorrentsForDownload_locked_def Server_GetTorrentsForDownload_def split: option.split)

section \<open>The order of the mutexes\<close>

text \<open>Every call but \<open>GetTorrentsForDownload\<close> takes \<^verbatim>\<open>mtxTDeque\<close> before \<^verbatim>\<open>mtxTDownload\<close> and that before \<^verbatim>\<open>mtxTUpdate\<close>.\<close>

primrec mtx_rank :: "mtx \<Rightarrow> nat" where
  "mtx_rank MtxTDeque = 0"
| "mtx_rank MtxTDownload = 1"
| "mtx_rank MtxTUpdate = 2"

lemma all_mtx: "(\<forall>m. P m) \<longleftrightarrow> P MtxTDeque \<and> P MtxTDownload \<and> P MtxTUpdate"
  by (metis mtx.exhaust)

lemma ordered_leaf:
  "0 < h MtxTDeque \<Longrightarrow> ordered mtx_rank (AddTask_locked u t) h h"
  "ordered mtx_rank (Add2UpdateList_locked u i) h h"
  "ordered mtx_rank (RemoveFromUpdateList_locked u i) h h"
  "h MtxTUpdate = 0 \<Longrightarrow> ordered mtx_rank (Add2DownloadList_locked u i) h h"
  by (auto simp: locked_defs locked_def all_mtx)

lemma ordered_DownloadTorrent:
  assumes "0 < h MtxTDeque" and "h MtxTUpdate = 0"
  shows "ordered mtx_rank (DownloadTorrent_locked u) h h"
  unfolding DownloadTorrent_locked_def
  by (rule ordered_locked) (use assms in \<open>auto intro!: ordered_bind ordered_leaf split: list.split\<close>)

lemmas ordered_rules = ordered_bind [where h = h and ?h1.0 = h for h] ordered_each ordered_leaf ordered_DownloadTorrent

lemma call_ordered:
  assumes "\<forall>di. c \<noteq> Sv_Download di"
  shows "ordered mtx_rank (call_locked gen c) (\<lambda>_. 0) (\<lambda>_. 0)"
proof (cases c)
  case (Sv_Handshake u)
  then show ?thesis
    by (auto simp: Handshake_locked_def Let_def locked_def intro!: ordered_rules)
next
  case (Sv_Report di ti)
  then show ?thesis
    by (cases "ri_status ti") (auto simp: UpdateTorrentStatus_locked_def locked_def intro!: ordered_rules)
next
  case (Sv_Generate di)
  then show ?thesis
    by (auto simp: GetInfoForGenerateTorrents_locked_def Let_def locked_def intro!: ordered_rules)
qed (use assms in \<open>auto simp: GetTaskList_locked_def GetTorrentsForUpdateStatus_locked_def locked_def split: option.split\<close>)

lemma inside_leaf:
  "0 < n \<Longrightarrow> inside MtxTDeque (AddTask_locked u t) n n"
  "inside MtxTDeque (Add2UpdateList_locked u i) n n"
  "inside MtxTDeque (RemoveFromUpdateList_locked u i) n n"
  "inside MtxTDeque (Add2DownloadList_locked u i) n n"
  by (simp_all add: locked_defs locked_def)

lemma inside_DownloadTorrent: "0 < n \<Longrightarrow> inside MtxTDeque (DownloadTorrent_locked u) n n"
  unfolding DownloadTorrent_locked_def
  by (rule inside_locked) (auto intro!: inside_bind inside_leaf split: list.split)

lemmas inside_rules = inside_bind [where n = n and ?n1.0 = n for n] inside_each inside_leaf inside_DownloadTorrent

lemma call_critical:
  assumes "\<forall>di. c \<noteq> Sv_Download di" and "\<forall>di. c \<noteq> Sv_Status di"
  shows "critical MtxTDeque (call_locked gen c)"
proof (cases c)
  case (Sv_Handshake u)
  then show ?thesis
    by (auto simp: Handshake_locked_def Let_def intro!: criticalI inside_rules)
next
  case (Sv_Report di ti)
  then show ?thesis
    by (cases "ri_status ti") (auto simp: UpdateTorrentStatus_locked_def intro!: criticalI inside_rules)
next
  case (Sv_Generate di)
  then show ?thesis
    by (auto simp: GetInfoForGenerateTorrents_locked_def Let_def intro!: criticalI inside_rules)
qed (use assms in \<open>auto simp: GetTaskList_locked_def intro!: criticalI split: option.split\<close>)

text \<open>Daemons that call the server in turns, each with the calls it has still to make and the replies it got.\<close>

fun call_turn ::
  "(nat \<Rightarrow> string) \<Rightarrow> nat \<Rightarrow> reply list list \<times> server_call list list \<times> server \<Rightarrow> reply list list \<times> server_call list list \<times> server" where
  "call_turn gen i (rs, css, s) =
     (if i < length css
      then (case css ! i of
              [] \<Rightarrow> (rs, css, s)
            | c # cs \<Rightarrow> (let (r, s1) = call_whole gen c s in (rs[i := rs ! i @ [r]], css[i := cs], s1)))
      else (rs, css, s))"

lemma turn_calls:
  "turn i (rs, map (map (call_locked gen)) css, s) =
     (case call_turn gen i (rs, css, s) of (rs1, css1, s1) \<Rightarrow> (rs1, map (map (call_locked gen)) css1, s1))"
  by (auto simp: call_alone map_update Let_def split: list.split prod.split)

lemma turns_calls:
  "fold turn xs (rs, map (map (call_locked gen)) css, s) =
     (case fold (call_turn gen) xs (rs, css, s) of (rs1, css1, s1) \<Rightarrow> (rs1, map (map (call_locked gen)) css1, s1))"
proof (induction xs arbitrary: rs css s)
  case (Cons i xs)
  obtain rs1 css1 s1 where "call_turn gen i (rs, css, s) = (rs1, css1, s1)" by (metis surj_pair)
  with Cons [of rs1 css1 s1] show ?case by (simp only: fold_simps turn_calls comp_apply prod.case)
qed simp

lemma maps_Nil: "map (\<lambda>_. []) xs = map (map f) ys \<Longrightarrow> ys = map (\<lambda>_. []) xs"
  by (induction xs arbitrary: ys) auto

text \<open>C14: calls that meet at the server behave as if they came one after the other, and never block each other for
  good. Any number of daemons make any number of calls, each daemon its own one after the other and all of
  them at the same time, with the server's recursive mutexes, none of the calls one that asks for the torrents
  to download or to report on. In a state in which no thread can move, all calls have returned; the
  state of the server and the replies are then those of the same calls made one at a time, each in one step, in
  some order that keeps each daemon's own. And there is no infinite run.\<close>

theorem server_serial:
  assumes "\<forall>cs \<in> set css. \<forall>c \<in> set cs. \<forall>di. c \<noteq> Sv_Download di \<and> c \<noteq> Sv_Status di"
    and "lk_run ls (lk_start (map (\<lambda>cs. in_turn [] (map (call_locked gen) cs)) css) s) = Some k" and "\<And>i. lk_step i k = None"
  shows "(\<exists>xs rs. fold (call_turn gen) xs (map (\<lambda>_. []) css, css, s) = (rs, map (\<lambda>_. []) css, lk_state k) \<and> lk_threads k = map Return rs)
    \<and> wf {(k1, k). \<exists>i. lk_step i k = Some (k1 :: (mtx, server, reply list) locks)}"
proof -
  let ?pss = "map (map (call_locked gen)) css"
  have start: "map (in_turn []) ?pss = map (\<lambda>cs. in_turn [] (map (call_locked gen) cs)) css" by simp
  have ord: "list_all (\<lambda>p. ordered mtx_rank p (\<lambda>_. 0) (\<lambda>_. 0)) (map (in_turn []) ?pss)"
    using assms(1) call_ordered by (auto simp: list_all_iff intro!: ordered_in_turn)
  have crit: "list_all (list_all (critical MtxTDeque)) ?pss" using assms(1) call_critical by (auto simp: list_all_iff)
  have "\<exists>r. lk_threads k ! i = Return r" if "i < length (lk_threads k)" for i
    using no_deadlock [OF ord _ assms(3) that] assms(2) start by metis
  from runs_serially [OF crit _ this] assms(2) start obtain xs rs where
    xs: "fold turn xs (map (\<lambda>_. []) ?pss, ?pss, s) = (rs, map (\<lambda>_. []) ?pss, lk_state k)" "lk_threads k = map Return rs" by metis
  obtain rs1 css1 s1 where c: "fold (call_turn gen) xs (map (\<lambda>_. []) css, css, s) = (rs1, css1, s1)" by (metis surj_pair)
  have "(rs, map (\<lambda>_. []) css, lk_state k) = (rs1, map (map (call_locked gen)) css1, s1)"
    using xs(1) turns_calls [of xs "map (\<lambda>_. []) css" gen css s] unfolding c map_map comp_def prod.case by (rule trans [OF sym])
  then have "rs = rs1" "map (\<lambda>_. []) css = map (map (call_locked gen)) css1" "s1 = lk_state k" by simp_all
  moreover have "css1 = map (\<lambda>_. []) css" using maps_Nil [OF calculation(2)] .
  ultimately show ?thesis using xs(2) c runs_end by blast
qed

section \<open>The call that takes them in another order\<close>

lemma run_update_leaf:
  assumes "i < length (lk_threads k)" and "lk_mutex k MtxTUpdate = mx_free" and "lk_threads k ! i = bind p f"
    and "p = locked MtxTUpdate (Write g (Return ()))"
  shows "lk_run [i, i, i] k = Some (k\<lparr>lk_state := g (lk_state k), lk_threads := (lk_threads k)[i := f ()]\<rparr>)"
proof -
  have "(lk_mutex k)(MtxTUpdate := mx_free) = lk_mutex k" using assms(2) by (metis fun_upd_triv)
  then show ?thesis using assms by (simp add: lk_step_def locked_def mx_lock_def mx_unlock_def mx_free_def)
qed

lemma run_updates:
  assumes "i < length (lk_threads k)" and "lk_mutex k MtxTUpdate = mx_free"
    and "lk_threads k ! i = bind (each (Add2UpdateList_locked u) items) f"
  shows "\<exists>ls. lk_run ls k = Some (k\<lparr>lk_state := fold (Add2UpdateList u) items (lk_state k), lk_threads := (lk_threads k)[i := f ()]\<rparr>)"
  using assms
proof (induction items arbitrary: k)
  case Nil
  have "k = k\<lparr>lk_threads := (lk_threads k)[i := f ()]\<rparr>" using Nil by (simp add: list_update_same_conv [symmetric])
  then show ?case by (intro exI [of _ "[]"]) simp
next
  case (Cons x items)
  let ?k = "k\<lparr>lk_state := Add2UpdateList u x (lk_state k), lk_threads := (lk_threads k)[i := bind (each (Add2UpdateList_locked u) items) f]\<rparr>"
  have "lk_run [i, i, i] k = Some ?k"
    using Cons.prems by (intro run_update_leaf) (simp_all add: bind_assoc Add2UpdateList_locked_def)
  moreover obtain ls where "lk_run ls ?k = Some (?k\<lparr>lk_state := fold (Add2UpdateList u) items (lk_state ?k), lk_threads := (lk_threads ?k)[i := f ()]\<rparr>)"
    using Cons.IH [of ?k] Cons.prems(1,2) by auto
  ultimately show ?case
    by (intro exI [of _ "[i, i, i] @ ls"]) (simp only: lk_run_append option.case, simp)
qed

lemma each_first:
  assumes "v \<in> set us" and "v \<noteq> a"
  shows "\<exists>w f. each (\<lambda>d. if d \<noteq> a then q d else Return ()) us = bind (q w) f"
  using assms by (induction us) auto

text \<open>The mutexes when the download has taken its own, and what it has still to do then.\<close>

definition download_mutex :: "mtx \<Rightarrow> nat rmutex" where
  "download_mutex = (\<lambda>_. mx_free)(MtxTDownload := \<lparr>mx_owner = Some 1, mx_count = 1\<rparr>)"

definition download_rest :: "string \<Rightarrow> rpc_tinfo list \<Rightarrow> reply handler" where
  "download_rest u tis = bind (AddTask_locked u UPDATE_TORRENT_STATUS) (\<lambda>_. Unlock MtxTDownload (Return (Re_Torrents tis)))"

lemmas lock_eval = lk_step_def lk_start_def mx_lock_def mx_free_def locked_def Let_def

lemma download_waits:
  assumes "map_find (sv_t2Download s) (di_uuid b) = Some tis"
  shows "\<exists>ls s2. lk_run ls (lk_start [p0, call_locked gen (Sv_Download b)] s)
      = Some \<lparr>lk_state = s2, lk_mutex = download_mutex, lk_threads = [p0, download_rest (di_uuid b) tis]\<rparr> \<and> sv_uuids s2 = sv_uuids s"
proof -
  let ?u = "di_uuid b" and ?K = "\<lambda>s p. \<lparr>lk_state = s, lk_mutex = download_mutex, lk_threads = [p0, p]\<rparr>"
  let ?s1 = "fold (Add2UpdateList ?u) tis s"
  let ?s2 = "?s1\<lparr>sv_t2Download := map_erase ?u (sv_t2Download ?s1)\<rparr>"
  define q1 where "q1 = Write (\<lambda>s. s\<lparr>sv_t2Download := map_erase ?u (sv_t2Download s)\<rparr>) (download_rest ?u tis)"
  let ?k = "?K s (bind (each (Add2UpdateList_locked ?u) tis) (\<lambda>_. q1))"
  have "lk_run [1, 1] (lk_start [p0, call_locked gen (Sv_Download b)] s) = Some ?k"
    using assms by (simp add: lock_eval GetTorrentsForDownload_locked_def download_mutex_def download_rest_def q1_def bind_assoc)
  moreover obtain ls where "lk_run ls ?k = Some (?K ?s1 q1)"
    using run_updates [of 1 ?k ?u tis "\<lambda>_. q1"] by (auto simp: download_mutex_def)
  moreover have "lk_run [1] (?K ?s1 q1) = Some (?K ?s2 (download_rest ?u tis))" by (simp add: lk_step_def q1_def)
  ultimately have "lk_run ([1, 1] @ ls @ [1]) (lk_start [p0, call_locked gen (Sv_Download b)] s) = Some (?K ?s2 (download_rest ?u tis))"
    by (simp only: lk_run_append option.case)
  then show ?thesis by (intro exI [of _ "[1, 1] @ ls @ [1]"] exI [of _ ?s2]) simp
qed

text \<open>A report comes to the point where it hands the torrent on to some other daemon.\<close>

lemma report_waits:
  assumes "ri_status ti = RS_GENERATED" and "ri_link ti \<noteq> ''''" and "v \<in> set (sv_uuids s)" and "v \<noteq> di_uuid a"
  shows "\<exists>ls s1 p. lk_run ls \<lparr>lk_state = s, lk_mutex = download_mutex, lk_threads = [call_locked gen (Sv_Report a ti), p1]\<rparr>
      = Some \<lparr>lk_state = s1, lk_mutex = download_mutex(MtxTDeque := \<lparr>mx_owner = Some 0, mx_count = 2\<rparr>),
          lk_threads = [Lock MtxTDownload p, p1]\<rparr>"
proof -
  let ?K = "\<lambda>s n p. \<lparr>lk_state = s, lk_mutex = download_mutex(MtxTDeque := \<lparr>mx_owner = Some 0, mx_count = n\<rparr>), lk_threads = [p, p1]\<rparr>"
  let ?p0 = "call_locked gen (Sv_Report a ti)" and ?remove = "RemoveFromUpdateList_locked (di_uuid a) ti"
  let ?s1 = "s\<lparr>sv_torrentDeque := sv_torrentDeque s @ [ti]\<rparr>"
  let ?s2 = "RemoveFromUpdateList (di_uuid a) ti ?s1"
  define each0 where "each0 = (\<lambda>us. bind (each (\<lambda>d. if d \<noteq> di_uuid a then DownloadTorrent_locked d else Return ()) us)
    (\<lambda>_. Unlock MtxTDeque (Return Re_Nothing)))"
  define q0 where "q0 = Read (\<lambda>s. each0 (sv_uuids s))"
  obtain w f where w: "each0 (sv_uuids s) = bind (DownloadTorrent_locked w) f"
    using each_first [OF assms(3,4), of DownloadTorrent_locked] by (auto simp: each0_def bind_assoc)
  have "lk_run [0, 0] \<lparr>lk_state = s, lk_mutex = download_mutex, lk_threads = [?p0, p1]\<rparr> = Some (?K ?s1 1 (bind ?remove (\<lambda>_. q0)))"
    using assms(1,2) by (simp add: lock_eval UpdateTorrentStatus_locked_def download_mutex_def q0_def each0_def bind_assoc)
  moreover have "lk_run [0, 0, 0] (?K ?s1 1 (bind ?remove (\<lambda>_. q0))) = Some (?K ?s2 1 q0)"
    using run_update_leaf [of 0 "?K ?s1 1 (bind ?remove (\<lambda>_. q0))" ?remove "\<lambda>_. q0" "RemoveFromUpdateList (di_uuid a) ti"]
    by (simp add: download_mutex_def RemoveFromUpdateList_locked_def)
  moreover have "lk_run [0] (?K ?s2 1 q0) = Some (?K ?s2 1 (bind (DownloadTorrent_locked w) f))"
    using w by (simp add: lk_step_def q0_def)
  moreover have "\<exists>p. lk_run [0, 0] (?K ?s2 1 (bind (DownloadTorrent_locked w) f)) = Some (?K ?s2 2 (Lock MtxTDownload p))"
    by (auto simp: lock_eval DownloadTorrent_locked_def Add2DownloadList_locked_def download_mutex_def split: list.split)
  ultimately obtain p where "lk_run ([0, 0] @ [0, 0, 0] @ [0] @ [0, 0]) \<lparr>lk_state = s, lk_mutex = download_mutex, lk_threads = [?p0, p1]\<rparr>
      = Some (?K ?s2 2 (Lock MtxTDownload p))"
    by (simp only: lk_run_append option.case) blast
  then show ?thesis by blast
qed

text \<open>C30: two daemons can stop the server. One reports a torrent it has generated while another fetches the torrents that
  wait for it. The first call holds \<^verbatim>\<open>mtxTDeque\<close> and needs \<^verbatim>\<open>mtxTDownload\<close> to hand the torrent on, the second holds
  \<^verbatim>\<open>mtxTDownload\<close> and needs \<^verbatim>\<open>mtxTDeque\<close> to add its task: neither ever returns, and no later call that takes either
  of the two mutexes does.\<close>

theorem server_deadlock:
  assumes "ri_status ti = RS_GENERATED" and "ri_link ti \<noteq> ''''" and "v \<in> set (sv_uuids s)" and "v \<noteq> di_uuid a"
    and "map_find (sv_t2Download s) (di_uuid b) = Some tis"
  shows "\<exists>ls k. lk_run ls (lk_start [call_locked gen (Sv_Report a ti), call_locked gen (Sv_Download b)] s) = Some k
    \<and> (\<forall>i. lk_step i k = None) \<and> length (lk_threads k) = 2 \<and> (\<forall>i<2. \<nexists>r. lk_threads k ! i = Return r)
    \<and> mx_owner (lk_mutex k MtxTDeque) = Some 0 \<and> mx_owner (lk_mutex k MtxTDownload) = Some 1"
proof -
  obtain ls1 s2 where first: "lk_run ls1 (lk_start [call_locked gen (Sv_Report a ti), call_locked gen (Sv_Download b)] s)
      = Some \<lparr>lk_state = s2, lk_mutex = download_mutex, lk_threads = [call_locked gen (Sv_Report a ti), download_rest (di_uuid b) tis]\<rparr>"
    and "sv_uuids s2 = sv_uuids s" using download_waits [OF assms(5)] by blast
  with report_waits [OF assms(1,2), of v s2 a gen "download_rest (di_uuid b) tis"] assms(3,4) obtain ls2 s3 p where
    "lk_run ls2 \<lparr>lk_state = s2, lk_mutex = download_mutex, lk_threads = [call_locked gen (Sv_Report a ti), download_rest (di_uuid b) tis]\<rparr>
      = Some \<lparr>lk_state = s3, lk_mutex = download_mutex(MtxTDeque := \<lparr>mx_owner = Some 0, mx_count = 2\<rparr>),
          lk_threads = [Lock MtxTDownload p, download_rest (di_uuid b) tis]\<rparr>" (is "_ = Some ?k") by metis
  with first have "lk_run (ls1 @ ls2) (lk_start [call_locked gen (Sv_Report a ti), call_locked gen (Sv_Download b)] s) = Some ?k"
    by (simp only: lk_run_append option.case)
  moreover have "lk_step i ?k = None" for i
    by (cases i; cases "i - 1")
      (auto simp: lk_step_def mx_lock_def download_mutex_def download_rest_def AddTask_locked_def locked_def)
  moreover have "\<forall>i<2. \<nexists>r. lk_threads ?k ! i = Return r"
    by (auto simp: download_rest_def AddTask_locked_def locked_def less_2_cases_iff)
  ultimately show ?thesis by (intro exI [of _ "ls1 @ ls2"] exI [of _ ?k]) (simp add: download_mutex_def)
qed

section \<open>Two daemons\<close>

text \<open>The server when one torrent waits for daemon \<open>b\<close> and \<open>a\<close> reports another.\<close>

definition demo_server :: server where
  "demo_server = server_new\<lparr>sv_uuids := [''a'', ''b''], sv_t2Download := [(''b'', [demo_generated])], sv_isFirst := False\<rparr>"

theorem server_deadlock_witness:
  "\<exists>ls k. lk_run ls (lk_start [call_locked (\<lambda>n. ''k'') (Sv_Report (demo_di ''a'') (demo_generated\<lparr>ri_id := ''l''\<rparr>)),
       call_locked (\<lambda>n. ''k'') (Sv_Download (demo_di ''b''))] demo_server) = Some k
     \<and> (\<forall>i. lk_step i k = None)"
  using server_deadlock [of "demo_generated\<lparr>ri_id := ''l''\<rparr>" "''b''" demo_server "demo_di ''a''" "demo_di ''b''" "[demo_generated]" "\<lambda>n. ''k''"]
  by (auto simp: demo_generated_def tinfo_message_def demo_server_def demo_di_def)

text \<open>Two daemons shake hands, and the first asks for its tasks: the threads meet at the mutex.\<close>

theorem server_serial_witness:
  "\<exists>k rs xs. lk_run ([0, 0, 0, 0, 0, 0, 0, 0, 0, 0, 0] @ [1, 1, 1, 1, 1, 1, 1] @ [0, 0, 0, 0])
       (lk_start (map (\<lambda>cs. in_turn [] (map (call_locked (\<lambda>n. ''k'')) cs)) [[Sv_Handshake ''a'', Sv_Tasks (demo_di ''a'')], [Sv_Handshake ''b'']]) server_new) = Some k
     \<and> fold (call_turn (\<lambda>n. ''k'')) xs ([[], []], [[Sv_Handshake ''a'', Sv_Tasks (demo_di ''a'')], [Sv_Handshake ''b'']], server_new)
         = (rs, [[], []], lk_state k)
     \<and> lk_threads k = map Return rs \<and> Re_Tasks [GENERATE_MAGENT, UPDATE_TORRENT_STATUS] \<in> set (rs ! 0) \<and> sv_uuids (lk_state k) = [''a'', ''b'']"
proof -
  let ?css = "[[Sv_Handshake ''a'', Sv_Tasks (demo_di ''a'')], [Sv_Handshake ''b'']]"
  let ?ls = "[0, 0, 0, 0, 0, 0, 0, 0, 0, 0, 0] @ [1, 1, 1, 1, 1, 1, 1] @ [0, 0, 0, 0]"
  obtain k where k: "lk_run ?ls (lk_start (map (\<lambda>cs. in_turn [] (map (call_locked (\<lambda>n. ''k'')) cs)) ?css) server_new) = Some k"
    "\<exists>r1 r2 r3. lk_threads k = [Return [r1, r2], Return [r3]] \<and> r2 = Re_Tasks [GENERATE_MAGENT, UPDATE_TORRENT_STATUS]"
    "sv_uuids (lk_state k) = [''a'', ''b'']"
    by (simp add: lk_step_def lk_start_def mx_lock_def mx_unlock_def mx_free_def Handshake_locked_def GetTaskList_locked_def demo_di_def
        locked_def locked_defs DownloadTorrent_locked_def server_new_def Server_AddTask_def insort_insert_key_def Let_def)
  then have stuck: "lk_step i k = None" for i by (cases i; cases "i - 1") (auto simp: lk_step_def)
  from server_serial [OF _ k(1) stuck] obtain xs rs where
    "fold (call_turn (\<lambda>n. ''k'')) xs ([[], []], ?css, server_new) = (rs, [[], []], lk_state k)" "lk_threads k = map Return rs" by auto
  moreover from this(2) k(2) have "Re_Tasks [GENERATE_MAGENT, UPDATE_TORRENT_STATUS] \<in> set (rs ! 0)" by (cases rs) auto
  ultimately show ?thesis using k(1,3) by blast
qed

end
