(* ===== verification/Log_Threads.thy ===== *)
theory Log_Threads
  imports Rolling_File Lock_Programs
begin

text \<open>
  Several threads that log at the same time, as the threads of the daemon do. \<open>RollingFileAppender::write\<close> takes the
  appender's mutex (\<^verbatim>\<open>Mutex\<close> and \<^verbatim>\<open>MutexLock\<close> of \<^verbatim>\<open>plog/include/plog/Util.h\<close>) and gives it back when it returns; between
  them it makes its system calls, one step each. The mutex is a plain one; no thread takes it twice.
\<close>

datatype log_mutex = M_mutex

type_synonym log_prog = "(log_mutex, rfa \<times> osys, unit) prog"

definition MutexLock :: "log_prog \<Rightarrow> log_prog" where
  "MutexLock body = locked M_mutex body"

text \<open>The bytes written are added to the size, when there are any.\<close>

definition write_step :: "string \<Rightarrow> rfa \<times> osys \<Rightarrow> rfa \<times> osys" where
  "write_step buf = (\<lambda>(r, os).
     let (bytesWritten, os1) = lf_write (rf_file r) buf os
     in (if bytesWritten > 0 then r\<lparr>rf_fileSize := rf_fileSize r + bytesWritten\<rparr> else r, os1))"

definition openLogFile_steps :: "string \<Rightarrow> log_prog" where
  "openLogFile_steps header =
     Write (\<lambda>(r, os). let (size, fd, os1) = lf_open (buildFileName r 0) os in (r\<lparr>rf_file := fd, rf_fileSize := size\<rparr>, os1))
       (Read (\<lambda>(r, os). if rf_fileSize r = 0 then Write (write_step (UTF8_header header)) (Return ()) else Return ()))"

definition rollLogFiles_steps :: "string \<Rightarrow> log_prog" where
  "rollLogFiles_steps header =
     Write (\<lambda>(r, os). let (fd, os1) = lf_close (rf_file r) os in (r\<lparr>rf_file := fd\<rparr>, os1))
       (Write (\<lambda>(r, os). (r, lf_unlink (buildFileName r (nat (rf_lastFileNumber r))) os))
         (Read (\<lambda>(r, os).
            bind (each (\<lambda>i. Write (\<lambda>(r, os). (r, lf_rename (buildFileName r i) (buildFileName r (i + 1)) os)) (Return ()))
                   (roll_numbers r))
              (\<lambda>_. openLogFile_steps header))))"

definition write_steps :: "string \<Rightarrow> string \<Rightarrow> log_prog" where
  "write_steps header text = MutexLock (Read (\<lambda>(r, os).
     bind (if rf_firstWrite r
           then bind (openLogFile_steps header) (\<lambda>_. Write (\<lambda>(r, os). (r\<lparr>rf_firstWrite := False\<rparr>, os)) (Return ()))
           else if rf_lastFileNumber r > 0 \<and> rf_fileSize r > rf_maxFileSize r \<and> -1 \<noteq> rf_fileSize r
           then rollLogFiles_steps header
           else Return ())
       (\<lambda>_. Write (write_step (UTF8_convert text)) (Return ()))))"

section \<open>One thread\<close>

lemma openLogFile_alone: "alone (openLogFile_steps header) s = ((), openLogFile header s)"
  by (cases s) (auto simp: openLogFile_steps_def openLogFile_def write_step_def Let_def split_def)

lemma fold_snd: "fold (\<lambda>i s. (fst s, F (fst s) i (snd s))) ns (r, os) = (r, fold (F r) ns os)"
  by (induction ns arbitrary: os) simp_all

lemma rollLogFiles_alone: "alone (rollLogFiles_steps header) s = ((), rollLogFiles header s)"
  by (cases s)
    (simp add: rollLogFiles_steps_def rollLogFiles_def openLogFile_alone Let_def split_def roll_numbers_def
      fold_snd [where F = "\<lambda>r i. lf_rename (buildFileName r i) (buildFileName r (Suc i))"])

lemma write_alone: "alone (write_steps header text) s = ((), rfa_write header text s)"
proof (cases s)
  case (Pair r os)
  then show ?thesis
    by (auto simp: write_steps_def MutexLock_def rfa_write_def openLogFile_alone rollLogFiles_alone write_step_def Let_def split_def)
qed

section \<open>Many threads\<close>

lemma inside_write: "inside M_mutex (openLogFile_steps header) n n" "inside M_mutex (rollLogFiles_steps header) n n"
  by (auto simp: openLogFile_steps_def rollLogFiles_steps_def intro!: inside_bind [where n = n and ?n1.0 = n for n] inside_each)

lemma write_critical: "critical M_mutex (write_steps header text)"
  by (auto simp: write_steps_def MutexLock_def intro!: criticalI inside_bind [where n = n and ?n1.0 = n for n] inside_write)

lemma ordered_write: "ordered rank (openLogFile_steps header) h h" "ordered rank (rollLogFiles_steps header) h h"
  by (auto simp: openLogFile_steps_def rollLogFiles_steps_def intro!: ordered_bind [where h = h and ?h1.0 = h for h] ordered_each)

lemma write_ordered: "ordered (\<lambda>_. 0) (write_steps header text) (\<lambda>_. 0) (\<lambda>_. 0)"
  unfolding write_steps_def MutexLock_def
  by (rule ordered_locked) (auto intro!: ordered_bind [where h = h and ?h1.0 = h for h] ordered_write)

text \<open>The lines in the order the threads had the mutex, each with its thread.\<close>

definition of_thread :: "nat \<Rightarrow> (nat \<times> string) list \<Rightarrow> string list" where
  "of_thread i ps = map snd (filter (\<lambda>p. fst p = i) ps)"

lemma writes_in_turn:
  assumes "fold turn xs (rs, map (map (write_steps header)) tss, s) = (rs1, pss1, s1)" and "\<forall>ps \<in> set pss1. ps = []"
  shows "\<exists>ps. s1 = fold (rfa_write header) (map snd ps) s \<and> fst ` set ps \<subseteq> {..<length tss}
    \<and> (\<forall>i<length tss. tss ! i = of_thread i ps)"
  using assms(1)
proof (induction xs arbitrary: rs tss s)
  case Nil
  then have "s = s1" "\<forall>ts \<in> set tss. ts = []" using assms(2) by auto
  then show ?case by (intro exI [of _ "[]"]) (simp add: of_thread_def)
next
  case (Cons i xs)
  show ?case
  proof (cases "i < length tss \<and> tss ! i \<noteq> []")
    case True
    then obtain t ts where t: "i < length tss" "tss ! i = t # ts" by (cases "tss ! i") auto
    then have "turn i (rs, map (map (write_steps header)) tss, s)
        = (rs[i := rs ! i @ [()]], map (map (write_steps header)) (tss[i := ts]), rfa_write header t s)"
      by (simp add: write_alone map_update)
    with Cons.prems Cons.IH [of "rs[i := rs ! i @ [()]]" "tss[i := ts]" "rfa_write header t s"] obtain ps where
      ps: "s1 = fold (rfa_write header) (map snd ps) (rfa_write header t s)" "fst ` set ps \<subseteq> {..<length tss}"
      "\<forall>j<length tss. tss[i := ts] ! j = of_thread j ps" by auto
    have "tss ! j = of_thread j ((i, t) # ps)" if "j < length tss" for j
      using ps(3) that t by (cases "j = i") (auto simp: of_thread_def)
    with ps(1,2) t(1) show ?thesis by (intro exI [of _ "(i, t) # ps"]) auto
  next
    case False
    then have "turn i (rs, map (map (write_steps header)) tss, s) = (rs, map (map (write_steps header)) tss, s)" by auto
    with Cons show ?thesis by simp
  qed
qed

text \<open>C23: threads that log at the same time do not disturb each other. Any number of threads write any number of records
  each, all through one appender, with one step for each system call. In a state in which no thread can move,
  all have written all their records, and the files, the sizes and the descriptors are those of one thread that
  wrote the same records one after the other: no record is torn, lost or doubled, each thread's records are in
  the order in which it wrote them, and the log has rolled where it would have rolled then. And there is no
  infinite run.\<close>

theorem log_threads:
  assumes "lk_run ls (lk_start (map (\<lambda>ts. in_turn [] (map (write_steps header) ts)) tss) s) = Some k" and "\<And>i. lk_step i k = None"
  shows "(\<exists>ps. lk_state k = fold (rfa_write header) (map snd ps) s \<and> fst ` set ps \<subseteq> {..<length tss}
      \<and> (\<forall>i<length tss. of_thread i ps = tss ! i) \<and> (\<forall>p \<in> set (lk_threads k). \<exists>r. p = Return r))
    \<and> wf {(k1, k). \<exists>i. lk_step i k = Some (k1 :: (log_mutex, rfa \<times> osys, unit list) locks)}"
proof -
  let ?pss = "map (map (write_steps header)) tss"
  have start: "map (in_turn []) ?pss = map (\<lambda>ts. in_turn [] (map (write_steps header) ts)) tss" by simp
  have ord: "list_all (\<lambda>p. ordered (\<lambda>_. 0) p (\<lambda>_. 0) (\<lambda>_. 0)) (map (in_turn []) ?pss)"
    using write_ordered by (auto simp: list_all_iff intro!: ordered_in_turn)
  have crit: "list_all (list_all (critical M_mutex)) ?pss" using write_critical by (auto simp: list_all_iff)
  have ended: "\<exists>r. lk_threads k ! i = Return r" if "i < length (lk_threads k)" for i
    using no_deadlock [OF ord _ assms(2) that] assms(1) start by metis
  from runs_serially [OF crit _ this] assms(1) start obtain xs rs where
    "fold turn xs (map (\<lambda>_. []) ?pss, ?pss, s) = (rs, map (\<lambda>_. []) ?pss, lk_state k)" by metis
  from writes_in_turn [OF this] obtain ps where "lk_state k = fold (rfa_write header) (map snd ps) s"
    "fst ` set ps \<subseteq> {..<length tss}" "\<forall>i<length tss. tss ! i = of_thread i ps" by auto
  moreover have "\<forall>p \<in> set (lk_threads k). \<exists>r. p = Return r" using ended by (metis in_set_conv_nth)
  ultimately show ?thesis using runs_end by auto
qed

text \<open>Two threads log to a new file, the first of them twice.\<close>

theorem log_threads_witness:
  "\<exists>ls k ps. lk_run ls (lk_start (map (\<lambda>ts. in_turn [] (map (write_steps '''') ts)) [[''a'', ''b''], [''c'']])
        (RollingFileAppender ''/l/d.log'' 0 2, log_os)) = Some k
     \<and> lk_state k = fold (rfa_write '''') (map snd ps) (RollingFileAppender ''/l/d.log'' 0 2, log_os)
     \<and> of_thread 0 ps = [''a'', ''b''] \<and> of_thread 1 ps = [''c'']"
proof -
  let ?tss = "[[''a'', ''b''], [''c'']]" and ?s = "(RollingFileAppender ''/l/d.log'' 0 2, log_os)"
  obtain ls k where k: "lk_run ls (lk_start (map (\<lambda>ts. in_turn [] (map (write_steps '''') ts)) ?tss) ?s) = Some k"
    "\<And>i. lk_step i k = None" using run_to_end by blast
  from log_threads [OF k] obtain ps where ps: "lk_state k = fold (rfa_write '''') (map snd ps) ?s"
    "\<forall>i<length ?tss. of_thread i ps = ?tss ! i" by blast
  then have "of_thread 0 ps = [''a'', ''b'']" "of_thread 1 ps = [''c'']" by simp_all
  with k(1) ps(1) show ?thesis by blast
qed


end
