(* ===== verification/Signals.thy ===== *)
theory Signals
  imports Supervisor
begin

text \<open>
  The signals of \<^verbatim>\<open>Daemon/src/main.cpp\<close>: which ones the supervisor and the worker process block and handle, and how a
  request to stop goes from the outside to the supervisor and on to the worker, with the two processes and the
  outside in any interleaving. A standard signal is pending or not; which of several pending ones \<^verbatim>\<open>sigwait\<close> takes
  is not specified, so it is a label of the step.
\<close>

section \<open>The signals of a process\<close>

datatype fault = SIGFPE | SIGILL | SIGSEGV | SIGBUS

record psig =
  ps_blocked :: "signo set"
  ps_pending :: "signo set"
  ps_handled :: "fault set"

text \<open>
  \<^verbatim>\<open>sigprocmask(SIG_BLOCK)\<close>, \<^verbatim>\<open>sigaction\<close>, and what \<^verbatim>\<open>fork\<close> gives the child: the mask and the handlers, but no pending
  signals. A signal that is not blocked acts at once: \<^verbatim>\<open>SIGCHLD\<close> is ignored, the others end the process (\<open>None\<close>).
\<close>

definition block :: "signo set \<Rightarrow> psig \<Rightarrow> psig" where
  "block sigset p = p\<lparr>ps_blocked := ps_blocked p \<union> sigset\<rparr>"

definition handle :: "fault set \<Rightarrow> psig \<Rightarrow> psig" where
  "handle sigs p = p\<lparr>ps_handled := ps_handled p \<union> sigs\<rparr>"

definition forked_signals :: "psig \<Rightarrow> psig" where
  "forked_signals p = p\<lparr>ps_pending := {}\<rparr>"

definition raise_signal :: "signo \<Rightarrow> psig \<Rightarrow> psig option" where
  "raise_signal sig p =
     (if sig \<in> ps_blocked p then Some (p\<lparr>ps_pending := insert sig (ps_pending p)\<rparr>)
      else if sig = SIGCHLD then Some p
      else None)"

definition take_signal :: "signo set \<Rightarrow> signo \<Rightarrow> psig \<Rightarrow> psig option" where
  "take_signal sigset sig p =
     (if sig \<in> sigset \<inter> ps_pending p then Some (p\<lparr>ps_pending := ps_pending p - {sig}\<rparr>) else None)"

definition stop_signals :: "signo set" where
  "stop_signals = {SIGQUIT, SIGINT, SIGTERM}"

definition sup_sigset :: "signo set" where
  "sup_sigset = {SIGQUIT, SIGINT, SIGTERM, SIGCHLD}"

definition sup_signals :: "psig \<Rightarrow> psig" where
  "sup_signals p = block sup_sigset p"

definition worker_signals :: "psig \<Rightarrow> psig" where
  "worker_signals p = block stop_signals (handle {SIGFPE, SIGILL, SIGSEGV, SIGBUS} p)"

section \<open>The two processes\<close>

text \<open>
  The worker sets up its signals, starts the controller, waits for a signal, stops the controller, and has ended.
  A fault is handled once the handlers are set up, by \<open>SignalError\<close>. The supervisor forks, waits for a signal,
  waits for the child to end, or passes the request on.
\<close>

datatype wpc = W_Setup | W_Start | W_Wait | W_Stop | W_Ended child_end

datatype ppc = P_Fork | P_Signal | P_Wait | P_Kill | P_Ended u32

record procs =
  pp_sup :: psig
  pp_pc :: ppc
  pp_worker :: psig
  pp_wpc :: wpc

text \<open>
  What can happen: the outside sends a signal to the supervisor or the worker, the worker is suspended or resumed, a
  step of the supervisor, a step of the worker, each with what the system or the code it calls answers.
\<close>

datatype plab =
    Pl_Sup signo
  | Pl_Worker signo
  | Pl_Suspended
  | Pl_Fork bool
  | Pl_Take signo
  | Pl_Reap
  | Pl_Kill
  | Pl_Setup
  | Pl_Start "unit outcome" bool bool
  | Pl_Sigwait signo
  | Pl_Stop "unit outcome" bool bool

definition alive :: "procs \<Rightarrow> bool" where
  "alive s \<longleftrightarrow> pp_pc s \<noteq> P_Fork \<and> (\<forall>e. pp_wpc s \<noteq> W_Ended e)"

text \<open>The worker ends: the supervisor gets \<^verbatim>\<open>SIGCHLD\<close>, if it is there.\<close>

definition ended :: "child_end \<Rightarrow> procs \<Rightarrow> procs" where
  "ended e s = s\<lparr>pp_wpc := W_Ended e, pp_sup := (case raise_signal SIGCHLD (pp_sup s) of Some p \<Rightarrow> p | None \<Rightarrow> pp_sup s)\<rparr>"

text \<open>A signal sent to the worker; where it is not blocked it ends the worker with the number of the signal.\<close>

fun signal_number :: "signo \<Rightarrow> nat" where
  "signal_number SIGINT = 2"
| "signal_number SIGQUIT = 3"
| "signal_number SIGTERM = 15"
| "signal_number SIGCHLD = 17"

definition to_worker :: "signo \<Rightarrow> procs \<Rightarrow> procs" where
  "to_worker sig s =
     (if \<not> alive s then s
      else (case raise_signal sig (pp_worker s) of
              Some p \<Rightarrow> s\<lparr>pp_worker := p\<rparr>
            | None \<Rightarrow> ended (Signaled (signal_number sig)) s))"

fun p_step :: "plab \<Rightarrow> procs \<Rightarrow> procs option" where
  "p_step (Pl_Sup sig) s = map_option (\<lambda>p. s\<lparr>pp_sup := p\<rparr>) (raise_signal sig (pp_sup s))"
| "p_step (Pl_Worker sig) s = Some (to_worker sig s)"
| "p_step Pl_Suspended s =
     (if alive s then map_option (\<lambda>p. s\<lparr>pp_sup := p\<rparr>) (raise_signal SIGCHLD (pp_sup s)) else None)"
| "p_step (Pl_Fork succeeds) s =
     (if pp_pc s \<noteq> P_Fork then None
      else if succeeds then Some (s\<lparr>pp_pc := P_Signal, pp_worker := forked_signals (pp_sup s), pp_wpc := W_Setup\<rparr>)
      else Some s)"
| "p_step (Pl_Take sig) s =
     (if pp_pc s \<noteq> P_Signal then None
      else map_option (\<lambda>p. s\<lparr>pp_sup := p, pp_pc := (if sig = SIGCHLD then P_Wait else P_Kill)\<rparr>)
             (take_signal sup_sigset sig (pp_sup s)))"
| "p_step Pl_Reap s =
     (case (pp_pc s, pp_wpc s) of
        (P_Wait, W_Ended e) \<Rightarrow>
          Some (s\<lparr>pp_pc := (let status = WEXITSTATUS (wait_status e)
                            in if status = word_of_int (code_of NeedToTerminate) then P_Ended status else P_Fork)\<rparr>)
      | _ \<Rightarrow> None)"
| "p_step Pl_Kill s = (if pp_pc s = P_Kill then Some ((to_worker SIGTERM s)\<lparr>pp_pc := P_Ended 0\<rparr>) else None)"
| "p_step Pl_Setup s =
     (if alive s \<and> pp_wpc s = W_Setup then Some (s\<lparr>pp_worker := worker_signals (pp_worker s), pp_wpc := W_Start\<rparr>) else None)"
| "p_step (Pl_Start r on_worker rpc_set) s =
     (if alive s \<and> pp_wpc s = W_Start
      then Some (if r = Ret () then s\<lparr>pp_wpc := W_Wait\<rparr> else ended (WorkProc r (Ret ()) on_worker rpc_set) s)
      else None)"
| "p_step (Pl_Sigwait sig) s =
     (if alive s \<and> pp_wpc s = W_Wait
      then map_option (\<lambda>p. s\<lparr>pp_worker := p, pp_wpc := W_Stop\<rparr>) (take_signal stop_signals sig (pp_worker s))
      else None)"
| "p_step (Pl_Stop r on_worker rpc_set) s =
     (if alive s \<and> pp_wpc s = W_Stop then Some (ended (WorkProc (Ret ()) r on_worker rpc_set) s) else None)"

fun p_run :: "plab list \<Rightarrow> procs \<Rightarrow> procs option" where
  "p_run [] s = Some s"
| "p_run (l # ls) s = (case p_step l s of None \<Rightarrow> None | Some s1 \<Rightarrow> p_run ls s1)"

text \<open>The supervisor when it has set up its signals.\<close>

definition p_start :: "psig \<Rightarrow> procs" where
  "p_start p = \<lparr>pp_sup = sup_signals p, pp_pc = P_Fork, pp_worker = p, pp_wpc = W_Setup\<rparr>"

section \<open>A request to stop is not lost\<close>

text \<open>
  The stop signals are blocked in both processes as long as a worker can run. When the supervisor has ended, the
  worker has ended, or has the signal, or is stopping. \<open>asked\<close> says where a request is.
\<close>

definition passed_on :: "procs \<Rightarrow> bool" where
  "passed_on s \<longleftrightarrow> (\<exists>e. pp_wpc s = W_Ended e) \<or> SIGTERM \<in> ps_pending (pp_worker s) \<or> pp_wpc s = W_Stop"

definition asked :: "procs \<Rightarrow> bool" where
  "asked s \<longleftrightarrow> (case pp_pc s of P_Kill \<Rightarrow> True | P_Ended st \<Rightarrow> True | _ \<Rightarrow> ps_pending (pp_sup s) \<inter> stop_signals \<noteq> {})"

definition procs_ok :: "procs \<Rightarrow> bool" where
  "procs_ok s \<longleftrightarrow> sup_sigset \<subseteq> ps_blocked (pp_sup s)
     \<and> (pp_pc s \<noteq> P_Fork \<longrightarrow> sup_sigset \<subseteq> ps_blocked (pp_worker s))
     \<and> (\<forall>st. pp_pc s = P_Ended st \<longrightarrow> st = 0 \<and> passed_on s \<or> st = 1 \<and> (\<exists>e. pp_wpc s = W_Ended e))
     \<and> (\<forall>n. pp_pc s \<noteq> P_Fork \<longrightarrow> pp_wpc s = W_Ended (Signaled n) \<longrightarrow> n = 6)"

lemmas signal_defs = sup_sigset_def stop_signals_def raise_signal_def take_signal_def block_def handle_def forked_signals_def
  worker_signals_def sup_signals_def

lemma all_signals: "sig \<in> sup_sigset"
  by (cases sig) (simp_all add: sup_sigset_def)

lemma raise_blocked: "sup_sigset \<subseteq> ps_blocked p \<Longrightarrow> raise_signal sig p = Some (p\<lparr>ps_pending := insert sig (ps_pending p)\<rparr>)"
  using all_signals by (auto simp: raise_signal_def)

lemma ended_signaled: "WorkProc r1 r2 on_worker rpc_set = Signaled n \<Longrightarrow> n = 6"
  by (auto simp: WorkProc_def SignalError_def split: outcome.splits if_splits)

lemma to_worker_ok:
  assumes "procs_ok s"
  shows "to_worker sig s = (if alive s then s\<lparr>pp_worker := (pp_worker s)\<lparr>ps_pending := insert sig (ps_pending (pp_worker s))\<rparr>\<rparr> else s)"
  using assms by (auto simp: to_worker_def alive_def procs_ok_def raise_blocked)

lemma ended_ok: "procs_ok s \<Longrightarrow> ended e s = s\<lparr>pp_wpc := W_Ended e, pp_sup := (pp_sup s)\<lparr>ps_pending := insert SIGCHLD (ps_pending (pp_sup s))\<rparr>\<rparr>"
  by (simp add: ended_def procs_ok_def raise_blocked)

lemma p_step_ok:
  assumes ok: "procs_ok s" and "p_step l s = Some s1"
  shows "procs_ok s1 \<and> (asked s \<longrightarrow> asked s1)"
proof (cases l)
  case (Pl_Reap)
  with assms show ?thesis
    by (auto simp: procs_ok_def asked_def Let_def passed_on_def split: ppc.splits wpc.splits if_splits)
next
  case (Pl_Take sig)
  with assms show ?thesis
    by (auto simp: procs_ok_def asked_def passed_on_def take_signal_def stop_signals_def sup_sigset_def split: if_splits ppc.splits)
next
  case (Pl_Start r a b)
  with assms show ?thesis
    by (auto simp: ended_ok ended_signaled procs_ok_def asked_def passed_on_def split: if_splits ppc.splits)
next
  case (Pl_Stop r a b)
  with assms show ?thesis
    by (auto simp: ended_ok ended_signaled procs_ok_def asked_def passed_on_def split: if_splits ppc.splits)
next
  case (Pl_Sigwait sig)
  with assms show ?thesis
    by (auto simp: procs_ok_def asked_def passed_on_def take_signal_def split: if_splits ppc.splits)
next
  case (Pl_Worker sig)
  then have "s1 = to_worker sig s" using assms(2) by simp
  then show ?thesis using ok unfolding to_worker_ok [OF ok]
    by (auto simp: procs_ok_def asked_def passed_on_def split: ppc.splits)
next
  case Pl_Kill
  then have s1: "pp_pc s = P_Kill" "s1 = (to_worker SIGTERM s)\<lparr>pp_pc := P_Ended 0\<rparr>" using assms(2) by (auto split: if_splits)
  have "passed_on s1" using s1(1) unfolding s1(2) to_worker_ok [OF ok] by (auto simp: passed_on_def alive_def)
  moreover have "asked s1" by (simp add: s1(2) asked_def)
  moreover have "pp_sup s1 = pp_sup s" "ps_blocked (pp_worker s1) = ps_blocked (pp_worker s)" "pp_wpc s1 = pp_wpc s" "pp_pc s1 = P_Ended 0"
    unfolding s1(2) to_worker_ok [OF ok] by simp_all
  ultimately show ?thesis using ok s1(1) by (auto simp: procs_ok_def)
next
  case (Pl_Sup sig)
  then show ?thesis using assms raise_blocked [of "pp_sup s"]
    by (auto simp: procs_ok_def asked_def passed_on_def split: ppc.splits)
next
  case Pl_Suspended
  then show ?thesis using assms raise_blocked [of "pp_sup s"]
    by (auto simp: procs_ok_def asked_def passed_on_def split: ppc.splits if_splits)
next
  case (Pl_Fork b)
  then show ?thesis using assms
    by (auto simp: procs_ok_def asked_def forked_signals_def split: ppc.splits if_splits)
next
  case Pl_Setup
  then show ?thesis using assms
    by (auto simp: procs_ok_def asked_def passed_on_def worker_signals_def block_def handle_def split: ppc.splits if_splits)
qed

lemma p_start_ok: "procs_ok (p_start p)"
  by (auto simp: procs_ok_def p_start_def sup_signals_def block_def)

lemma p_run_asked:
  assumes "p_run ls s = Some s1" and "procs_ok s" and "asked s \<or> (\<exists>sig \<in> stop_signals. Pl_Sup sig \<in> set ls)"
  shows "procs_ok s1 \<and> asked s1"
  using assms
proof (induction ls arbitrary: s)
  case (Cons l ls)
  from Cons.prems(1) obtain s2 where step: "p_step l s = Some s2" and run: "p_run ls s2 = Some s1" by (auto split: option.splits)
  have "asked s2" if "l = Pl_Sup sig" "sig \<in> stop_signals" for sig
    using that step Cons.prems(2) raise_blocked [of "pp_sup s" sig] by (auto simp: asked_def procs_ok_def split: ppc.split)
  with Cons.IH [OF run] p_step_ok [OF Cons.prems(2) step] Cons.prems(3) show ?case by auto
qed simp

text \<open>C21: a request to stop the daemon is not lost. However the steps of the supervisor, of the workers it starts one
  after the other and of the outside interleave: once one of the signals that ask the supervisor to stop has been
  sent, it is pending there, or the supervisor is about to pass it on, or the supervisor has ended; and then the
  worker has ended, or is stopping, or has \<open>SIGTERM\<close> pending, which its \<open>sigwait\<close> can take. The supervisor can
  always take its next step, unless it waits for a worker to end that has not. No signal sent to a worker ends
  it before it waits for it.\<close>

theorem stop_not_lost:
  assumes "p_run ls (p_start p) = Some s" and "Pl_Sup sig \<in> set ls" and "sig \<in> stop_signals"
  shows "(case pp_pc s of
      P_Ended st \<Rightarrow> st = 0 \<and> passed_on s \<or> st = 1 \<and> (\<exists>e. pp_wpc s = W_Ended e)
    | P_Kill \<Rightarrow> p_step Pl_Kill s \<noteq> None
    | P_Signal \<Rightarrow> \<exists>sig1 \<in> stop_signals. p_step (Pl_Take sig1) s \<noteq> None
    | P_Wait \<Rightarrow> ps_pending (pp_sup s) \<inter> stop_signals \<noteq> {} \<and> ((\<exists>e. pp_wpc s = W_Ended e) \<longrightarrow> p_step Pl_Reap s \<noteq> None)
    | P_Fork \<Rightarrow> ps_pending (pp_sup s) \<inter> stop_signals \<noteq> {} \<and> p_step (Pl_Fork True) s \<noteq> None)
    \<and> (alive s \<and> pp_wpc s = W_Wait \<and> SIGTERM \<in> ps_pending (pp_worker s) \<longrightarrow> p_step (Pl_Sigwait SIGTERM) s \<noteq> None)
    \<and> (\<forall>n. pp_pc s \<noteq> P_Fork \<and> pp_wpc s = W_Ended (Signaled n) \<longrightarrow> n = 6)"
proof -
  have ok: "procs_ok s" "asked s" using p_run_asked [OF assms(1) p_start_ok] assms(2,3) by auto
  have one: "\<exists>sig1 \<in> stop_signals. p_step (Pl_Take sig1) s \<noteq> None" if "pp_pc s = P_Signal"
    using ok(2) that by (auto simp: asked_def take_signal_def stop_signals_def sup_sigset_def)
  have two: "p_step (Pl_Sigwait SIGTERM) s \<noteq> None" if "alive s" "pp_wpc s = W_Wait" "SIGTERM \<in> ps_pending (pp_worker s)"
    using that by (simp add: take_signal_def stop_signals_def)
  show ?thesis
  proof (intro conjI impI allI)
    show "p_step (Pl_Sigwait SIGTERM) s \<noteq> None" if "alive s \<and> pp_wpc s = W_Wait \<and> SIGTERM \<in> ps_pending (pp_worker s)"
      using that two by blast
    show "n = 6" if "pp_pc s \<noteq> P_Fork \<and> pp_wpc s = W_Ended (Signaled n)" for n using ok(1) that by (simp add: procs_ok_def)
  qed (use ok one in \<open>auto simp: procs_ok_def asked_def split: ppc.split\<close>)
qed

text \<open>A request comes while the worker starts; the supervisor passes it on, and the worker stops when it has started.\<close>

theorem stop_not_lost_witness:
  "\<exists>s. p_run [Pl_Fork True, Pl_Setup, Pl_Sup SIGINT, Pl_Take SIGINT, Pl_Kill, Pl_Start (Ret ()) False False]
        (p_start \<lparr>ps_blocked = {}, ps_pending = {}, ps_handled = {}\<rparr>) = Some s
     \<and> pp_pc s = P_Ended 0 \<and> pp_wpc s = W_Wait \<and> SIGTERM \<in> ps_pending (pp_worker s) \<and> p_step (Pl_Sigwait SIGTERM) s \<noteq> None"
proof -
  let ?ls = "[Pl_Fork True, Pl_Setup, Pl_Sup SIGINT, Pl_Take SIGINT, Pl_Kill, Pl_Start (Ret ()) False False]"
  obtain s where s: "p_run ?ls (p_start \<lparr>ps_blocked = {}, ps_pending = {}, ps_handled = {}\<rparr>) = Some s" "pp_pc s = P_Ended 0"
    "pp_wpc s = W_Wait" "alive s"
    by (auto simp: p_start_def signal_defs alive_def to_worker_def)
  from stop_not_lost [OF s(1), of SIGINT] s(2,3) have "SIGTERM \<in> ps_pending (pp_worker s)"
    by (auto simp: stop_signals_def passed_on_def)
  moreover from stop_not_lost [OF s(1), of SIGINT] s(3,4) this have "p_step (Pl_Sigwait SIGTERM) s \<noteq> None"
    by (simp add: stop_signals_def del: p_step.simps)
  ultimately show ?thesis using s(1-3) by blast
qed

section \<open>The loop of the supervisor\<close>

text \<open>The turns of the loop (theory \<open>Supervisor\<close>) that a run of the two processes contains. The number of the worker does
  not matter to the loop; it is 1 here.\<close>

fun turn_of :: "plab \<Rightarrow> procs \<Rightarrow> Supervisor.turn list" where
  "turn_of (Pl_Fork False) s = [\<lparr>tn_fork = None, tn_signal = SIGCHLD, tn_end = Exited 0\<rparr>]"
| "turn_of (Pl_Take sig) s = (if sig = SIGCHLD then [] else [\<lparr>tn_fork = Some 1, tn_signal = sig, tn_end = Exited 0\<rparr>])"
| "turn_of Pl_Reap s =
     (case pp_wpc s of W_Ended e \<Rightarrow> [\<lparr>tn_fork = Some 1, tn_signal = SIGCHLD, tn_end = e\<rparr>] | _ \<Rightarrow> [])"
| "turn_of _ s = []"

fun turns_of :: "plab list \<Rightarrow> procs \<Rightarrow> Supervisor.turn list" where
  "turns_of [] s = []"
| "turns_of (l # ls) s = turn_of l s @ (case p_step l s of None \<Rightarrow> [] | Some s1 \<Rightarrow> turns_of ls s1)"

text \<open>How far the loop is when the supervisor is at a counter: not at its end, or with a status.\<close>

fun loop_at :: "ppc \<Rightarrow> Supervisor.turn list \<Rightarrow> bool" where
  "loop_at P_Kill tns \<longleftrightarrow> (\<exists>tn. find breaks tns = Some tn \<and> tn_signal tn \<noteq> SIGCHLD)"
| "loop_at (P_Ended st) tns \<longleftrightarrow> (\<exists>tn. find breaks tns = Some tn \<and> st = (if tn_signal tn = SIGCHLD then 1 else 0))"
| "loop_at _ tns \<longleftrightarrow> find breaks tns = None"

lemma find_append: "find P (xs @ ys) = (case find P xs of None \<Rightarrow> find P ys | Some x \<Rightarrow> Some x)"
  by (induction xs) auto

lemma worker_keeps_pc [simp]: "pp_pc (to_worker sig s) = pp_pc s" "pp_pc (ended e s) = pp_pc s"
  by (simp_all add: to_worker_def ended_def split: option.split)

lemma loop_at_step:
  assumes "loop_at (pp_pc s) tns" and "p_step l s = Some s1"
  shows "loop_at (pp_pc s1) (tns @ turn_of l s)"
proof (cases l)
  case (Pl_Fork b)
  with assms show ?thesis by (cases b) (auto simp: find_append breaks_def split: if_splits)
next
  case (Pl_Take sig)
  with assms show ?thesis by (auto simp: find_append breaks_def split: if_splits)
next
  case Pl_Reap
  then obtain e where e: "pp_pc s = P_Wait" "pp_wpc s = W_Ended e"
    "pp_pc s1 = (let status = WEXITSTATUS (wait_status e) in if status = 1 then P_Ended status else P_Fork)"
    using assms(2) by (auto split: ppc.splits wpc.splits)
  with Pl_Reap assms(1) show ?thesis by (auto simp: find_append breaks_def Let_def)
next
  case Pl_Kill
  with assms show ?thesis by (auto split: if_splits)
qed (use assms in \<open>auto split: if_splits\<close>)

lemma loop_at_run:
  assumes "loop_at (pp_pc s) tns" and "p_run ls s = Some s1"
  shows "loop_at (pp_pc s1) (tns @ turns_of ls s)"
  using assms
proof (induction ls arbitrary: s tns)
  case (Cons l ls)
  then obtain s2 where s2: "p_step l s = Some s2" "p_run ls s2 = Some s1" by (auto split: option.splits)
  from Cons.IH [OF loop_at_step [OF Cons.prems(1) s2(1)] s2(2)] s2(1) show ?case by simp
qed simp

text \<open>The two models agree: \<open>VerAIDaemonProc\<close>, over the turns of a run, has returned with a status just when the
  supervisor of the run has ended with it or is about to pass the request on.\<close>

lemma signals_are_turns:
  assumes "p_run ls (p_start p) = Some s"
  shows "fst (VerAIDaemonProc self garbage (turns_of ls (p_start p)) fs) =
    (case pp_pc s of P_Ended st \<Rightarrow> Some st | P_Kill \<Rightarrow> Some 0 | _ \<Rightarrow> None)"
proof -
  have "loop_at (pp_pc (p_start p)) []" by (simp add: p_start_def)
  from loop_at_run [OF this assms] show ?thesis by (cases "pp_pc s") (auto simp: VerAIDaemonProc_result)
qed

text \<open>
  A worker that is suspended, and not ended, also sends \<^verbatim>\<open>SIGCHLD\<close>: the supervisor then waits for it to end, and
  until it has, no request to stop is taken.
\<close>

lemma suspended_worker_blocks:
  "\<exists>s. p_run [Pl_Fork True, Pl_Setup, Pl_Suspended, Pl_Take SIGCHLD, Pl_Sup SIGTERM] (p_start \<lparr>ps_blocked = {}, ps_pending = {}, ps_handled = {}\<rparr>) = Some s
     \<and> alive s \<and> SIGTERM \<in> ps_pending (pp_sup s) \<and> SIGTERM \<notin> ps_pending (pp_worker s)
     \<and> (\<forall>l. p_step l s \<noteq> None \<longrightarrow> l \<notin> {Pl_Reap, Pl_Kill, Pl_Fork True, Pl_Fork False} \<union> range Pl_Take)"
  by (auto simp: p_start_def signal_defs alive_def)


end
