(* ===== verification/Wide_Text.thy ===== *)
theory Wide_Text
  imports Log_Text
begin

text \<open>
  Wide strings in the logging library (\<^verbatim>\<open>plog/include/plog/Util.h\<close>, \<^verbatim>\<open>Record.h\<close>): \<open>toNarrow\<close> as it is built on Linux, where
  a \<^verbatim>\<open>wchar_t\<close> is a code point of 32 bits, and \<open>toWide\<close> and \<open>toUTF8\<close> as they are built on Windows, where it is a
  unit of 16 bits. The converters of the two systems are parameters with what their manuals say of them.
\<close>

section \<open>UTF-8\<close>

definition utf8_bytes :: "nat \<Rightarrow> nat list" where
  "utf8_bytes n =
     (if n < 128 then [n]
      else if n < 2048 then [192 + n div 64, 128 + n mod 64]
      else if n < 65536 then [224 + n div 64 div 64, 128 + n div 64 mod 64, 128 + n mod 64]
      else [240 + n div 64 div 64 div 64, 128 + n div 64 div 64 mod 64, 128 + n div 64 mod 64, 128 + n mod 64])"

definition code_point :: "nat \<Rightarrow> bool" where
  "code_point n \<longleftrightarrow> n < 0xD800 \<or> 0xE000 \<le> n \<and> n < 0x110000"

definition utf8 :: "nat list \<Rightarrow> string" where
  "utf8 ns = map char_of (concat (map utf8_bytes ns))"

fun utf8_read :: "nat list \<Rightarrow> nat list" where
  "utf8_read [] = []"
| "utf8_read (a # s) =
     (if a < 128 then a # utf8_read s
      else if a < 224 then (case s of b # s1 \<Rightarrow> ((a - 192) * 64 + (b - 128)) # utf8_read s1 | _ \<Rightarrow> [])
      else if a < 240 then (case s of b # c # s1 \<Rightarrow> (((a - 224) * 64 + (b - 128)) * 64 + (c - 128)) # utf8_read s1 | _ \<Rightarrow> [])
      else (case s of b # c # d # s1 \<Rightarrow> ((((a - 240) * 64 + (b - 128)) * 64 + (c - 128)) * 64 + (d - 128)) # utf8_read s1 | _ \<Rightarrow> []))"

lemma utf8_length: "length (utf8_bytes n) \<le> 4" "n < 65536 \<Longrightarrow> length (utf8_bytes n) \<le> 3" "2048 \<le> n \<Longrightarrow> 3 \<le> length (utf8_bytes n)"
  by (simp_all add: utf8_bytes_def)

lemma utf8_read_bytes:
  assumes "n < 0x110000"
  shows "utf8_read (utf8_bytes n @ s) = n # utf8_read s"
proof -
  define a where "a = n div 64"
  define b where "b = a div 64"
  define c where "c = b div 64"
  have s: "a * 64 + n mod 64 = n" "b * 64 + a mod 64 = a" "c * 64 + b mod 64 = b" by (simp_all add: a_def b_def c_def)
  consider "n < 128" | "128 \<le> n" "n < 2048" "a < 32" | "2048 \<le> n" "n < 65536" "b < 16" | "65536 \<le> n" "c < 16"
    using assms unfolding a_def b_def c_def by fastforce
  moreover have "4096 * b + a mod 64 * 64 + n mod 64 = n" using s(1,2) by linarith
  ultimately show ?thesis
    by cases (simp_all add: utf8_bytes_def s flip: a_def b_def c_def)
qed

lemma utf8_bytes_small: "n < 0x110000 \<Longrightarrow> \<forall>a \<in> set (utf8_bytes n). a < 256"
  by (auto simp: utf8_bytes_def)

lemma utf8_read_utf8:
  assumes "\<forall>n \<in> set ns. code_point n"
  shows "utf8_read (map of_char (utf8 ns)) = ns"
  using assms
proof (induction ns)
  case (Cons n ns)
  then have n: "n < 0x110000" by (auto simp: code_point_def)
  then have "map (of_char \<circ> char_of) (utf8_bytes n) = utf8_bytes n"
    using utf8_bytes_small by (auto intro!: map_idI simp: of_char_of)
  with Cons utf8_read_bytes [OF n] show ?case by (simp add: utf8_def)
qed (simp add: utf8_def)

section \<open>Linux\<close>

text \<open>
  \<^verbatim>\<open>iconv\<close> from \<^verbatim>\<open>WCHAR_T\<close> to \<^verbatim>\<open>UTF-8\<close>, given the input and the room in the output: it never writes more than there
  is room for, and a text of code points that fits is converted whole.
\<close>

definition iconv_spec :: "(u32 list \<Rightarrow> nat \<Rightarrow> string) \<Rightarrow> bool" where
  "iconv_spec iconv \<longleftrightarrow>
     (\<forall>w n. length (iconv w n) \<le> n
        \<and> ((\<forall>c \<in> set w. code_point (unat c)) \<longrightarrow> length (utf8 (map unat w)) \<le> n \<longrightarrow> iconv w n = utf8 (map unat w)))"

definition toNarrow :: "(u32 list \<Rightarrow> nat \<Rightarrow> string) \<Rightarrow> u32 list \<Rightarrow> string" where
  "toNarrow iconv wstr =
     (let str = replicate (length wstr * 4) (CHR 0x00)
      in if str \<noteq> '''' then (let out = iconv wstr (length str);
                              outBytes = length str - length out
                          in take (length str - outBytes) (out @ drop (length out) str))
         else str)"

text \<open>Four bytes for each character are enough: nothing is cut off, and the text can be read back.\<close>

lemma utf8_fits: "length (utf8 ns) \<le> length ns * 4"
proof (induction ns)
  case (Cons n ns)
  with utf8_length(1) [of n] show ?case by (simp add: utf8_def)
qed (simp add: utf8_def)

lemma toNarrow_whole:
  assumes "iconv_spec iconv" and "\<forall>c \<in> set w. code_point (unat c)"
  shows "toNarrow iconv w = utf8 (map unat w)" and "utf8_read (map of_char (toNarrow iconv w)) = map unat w"
proof -
  have "iconv w (length w * 4) = utf8 (map unat w)"
    using assms utf8_fits [of "map unat w"] by (simp add: iconv_spec_def)
  then show *: "toNarrow iconv w = utf8 (map unat w)"
    using utf8_fits [of "map unat w"] by (cases w) (simp_all add: toNarrow_def Let_def utf8_def)
  show "utf8_read (map of_char (toNarrow iconv w)) = map unat w"
    unfolding * by (rule utf8_read_utf8) (use assms(2) in auto)
qed

text \<open>The stream operators of \<^verbatim>\<open>Record.h\<close> for wide characters and strings; a null pointer is \<open>None\<close>.\<close>

definition put_wide :: "(u32 list \<Rightarrow> nat \<Rightarrow> string) \<Rightarrow> u32 list option \<Rightarrow> log_record \<Rightarrow> log_record" where
  "put_wide iconv data r =
     r\<lparr>m_message := m_message r
        @ toNarrow iconv (case data of None \<Rightarrow> map of_char ''(null)'' | Some w \<Rightarrow> takeWhile (\<lambda>c. c \<noteq> 0) w)\<rparr>"

definition put_wchar :: "(u32 list \<Rightarrow> nat \<Rightarrow> string) \<Rightarrow> u32 \<Rightarrow> log_record \<Rightarrow> log_record" where
  "put_wchar iconv data r = put_wide iconv (Some [data, 0]) r"

section \<open>Windows\<close>

text \<open>
  \<^verbatim>\<open>MultiByteToWideChar\<close> and \<^verbatim>\<open>WideCharToMultiByte\<close>, given the input and the room in the output: what they write, or
  nothing, with the result zero, when it does not fit.
\<close>

definition toWide :: "(string \<Rightarrow> nat \<Rightarrow> 16 word list) \<Rightarrow> string \<Rightarrow> 16 word list" where
  "toWide mb2wc str =
     (let wstr = replicate (length str) 0 in if wstr \<noteq> [] then mb2wc str (length wstr) else wstr)"

definition toUTF8 :: "(16 word list \<Rightarrow> nat \<Rightarrow> string) \<Rightarrow> 16 word list \<Rightarrow> string" where
  "toUTF8 wc2mb wstr =
     (let str = replicate (length wstr * 2) (CHR 0x00) in if str \<noteq> '''' then wc2mb wstr (length str) else str)"

definition wc2mb_spec :: "(16 word list \<Rightarrow> nat \<Rightarrow> string) \<Rightarrow> bool" where
  "wc2mb_spec wc2mb \<longleftrightarrow>
     (\<forall>w n. (\<forall>c \<in> set w. code_point (unat c)) \<longrightarrow>
        wc2mb w n = (if length (utf8 (map unat w)) \<le> n then utf8 (map unat w) else ''''))"

text \<open>
  Two bytes for each unit are not enough: a text of units from \<open>0x800\<close> on, such as one in Chinese, needs three for
  each, and nothing of it is left; one below \<open>0x800\<close> is whole.
\<close>

lemma toUTF8_lost:
  assumes "wc2mb_spec wc2mb" and "\<forall>c \<in> set w. code_point (unat c) \<and> 0x800 \<le> unat c"
  shows "toUTF8 wc2mb w = ''''"
proof (cases w)
  case (Cons c w1)
  have "length w * 3 \<le> length (utf8 (map unat w))"
    using assms(2)
  proof (induction w)
    case (Cons c w)
    with utf8_length(3) [of "unat c"] show ?case by (simp add: utf8_def)
  qed simp
  with Cons have "\<not> length (utf8 (map unat w)) \<le> length w * 2" by simp
  with assms show ?thesis by (simp add: toUTF8_def wc2mb_spec_def Let_def)
qed (simp add: toUTF8_def)

lemma toUTF8_whole:
  assumes "wc2mb_spec wc2mb" and "\<forall>c \<in> set w. unat c < 0x800"
  shows "toUTF8 wc2mb w = utf8 (map unat w)"
proof -
  have "length (utf8 (map unat w)) \<le> length w * 2"
    using assms(2) by (induction w) (auto simp: utf8_def utf8_bytes_def)
  moreover have "\<forall>c \<in> set w. code_point (unat c)" using assms(2) by (auto simp: code_point_def)
  ultimately show ?thesis using assms(1) by (cases w) (auto simp: toUTF8_def wc2mb_spec_def Let_def utf8_def)
qed

end
