(* ===== verification/Other_Platforms.thy ===== *)
theory Other_Platforms
  imports Wide_Text Console_Log
begin

text \<open>
  The parts of the logging library for other systems than the daemon's: the event log of Windows with its entries in
  the registry (\<^verbatim>\<open>Appenders/EventLogAppender.h\<close>), the Windows console's colours (\<^verbatim>\<open>ColorConsoleAppender.h\<close>), the debugger's
  output, Android's log, and the converter of line ends. The functions of the systems are parameters; the
  registry's are the locale \<open>registry\<close> of their documented laws. Names and texts are strings of characters.
\<close>

section \<open>Line ends\<close>

text \<open>\<^verbatim>\<open>NativeEOLConverter\<close>: a carriage return before every line feed. The next converter is an argument.\<close>

primrec fixLineEndings :: "string \<Rightarrow> string" where
  "fixLineEndings [] = []"
| "fixLineEndings (ch # str) = (if ch = CHR 0x0A then CHR 0x0D # ch # fixLineEndings str else ch # fixLineEndings str)"

definition NativeEOL_header :: "(string \<Rightarrow> string) \<Rightarrow> string \<Rightarrow> string" where
  "NativeEOL_header next_header str = next_header (fixLineEndings str)"

definition NativeEOL_convert :: "(string \<Rightarrow> string) \<Rightarrow> string \<Rightarrow> string" where
  "NativeEOL_convert next_convert str = next_convert (fixLineEndings str)"

text \<open>What a program reads from a file of text: each pair of carriage return and line feed is a line feed.\<close>

fun read_text :: "string \<Rightarrow> string" where
  "read_text (a # b # s) = (if a = CHR 0x0D \<and> b = CHR 0x0A then b # read_text s else a # read_text (b # s))"
| "read_text s = s"

text \<open>Nothing is lost, and the lines are those of the text; a text that has pairs already gets them doubled.\<close>

lemma read_fixed: "CHR 0x0D \<notin> set str \<Longrightarrow> read_text (fixLineEndings str) = str"
proof (induction str)
  case (Cons ch str)
  have "read_text (ch # fixLineEndings str) = ch # read_text (fixLineEndings str)" if "ch \<noteq> CHR 0x0D"
    using that by (cases "fixLineEndings str") auto
  with Cons show ?case by auto
qed simp

lemma fixed_lines: "length (filter (\<lambda>c. c = CHR 0x0A) (fixLineEndings str)) = length (filter (\<lambda>c. c = CHR 0x0A) str)"
  by (induction str) auto

lemma fixed_twice: "fixLineEndings (fixLineEndings [CHR 0x0A]) = [CHR 0x0D, CHR 0x0D, CHR 0x0A]"
  by simp

section \<open>Android and the debugger\<close>

datatype android_LogPriority =
    ANDROID_LOG_UNKNOWN | ANDROID_LOG_VERBOSE | ANDROID_LOG_DEBUG | ANDROID_LOG_INFO | ANDROID_LOG_WARN | ANDROID_LOG_ERROR
  | ANDROID_LOG_FATAL

fun toPriority :: "severity \<Rightarrow> android_LogPriority" where
  "toPriority fatal = ANDROID_LOG_FATAL"
| "toPriority error = ANDROID_LOG_ERROR"
| "toPriority warning = ANDROID_LOG_WARN"
| "toPriority info = ANDROID_LOG_INFO"
| "toPriority debug = ANDROID_LOG_DEBUG"
| "toPriority verbose = ANDROID_LOG_VERBOSE"
| "toPriority none = ANDROID_LOG_UNKNOWN"

definition AndroidAppender_write ::
  "(android_LogPriority \<Rightarrow> string \<Rightarrow> string \<Rightarrow> 'o \<Rightarrow> 'o) \<Rightarrow> string \<Rightarrow> (log_record \<Rightarrow> string) \<Rightarrow> log_record \<Rightarrow> 'o \<Rightarrow> 'o" where
  "AndroidAppender_write log_print tag format r o1 = log_print (toPriority (m_severity r)) tag (c_str (format r)) o1"

definition DebugOutputAppender_write :: "(string \<Rightarrow> 'o \<Rightarrow> 'o) \<Rightarrow> (log_record \<Rightarrow> string) \<Rightarrow> log_record \<Rightarrow> 'o \<Rightarrow> 'o" where
  "DebugOutputAppender_write output format r o1 = output (c_str (format r)) o1"

section \<open>The console of Windows\<close>

definition foreground_kBlue :: "16 word" where "foreground_kBlue = 0x0001"
definition foreground_kGreen :: "16 word" where "foreground_kGreen = 0x0002"
definition foreground_kRed :: "16 word" where "foreground_kRed = 0x0004"
definition foreground_kIntensity :: "16 word" where "foreground_kIntensity = 0x0008"
definition background_kRed :: "16 word" where "background_kRed = 0x0040"

lemmas console_colors = foreground_kBlue_def foreground_kGreen_def foreground_kRed_def foreground_kIntensity_def background_kRed_def

text \<open>The console is its attribute and the text with the attribute each character was written with.\<close>

record console =
  cn_attr :: "16 word"
  cn_text :: "(char \<times> 16 word) list"

definition SetConsoleTextAttribute :: "16 word \<Rightarrow> console \<Rightarrow> console" where
  "SetConsoleTextAttribute a c = c\<lparr>cn_attr := a\<rparr>"

definition win_writestr :: "string \<Rightarrow> console \<Rightarrow> console" where
  "win_writestr str c = c\<lparr>cn_text := cn_text c @ map (\<lambda>ch. (ch, cn_attr c)) str\<rparr>"

definition win_setColor :: "bool \<Rightarrow> 16 word \<Rightarrow> severity \<Rightarrow> console \<Rightarrow> console" where
  "win_setColor isatty originalAttr s c =
     (if isatty
      then (case s of
              fatal \<Rightarrow> SetConsoleTextAttribute
                (or (or (or (or foreground_kRed foreground_kGreen) foreground_kBlue) foreground_kIntensity) background_kRed) c
            | error \<Rightarrow> SetConsoleTextAttribute (or (or foreground_kRed foreground_kIntensity) (and originalAttr 0xf0)) c
            | warning \<Rightarrow> SetConsoleTextAttribute
                (or (or (or foreground_kRed foreground_kGreen) foreground_kIntensity) (and originalAttr 0xf0)) c
            | debug \<Rightarrow> SetConsoleTextAttribute
                (or (or (or foreground_kGreen foreground_kBlue) foreground_kIntensity) (and originalAttr 0xf0)) c
            | verbose \<Rightarrow> SetConsoleTextAttribute
                (or (or (or foreground_kGreen foreground_kBlue) foreground_kIntensity) (and originalAttr 0xf0)) c
            | _ \<Rightarrow> c)
      else c)"

definition win_resetColor :: "bool \<Rightarrow> 16 word \<Rightarrow> console \<Rightarrow> console" where
  "win_resetColor isatty originalAttr c = (if isatty then SetConsoleTextAttribute originalAttr c else c)"

definition win_write :: "bool \<Rightarrow> 16 word \<Rightarrow> (log_record \<Rightarrow> string) \<Rightarrow> log_record \<Rightarrow> console \<Rightarrow> console" where
  "win_write isatty originalAttr format r c =
     win_resetColor isatty originalAttr (win_writestr (format r) (win_setColor isatty originalAttr (m_severity r) c))"

text \<open>The text is that of the plain appender, the console has its own attribute again, and only a fatal record
  changes the background.\<close>

lemma win_write_effect:
  assumes "cn_attr c = attr"
  shows "map fst (cn_text (win_write tty attr format r c)) = map fst (cn_text c) @ format r"
    and "cn_attr (win_write tty attr format r c) = attr"
    and "m_severity r \<noteq> fatal \<Longrightarrow> (ch, a) \<in> set (drop (length (cn_text c)) (cn_text (win_write tty attr format r c)))
      \<Longrightarrow> and a 0xf0 = and attr 0xf0"
proof -
  have masks: "and (or x y :: 16 word) 0xf0 = or (and x 0xf0) (and y 0xf0)" for x y by (simp add: bit.conj_disj_distrib2)
  show "map fst (cn_text (win_write tty attr format r c)) = map fst (cn_text c) @ format r"
    by (cases "m_severity r")
      (simp_all add: win_write_def win_setColor_def win_resetColor_def win_writestr_def SetConsoleTextAttribute_def comp_def)
  show "cn_attr (win_write tty attr format r c) = attr"
    using assms by (cases "m_severity r")
      (simp_all add: win_write_def win_setColor_def win_resetColor_def win_writestr_def SetConsoleTextAttribute_def)
  show "and a 0xf0 = and attr 0xf0"
    if "m_severity r \<noteq> fatal" "(ch, a) \<in> set (drop (length (cn_text c)) (cn_text (win_write tty attr format r c)))"
    using that assms by (cases "m_severity r")
      (auto simp: win_write_def win_setColor_def win_resetColor_def win_writestr_def SetConsoleTextAttribute_def console_colors
        masks and.assoc split: if_splits)
qed

section \<open>The event log\<close>

definition kErrorType :: "16 word" where "kErrorType = 0x0001"
definition kWarningType :: "16 word" where "kWarningType = 0x0002"
definition kInformationType :: "16 word" where "kInformationType = 0x0004"

fun logSeverityToType :: "severity \<Rightarrow> 16 word" where
  "logSeverityToType fatal = kErrorType"
| "logSeverityToType error = kErrorType"
| "logSeverityToType warning = kWarningType"
| "logSeverityToType _ = kInformationType"

text \<open>The functions of the system for sources of events: a handle for a name, an event with its type, category and
  strings, and the end of a handle.\<close>

record 'o event_api =
  ev_RegisterEventSource :: "string \<Rightarrow> 'o \<Rightarrow> nat \<times> 'o"
  ev_ReportEvent :: "nat \<Rightarrow> 16 word \<Rightarrow> 16 word \<Rightarrow> string list \<Rightarrow> 'o \<Rightarrow> 'o"
  ev_DeregisterEventSource :: "nat \<Rightarrow> 'o \<Rightarrow> 'o"

definition EventLogAppender :: "'o event_api \<Rightarrow> string \<Rightarrow> 'o \<Rightarrow> nat \<times> 'o" where
  "EventLogAppender api sourceName o1 = ev_RegisterEventSource api sourceName o1"

definition EventLogAppender_write :: "'o event_api \<Rightarrow> nat \<Rightarrow> (log_record \<Rightarrow> string) \<Rightarrow> log_record \<Rightarrow> 'o \<Rightarrow> 'o" where
  "EventLogAppender_write api eventSource format r o1 =
     ev_ReportEvent api eventSource (logSeverityToType (m_severity r)) (word_of_nat (sev_num (m_severity r))) [c_str (format r)] o1"

definition EventLogAppender_destroy :: "'o event_api \<Rightarrow> nat \<Rightarrow> 'o \<Rightarrow> 'o" where
  "EventLogAppender_destroy api eventSource o1 = ev_DeregisterEventSource api eventSource o1"

text \<open>Three types are told apart, and the category is the severity, so the severity can be told from the event.\<close>

lemma severity_of_event:
  "(word_of_nat (sev_num s) :: 16 word) = word_of_nat (sev_num s1) \<Longrightarrow> s = s1"
  by (cases s; cases s1) simp_all

section \<open>The registry\<close>

text \<open>
  The name of a key is a path with backslashes. \<open>rg_create\<close> makes the key with those above it and returns a handle,
  \<open>rg_open\<close> opens a key that exists, \<open>rg_set\<close> stores a value under a name, \<open>rg_delete\<close> removes a key.
\<close>

datatype reg_value = Reg_Dword u32 | Reg_ExpandSz string

record 'w reg_api =
  rg_create :: "string \<Rightarrow> 'w \<Rightarrow> nat option \<times> 'w"
  rg_open :: "string \<Rightarrow> 'w \<Rightarrow> nat option \<times> 'w"
  rg_set :: "nat \<Rightarrow> string \<Rightarrow> reg_value \<Rightarrow> 'w \<Rightarrow> 'w"
  rg_close :: "nat \<Rightarrow> 'w \<Rightarrow> 'w"
  rg_delete :: "string \<Rightarrow> 'w \<Rightarrow> 'w"

abbreviation backslash :: char where "backslash \<equiv> CHR 0x5C"

definition kPrefix :: string where
  "kPrefix = ''SYSTEM'' @ backslash # ''CurrentControlSet'' @ backslash # ''Services'' @ backslash # ''EventLog'' @ [backslash]"

definition getKeyNames :: "string \<Rightarrow> string \<Rightarrow> string \<times> string" where
  "getKeyNames sourceName logName =
     (let logKeyName = kPrefix @ logName; sourceKeyName = logKeyName @ [backslash] @ sourceName in (sourceKeyName, logKeyName))"

definition kEventMessageFile :: string where
  "kEventMessageFile =
     ''%windir%'' @ backslash # ''Microsoft.NET'' @ backslash # ''Framework'' @ backslash # ''v4.0.30319'' @ backslash # ''EventLogMessages.dll;''
     @ ''%windir%'' @ backslash # ''Microsoft.NET'' @ backslash # ''Framework'' @ backslash # ''v2.0.50727'' @ backslash # ''EventLogMessages.dll''"

definition registry_add :: "'w reg_api \<Rightarrow> string \<Rightarrow> string \<Rightarrow> 'w \<Rightarrow> bool \<times> 'w" where
  "registry_add api sourceName logName w =
     (let (sourceKeyName, logKeyName) = getKeyNames sourceName logName
      in case rg_create api sourceKeyName w of
           (None, w1) \<Rightarrow> (False, w1)
         | (Some sourceKey, w1) \<Rightarrow>
             (let kTypesSupported = or (or (ucast kErrorType) (ucast kWarningType)) (ucast kInformationType);
                  w2 = rg_set api sourceKey ''TypesSupported'' (Reg_Dword kTypesSupported) w1;
                  w3 = rg_set api sourceKey ''EventMessageFile'' (Reg_ExpandSz kEventMessageFile) w2
              in (True, rg_close api sourceKey w3)))"

definition registry_exists :: "'w reg_api \<Rightarrow> string \<Rightarrow> string \<Rightarrow> 'w \<Rightarrow> bool \<times> 'w" where
  "registry_exists api sourceName logName w =
     (let (sourceKeyName, logKeyName) = getKeyNames sourceName logName
      in case rg_open api sourceKeyName w of
           (None, w1) \<Rightarrow> (False, w1)
         | (Some sourceKey, w1) \<Rightarrow> (True, rg_close api sourceKey w1))"

definition registry_remove :: "'w reg_api \<Rightarrow> string \<Rightarrow> string \<Rightarrow> 'w \<Rightarrow> 'w" where
  "registry_remove api sourceName logName w =
     (let (sourceKeyName, logKeyName) = getKeyNames sourceName logName
      in rg_delete api logKeyName (rg_delete api sourceKeyName w))"

text \<open>The path of a key, and that of a source whose names have no backslashes.\<close>

definition key_path :: "string \<Rightarrow> string list" where
  "key_path k = split_on backslash k"

definition source_path :: "string \<Rightarrow> string \<Rightarrow> string list" where
  "source_path src lg = [''SYSTEM'', ''CurrentControlSet'', ''Services'', ''EventLog'', lg, src]"

lemma key_path_names:
  assumes "backslash \<notin> set src" and "backslash \<notin> set lg"
  shows "key_path (kPrefix @ lg) = butlast (source_path src lg)"
    and "key_path (kPrefix @ lg @ backslash # src) = source_path src lg"
  using assms by (simp_all add: key_path_def kPrefix_def source_path_def split_on_append split_on_plain)

text \<open>
  The laws: which keys there are (\<open>has\<close>) is changed by making a key, which makes those above it too, and by removing
  one, which only works when it has no keys below it; the rest leaves it alone. A key that exists can be opened
  (the caller has the right to).
\<close>

locale registry =
  fixes api :: "'w reg_api" and has :: "'w \<Rightarrow> string list \<Rightarrow> bool"
  assumes create_has: "rg_create api k w = (Some h, w1) \<Longrightarrow> has w1 q \<longleftrightarrow> has w q \<or> (q \<noteq> [] \<and> (\<exists>r. key_path k = q @ r))"
    and create_fails: "rg_create api k w = (None, w1) \<Longrightarrow> has w1 = has w"
    and open_iff: "fst (rg_open api k w) \<noteq> None \<longleftrightarrow> has w (key_path k)"
    and open_has: "has (snd (rg_open api k w)) = has w"
    and set_has: "has (rg_set api h n v w) = has w"
    and close_has: "has (rg_close api h w) = has w"
    and delete_has: "has (rg_delete api k w) q \<longleftrightarrow> has w q \<and> (q \<noteq> key_path k \<or> (\<exists>n r. has w (key_path k @ n # r)))"
begin

lemma exists_key:
  assumes "backslash \<notin> set src" and "backslash \<notin> set lg"
  shows "fst (registry_exists api src lg w) \<longleftrightarrow> has w (source_path src lg)"
  using open_iff [of "kPrefix @ lg @ backslash # src" w] key_path_names [OF assms]
  by (auto simp: registry_exists_def getKeyNames_def split: prod.split option.split)

lemma add_keys:
  assumes "registry_add api src lg w = (True, w1)" and "backslash \<notin> set src" and "backslash \<notin> set lg"
  shows "has w1 q \<longleftrightarrow> has w q \<or> (q \<noteq> [] \<and> (\<exists>r. source_path src lg = q @ r))"
proof -
  obtain h w2 where "rg_create api (kPrefix @ lg @ backslash # src) w = (Some h, w2)" "has w1 = has w2"
    using assms(1) by (auto simp: registry_add_def getKeyNames_def Let_def set_has close_has split: prod.splits option.splits)
  with create_has key_path_names [OF assms(2,3)] show ?thesis by simp
qed

text \<open>A source that was added exists, and those that existed still do.\<close>

lemma add_exists:
  assumes "registry_add api src lg w = (True, w1)" and "backslash \<notin> set src \<union> set lg \<union> set src1 \<union> set lg1"
  shows "fst (registry_exists api src1 lg1 w1) \<longleftrightarrow> fst (registry_exists api src1 lg1 w) \<or> src1 = src \<and> lg1 = lg"
  using add_keys [OF assms(1)] assms(2) by (auto simp: exists_key source_path_def)

text \<open>
  A source without keys of its own that is removed is gone and the other sources are not. The key of the log goes
  with its last source: also the key of a log that was there before any source was added, such as
  \<^verbatim>\<open>Application\<close>.
\<close>

lemma remove_exists:
  assumes "\<And>n r. \<not> has w (source_path src lg @ n # r)" and "backslash \<notin> set src \<union> set lg \<union> set src1 \<union> set lg1"
  shows "fst (registry_exists api src1 lg1 (registry_remove api src lg w))
      \<longleftrightarrow> fst (registry_exists api src1 lg1 w) \<and> (src1 \<noteq> src \<or> lg1 \<noteq> lg)"
proof -
  have "key_path (kPrefix @ lg) = butlast (source_path src lg)" "key_path (kPrefix @ lg @ backslash # src) = source_path src lg"
    using key_path_names assms(2) by simp_all
  with assms show ?thesis
    by (auto simp: exists_key registry_remove_def getKeyNames_def delete_has source_path_def)
qed

lemma remove_log:
  assumes "\<And>n r. has w (butlast (source_path src lg) @ n # r) \<Longrightarrow> n = src \<and> r = []"
    and "backslash \<notin> set src" and "backslash \<notin> set lg"
  shows "\<not> has (registry_remove api src lg w) (butlast (source_path src lg))"
proof -
  have below: "\<not> has w (source_path src lg @ n # r)" for n r
    using assms(1) [of src "n # r"] by (auto simp: source_path_def)
  with assms(1) key_path_names [OF assms(2,3)] show ?thesis
    by (auto simp: registry_remove_def getKeyNames_def delete_has source_path_def)
qed

end

text \<open>A registry: the keys, the values, and the keys that have been opened.\<close>

record reg_tree =
  rt_keys :: "string list set"
  rt_values :: "(string list \<times> string) \<Rightarrow> reg_value option"
  rt_handles :: "string list list"

definition tree_registry :: "reg_tree reg_api" where
  "tree_registry =
     \<lparr>rg_create = (\<lambda>k w. (Some (length (rt_handles w)),
        w\<lparr>rt_keys := rt_keys w \<union> {q. q \<noteq> [] \<and> (\<exists>r. key_path k = q @ r)}, rt_handles := rt_handles w @ [key_path k]\<rparr>)),
      rg_open = (\<lambda>k w. if key_path k \<in> rt_keys w
        then (Some (length (rt_handles w)), w\<lparr>rt_handles := rt_handles w @ [key_path k]\<rparr>) else (None, w)),
      rg_set = (\<lambda>h n v w. if h < length (rt_handles w) then w\<lparr>rt_values := (rt_values w)((rt_handles w ! h, n) \<mapsto> v)\<rparr> else w),
      rg_close = (\<lambda>h w. w),
      rg_delete = (\<lambda>k w. if \<exists>n r. key_path k @ n # r \<in> rt_keys w then w else w\<lparr>rt_keys := rt_keys w - {key_path k}\<rparr>)\<rparr>"

interpretation tree: registry tree_registry "\<lambda>w q. q \<in> rt_keys w"
  by unfold_locales (auto simp: tree_registry_def)

text \<open>What \<open>add\<close> leaves under the key of the source.\<close>

lemma add_values:
  assumes "backslash \<notin> set src" and "backslash \<notin> set lg"
  shows "\<exists>w1. registry_add tree_registry src lg w = (True, w1)
    \<and> rt_values w1 (source_path src lg, ''TypesSupported'') = Some (Reg_Dword 7)
    \<and> rt_values w1 (source_path src lg, ''EventMessageFile'') = Some (Reg_ExpandSz kEventMessageFile)
    \<and> fst (registry_exists tree_registry src lg w1)"
proof -
  have types: "or (or (ucast kErrorType) (ucast kWarningType)) (ucast kInformationType) = (7 :: u32)"
    by (simp add: kErrorType_def kWarningType_def kInformationType_def)
  obtain w1 where w1: "registry_add tree_registry src lg w = (True, w1)"
    by (simp add: registry_add_def tree_registry_def getKeyNames_def Let_def)
  then have "rt_values w1 (source_path src lg, ''TypesSupported'') = Some (Reg_Dword 7)"
    "rt_values w1 (source_path src lg, ''EventMessageFile'') = Some (Reg_ExpandSz kEventMessageFile)"
    using key_path_names(2) [OF assms]
    by (auto simp: registry_add_def tree_registry_def getKeyNames_def Let_def types)
  with w1 tree.add_exists [OF w1] assms show ?thesis by blast
qed

end
