(* ===== verification/Spec2Isabelle.thy ===== *)
theory Spec2Isabelle
  imports Daemon File_Object Console_Log Local_Server Fleet_Run Server_Locks Log_Threads Signals Other_Platforms
begin

text \<open>
  The VerAI daemon (\<^verbatim>\<open>src/Daemon\<close>) and the logging library it is built with (\<^verbatim>\<open>src/plog\<close>).

  \<^bold>\<open>The program.\<close> \<^verbatim>\<open>main.cpp\<close> detaches a supervisor that forks the worker process and forks it again when it
  ends. The worker process is a \<open>Controller\<close> that owns two parts: the torrent engine (\<^verbatim>\<open>torrent.cpp\<close>), which
  generates torrent files for projects, downloads torrents through libtorrent and files what it knows of each
  in a registry (\<^verbatim>\<open>torrent_info_manager.cpp\<close>); and the RPC client (\<^verbatim>\<open>grpc_client.cpp\<close>), which polls a server for
  tasks and runs them on a worker thread (\<^verbatim>\<open>working_thread.cpp\<close>, \<^verbatim>\<open>message_queue.h\<close>). A task calls the
  controller back, the controller calls the engine, and what the engine has filed goes to the server as a
  report. Configuration is kept in INI files under a folder of the system (\<^verbatim>\<open>config/\<close>).

  \<^bold>\<open>Theories, from the bottom.\<close>

  \<^item> \<open>Prelude\<close>: results, outcomes (\<open>Ret\<close>, \<open>Throw\<close>, \<open>Undefined\<close> for undefined behaviour such as the use of a
    null pointer), strings, decimal numbers, sequencing. \<open>Std_Map\<close>: \<^verbatim>\<open>std::map\<close> as an ordered list.
  \<^item> \<open>Posix_FS\<close>, \<open>Posix_IO\<close>: the system calls on names and on descriptors, over a tree of nodes; what the
    system refuses, how much of a write it takes and the umask are fields of the state.
  \<^item> \<open>Filesystem\<close> and \<open>File_Object\<close>: the functions and class \<open>File\<close> of \<^verbatim>\<open>common/filesystem.cpp\<close>. \<open>CreateFolder\<close>
    refines a function on paths that makes every missing folder; what is written through a \<open>File\<close> is read back.
  \<^item> \<open>Config_Store\<close>, \<open>Config_Daemon\<close>, \<open>Config_Torrent\<close>: \<^verbatim>\<open>config/*.cpp\<close>. Boost's property tree is the locale
    \<open>property_tree\<close> of its documented laws, interpreted on a tree of sections. A setting written is read back;
    the UUID survives a restart.
  \<^item> \<open>Torrent_Info\<close>, \<open>Torrent_Info_Manager\<close>: the record of a torrent and the registry, with the objects on an
    explicit heap because callers write through shared pointers. The registry refines a map (locale
    interpreted on it).
  \<^item> \<open>Torrent_Core\<close>, \<open>Torrent_Alerts\<close>, \<open>Torrent_Laws\<close>: the engine's operations, the loop over libtorrent's alerts,
    and what holds of both; libtorrent is the record of functions \<open>lt_api\<close>. \<open>Torrent_Threads\<close>: the caller of
    \<open>Stop\<close> and the alert thread with the engine's two recursive mutexes, as program counters. \<open>Torrent_Jobs\<close>: the
    threads that generate torrents, one step for each access to the registry, the files and the session; a
    thread that runs alone is \<open>CreateTorrent\<close>, every thread ends, a torrent gets the link of its own project among
    threads that do not share its id or file name, and does not among threads that share the file name.
    \<open>Torrent_Reports\<close>: \<open>GetTorrentInfo\<close> beside those threads, one getter of \<open>TorrentInfo::Copy\<close> at a time, so that a
    report can mix what the entry was and is.
  \<^item> \<open>Message_Queue\<close>, \<open>Deferred_Tasks\<close>, \<open>Working_Thread\<close>: the queue (a refinement of lists), the thread that
    waits for deferred tasks (\<^verbatim>\<open>qsort\<close> is a parameter with the C standard's contract), and the worker with its
    two threads as program counters: no task is lost or doubled, tasks run in the order they were enqueued,
    and \<open>Stop\<close> lets the worker run what is queued and end.
  \<^item> \<open>Grpc_Client\<close>: the client's tasks over the generated stub (\<open>stub_api\<close>) and the controller's callbacks
    (\<open>callback_api\<close>), with the locale \<open>rpc_client\<close>, whose laws the controller meets. \<open>Grpc_Server\<close>: the server
    classes; \<open>Local_Server\<close> joins them to the client and the controller.
  \<^item> \<open>Controller\<close>: the owner of engine and client. \<open>Supervisor\<close>: \<^verbatim>\<open>main.cpp\<close>, its loop over the turns; \<open>Signals\<close>: the
    signals of the supervisor and the worker, with both processes in any interleaving. \<open>Daemon\<close>: all threads of the worker
    process in any interleaving, its invariant, the way of a request from the server to the report of the
    magnet link, and what a request to stop does.
  \<^item> \<open>Lock_Programs\<close>: threads with mutexes in general: programs that take mutexes in one order never
    stop each other for good, and programs under one mutex behave as if they ran one after the other.
  \<^item> \<open>Test_Server\<close>: \<^verbatim>\<open>tests/grpc_server.cpp\<close>, the server the daemon is tried against, each call in one step.
    \<open>Server_Locks\<close>: the same calls with the server's mutexes, as programs of \<open>Lock_Programs\<close>; which of them are
    like one step, and two that can stop each other for good. \<open>Client_Tasks\<close>: the client's
    tasks step by step, a step for each call of the server and each access to the engine; a task that is not
    interrupted is the function of theory \<open>Grpc_Client\<close>. \<open>Client_Node\<close>: one daemon, its client and its generating
    threads interleaved, what it relies on of a server (locale \<open>fleet_server\<close>) and the invariant it keeps then.
    \<open>Fleet\<close>: any number of daemons and one test server, which is proved to be such a server; a step is one of any
    daemon, and a daemon that has ended is started again by its supervisor. \<open>Fleet_Run\<close>: the way of a torrent
    from the daemon that generates it through the server to the one that downloads it, and the properties of fleets.
  \<^item> \<open>Log_Text\<close>, \<open>Rolling_File\<close>, \<open>Console_Log\<close>: plog's records, formatters and converter, the rolling file appender
    over \<open>Posix_IO\<close>, the logger, and the console's appenders, as they are built on Linux. \<open>Log_Threads\<close>: the appender with
    its mutex, for threads that log at the same time. \<open>Wide_Text\<close>, \<open>Other_Platforms\<close>: wide strings and UTF-8, and the
    parts for Windows and Android, over parameters for the functions of those systems.

  \<^bold>\<open>State and concurrency.\<close> A C++ object is a record, a member function a function on it; calls that can throw
  return an outcome. Where threads meet, each thread has a program counter and one step is the code between two
  accesses to shared state (\<open>Working_Thread\<close>, \<open>Torrent_Threads\<close>, \<open>Torrent_Jobs\<close>, \<open>Client_Tasks\<close>, \<open>Signals\<close>), or a program of
  \<open>Lock_Programs\<close> (\<open>Server_Locks\<close>, \<open>Log_Threads\<close>); elsewhere operations under a mutex are atomic. In a fleet a call of
  the server is one step: \<open>Server_Locks\<close> shows that of all calls but those that ask for torrents.
  A wait for a condition runs over a list of what other threads do meanwhile, and is still waiting when the
  list is used up; the supervisor's loop runs over a list of turns in the same way. Nothing else uses fuel:
  all other loops are structural or have a measure. Machine integers are words where they can wrap: the
  deferred times, the client's delay, the progress, the exit status of a child, the log's sizes.

  \<^bold>\<open>What the properties show.\<close> They are numbered in the order of importance: the way from a request to the
  report and on to another daemon (C1 to C3), the worker (C4 to C6), the client's heartbeat, the registry, the
  invariants of the daemon and of a fleet of them with their server (C9 to C14), the generating threads and
  the reports (C15 to C19), the supervisor, its signals and the log (C20 to C23); then what the code does where
  it goes wrong (C24 to C34):
  a stop request that restarts the daemon, generations that fail or cross, torn reports, requests that are
  doubled, tasks that are forgotten, the dead locks of the test server and of \<open>Torrent::Stop\<close>, deferred tasks that fire too early;
  then the parts below. What else was found wrong is a lemma of its theory: alerts matched to the wrong
  torrent, deferred tasks that never fire, a supervisor that waits for a suspended worker, the cost of a roll of
  the log.

  \<^bold>\<open>Not modelled.\<close> The Python trainer (\<^verbatim>\<open>src/tensorflow\<close>) shares no state with the daemon. The generator of UUIDs
  calls boost and formats the result: its value is an argument. The test client (\<^verbatim>\<open>tests/grpc_torrent_client.cpp\<close>)
  and plog's samples are programs that call what is modelled. plog's macros for each severity are names of
  \<open>PLOG\<close>, and its declarations of the Windows interface have no code. The stack trace a faulting worker
  writes to the system log, the log lines themselves, and libtorrent's session settings have no result the
  program uses. A generating thread is one turn in theory \<open>Daemon\<close>; its steps are those of \<open>Torrent_Jobs\<close>, where
  hashing and encoding a project read the files in one step each, and a batch of alerts and a download are atomic.
\<close>

end
